(* ===== verification/Prelude.thy ===== *)
theory Prelude
  imports Main "HOL-Library.Multiset"
begin

text \<open>
  Shared vocabulary of the development: the outcome of a Rust computation, the
  three-valued comparison, and the lemmas that let \<^theory_text>\<open>simp\<close> and
  \<^theory_text>\<open>auto\<close> run through chained fallible calls.
\<close>

section \<open>Outcomes of Rust computations\<close>

text \<open>
  A Rust function that returns \<open>Result<T, E>\<close> has three outcomes: it returns
  \<open>Ok\<close>, it returns \<open>Err\<close>, or it panics (an overflowing \<open>Decimal\<close> operator, an
  out-of-range index, a \<open>todo!()\<close>). A function whose Rust type is not a
  \<open>Result\<close> but that can panic is given the same type and never uses \<open>Err\<close>.
\<close>

datatype ('e, 'a) res = Ok 'a | Err 'e | Panic

fun res_bind :: "('e, 'a) res \<Rightarrow> ('a \<Rightarrow> ('e, 'b) res) \<Rightarrow> ('e, 'b) res" where
  "res_bind (Ok x) f = f x"
| "res_bind (Err e) f = Err e"
| "res_bind Panic f = Panic"

fun res_map :: "('a \<Rightarrow> 'b) \<Rightarrow> ('e, 'a) res \<Rightarrow> ('e, 'b) res" where
  "res_map f (Ok x) = Ok (f x)"
| "res_map f (Err e) = Err e"
| "res_map f Panic = Panic"

text \<open>\<open>Result::map_err\<close>, which is also what \<open>?\<close> does through a \<open>From\<close> impl.\<close>

fun res_map_err :: "('e \<Rightarrow> 'f) \<Rightarrow> ('e, 'a) res \<Rightarrow> ('f, 'a) res" where
  "res_map_err f (Ok x) = Ok x"
| "res_map_err f (Err e) = Err (f e)"
| "res_map_err f Panic = Panic"

text \<open>\<open>Option::ok_or\<close>.\<close>

fun ok_or :: "'a option \<Rightarrow> 'e \<Rightarrow> ('e, 'a) res" where
  "ok_or (Some x) e = Ok x"
| "ok_or None e = Err e"

text \<open>The panicking operators and \<open>unwrap\<close>: absence is a panic.\<close>

fun or_panic :: "'a option \<Rightarrow> ('e, 'a) res" where
  "or_panic (Some x) = Ok x"
| "or_panic None = Panic"

text \<open>\<open>Iterator::try_fold\<close> and the \<open>for\<close> loop with \<open>?\<close> in its body.\<close>

fun res_fold :: "('a \<Rightarrow> 's \<Rightarrow> ('e, 's) res) \<Rightarrow> 'a list \<Rightarrow> 's \<Rightarrow> ('e, 's) res" where
  "res_fold f [] s = Ok s"
| "res_fold f (x # xs) s = res_bind (f x s) (res_fold f xs)"

text \<open>Indexing a slice: past the end it panics.\<close>

definition index_at :: "'a list \<Rightarrow> nat \<Rightarrow> ('e, 'a) res" where
  "index_at xs i = (if i < length xs then Ok (xs ! i) else Panic)"

text \<open>\<open>iter().map(f).collect::<Result<Vec<_>, _>>()\<close>: stops at the first failure.\<close>

fun res_mapM :: "('a \<Rightarrow> ('e, 'b) res) \<Rightarrow> 'a list \<Rightarrow> ('e, 'b list) res" where
  "res_mapM f [] = Ok []"
| "res_mapM f (x # xs) = res_bind (f x) (\<lambda>y. res_bind (res_mapM f xs) (\<lambda>ys. Ok (y # ys)))"

subsection \<open>Inversion of chained calls\<close>

lemma res_bind_eq_Ok [simp]:
  "res_bind m f = Ok y \<longleftrightarrow> (\<exists>x. m = Ok x \<and> f x = Ok y)"
  by (cases m) auto

lemma res_bind_eq_Err [simp]:
  "res_bind m f = Err e \<longleftrightarrow> m = Err e \<or> (\<exists>x. m = Ok x \<and> f x = Err e)"
  by (cases m) auto

lemma res_bind_eq_Panic [simp]:
  "res_bind m f = Panic \<longleftrightarrow> m = Panic \<or> (\<exists>x. m = Ok x \<and> f x = Panic)"
  by (cases m) auto

lemma res_map_eq_Ok [simp]: "res_map f m = Ok y \<longleftrightarrow> (\<exists>x. m = Ok x \<and> y = f x)"
  by (cases m) auto

lemma res_map_eq_Err [simp]: "res_map f m = Err e \<longleftrightarrow> m = Err e"
  by (cases m) auto

lemma res_map_err_eq_Ok [simp]: "res_map_err f m = Ok y \<longleftrightarrow> m = Ok y"
  by (cases m) auto

lemma res_map_err_eq_Err [simp]:
  "res_map_err f m = Err e \<longleftrightarrow> (\<exists>e'. m = Err e' \<and> e = f e')"
  by (cases m) auto

lemma res_map_err_eq_Panic [simp]: "res_map_err f m = Panic \<longleftrightarrow> m = Panic"
  by (cases m) auto

lemma ok_or_eq_Ok [simp]: "ok_or p e = Ok x \<longleftrightarrow> p = Some x"
  by (cases p) auto

lemma ok_or_eq_Err [simp]: "ok_or p e = Err e' \<longleftrightarrow> p = None \<and> e' = e"
  by (cases p) auto

lemma ok_or_not_Panic [simp]: "ok_or p e \<noteq> Panic"
  by (cases p) auto

lemma or_panic_eq_Ok [simp]: "or_panic p = Ok x \<longleftrightarrow> p = Some x"
  by (cases p) auto

lemma or_panic_not_Err [simp]: "or_panic p \<noteq> Err e"
  by (cases p) auto

lemma or_panic_eq_Panic [simp]: "or_panic p = Panic \<longleftrightarrow> p = None"
  by (cases p) auto

lemma res_bind_assoc:
  "res_bind (res_bind m f) g = res_bind m (\<lambda>x. res_bind (f x) g)"
  by (cases m) auto

lemma res_fold_append:
  "res_fold f (xs @ ys) s = res_bind (res_fold f xs s) (res_fold f ys)"
proof (induction xs arbitrary: s)
  case (Cons x xs)
  then show ?case by (cases "f x s") simp_all
qed simp

lemma res_fold_total:
  assumes "\<And>x s. x \<in> set xs \<Longrightarrow> f x s \<noteq> Panic"
  shows "res_fold f xs s \<noteq> Panic"
  using assms by (induction xs arbitrary: s) auto

lemma res_map_err_bind:
  "res_map_err f (res_bind m g) = res_bind (res_map_err f m) (\<lambda>x. res_map_err f (g x))"
  by (cases m) auto

lemma res_map_err_fold:
  assumes "\<And>x s. res_map_err f (g x s) = h x s"
  shows "res_map_err f (res_fold g xs s) = res_fold h xs s"
  by (induction xs arbitrary: s) (simp_all add: res_map_err_bind assms)

lemma res_fold_unit: "res_fold f xs () = Ok () \<longleftrightarrow> (\<forall>x\<in>set xs. f x () = Ok ())"
  by (induction xs) auto

lemma res_fold_invariant:
  assumes "res_fold f xs s = Ok s'" and "I s"
    and "\<And>x s s'. x \<in> set xs \<Longrightarrow> I s \<Longrightarrow> f x s = Ok s' \<Longrightarrow> I s'"
  shows "I s'"
  using assms by (induction xs arbitrary: s) auto

lemma res_fold_Ok_if:
  assumes "\<And>x s. x \<in> set xs \<Longrightarrow> \<exists>s'. f x s = Ok s'"
  shows "\<exists>s'. res_fold f xs s = Ok s'"
  using assms by (induction xs arbitrary: s) (auto, metis)

lemma index_at_inside [simp]: "i < length xs \<Longrightarrow> index_at xs i = Ok (xs ! i)"
  by (simp add: index_at_def)

lemma index_at_outside [simp]: "\<not> i < length xs \<Longrightarrow> index_at xs i = Panic"
  by (simp add: index_at_def)

lemma res_mapM_eq_Ok:
  "res_mapM f xs = Ok ys \<longleftrightarrow> list_all2 (\<lambda>x y. f x = Ok y) xs ys"
  by (induction xs arbitrary: ys) (auto simp: list_all2_Cons1)

lemma res_mapM_length: "res_mapM f xs = Ok ys \<Longrightarrow> length ys = length xs"
  by (simp add: res_mapM_eq_Ok list_all2_lengthD)

section \<open>Instants\<close>

text \<open>\<open>DateTime<Utc>\<close>: nanoseconds since the epoch.\<close>

type_synonym datetime = int

section \<open>Comparison results\<close>

text \<open>\<open>core::cmp::Ordering\<close>.\<close>

datatype ordering = Less | Equal | Greater

definition cmp_of :: "'a::linorder \<Rightarrow> 'a \<Rightarrow> ordering" where
  "cmp_of a b = (if a < b then Less else if a = b then Equal else Greater)"

lemma cmp_of_eq [simp]:
  "cmp_of a b = Less \<longleftrightarrow> a < b"
  "cmp_of a b = Equal \<longleftrightarrow> a = b"
  "cmp_of a b = Greater \<longleftrightarrow> b < a"
  by (auto simp: cmp_of_def)

section \<open>Sorting\<close>

text \<open>
  \<open>slice::sort_by\<close>: the standard library's sort is stable, so on a total preorder its
  result is the one insertion sort gives.
\<close>

fun insert_by :: "('a \<Rightarrow> 'a \<Rightarrow> bool) \<Rightarrow> 'a \<Rightarrow> 'a list \<Rightarrow> 'a list" where
  "insert_by le x [] = [x]"
| "insert_by le x (y # ys) = (if le x y then x # y # ys else y # insert_by le x ys)"

definition sort_by :: "('a \<Rightarrow> 'a \<Rightarrow> bool) \<Rightarrow> 'a list \<Rightarrow> 'a list" where
  "sort_by le xs = foldr (insert_by le) xs []"

lemma mset_insert_by [simp]: "mset (insert_by le x ys) = add_mset x (mset ys)"
  by (induction ys) auto

lemma mset_sort_by [simp]: "mset (sort_by le xs) = mset xs"
  unfolding sort_by_def by (induction xs) auto

lemma set_sort_by [simp]: "set (sort_by le xs) = set xs"
  by (metis mset_sort_by set_mset_mset)

lemma length_sort_by [simp]: "length (sort_by le xs) = length xs"
  by (metis mset_sort_by size_mset)

lemma sort_by_Nil [simp]: "sort_by le xs = [] \<longleftrightarrow> xs = []"
  by (metis length_sort_by length_0_conv)

lemma sorted_insert_by:
  assumes "\<And>x y. le x y \<or> le y x" "\<And>x y z. le x y \<Longrightarrow> le y z \<Longrightarrow> le x z" "sorted_wrt le ys"
  shows "sorted_wrt le (insert_by le x ys)"
  using assms(3)
proof (induction ys)
  case (Cons y ys)
  have "set (insert_by le x ys) = insert x (set ys)"
    by (metis mset_insert_by set_mset_add_mset_insert set_mset_mset)
  with Cons assms(1) [of x y] assms(2) show ?case by auto
qed simp

lemma sorted_sort_by:
  assumes "\<And>x y. le x y \<or> le y x" "\<And>x y z. le x y \<Longrightarrow> le y z \<Longrightarrow> le x z"
  shows "sorted_wrt le (sort_by le xs)"
  unfolding sort_by_def by (induction xs) (simp_all add: sorted_insert_by assms)

section \<open>Association lists\<close>

lemma map_of_rev_distinct: "distinct (map fst kvs) \<Longrightarrow> map_of (rev kvs) k = map_of kvs k"
proof (cases "map_of kvs k")
  case None
  then show ?thesis by (metis list.set_map map_of_eq_None_iff set_rev)
next
  case (Some v)
  moreover assume "distinct (map fst kvs)"
  ultimately show ?thesis by (simp add: map_of_eq_Some_iff rev_map [symmetric])
qed

end
