(* ===== verification/Decimal.thy ===== *)
theory Decimal
  imports Complex_Main Prelude
begin

text \<open>
  The interface of \<open>rust_decimal::Decimal\<close>, a third-party type. Every definition of
  the development that computes with amounts takes the operations as an argument;
  nothing about them is assumed except through the locale \<open>decimal_laws\<close>, which
  states the documented behaviour: a \<open>Decimal\<close> is \<open>m / 10^s\<close> with a 96-bit \<open>m\<close> and
  \<open>s \<le> 28\<close>, arithmetic is exact whenever the exact result has that form, and
  rounding follows the named strategy.
\<close>

section \<open>The operations\<close>

text \<open>\<open>rust_decimal::RoundingStrategy\<close>, re-exported by \<open>falkr_core::money\<close>.\<close>

datatype rounding_strategy =
    MidpointNearestEven
  | MidpointAwayFromZero
  | MidpointTowardZero
  | ToZero
  | AwayFromZero
  | ToNegativeInfinity
  | ToPositiveInfinity

record 'd decimal_ops =
  dec_zero :: 'd
  dec_one :: 'd
  checked_add :: "'d \<Rightarrow> 'd \<Rightarrow> 'd option"
  checked_sub :: "'d \<Rightarrow> 'd \<Rightarrow> 'd option"
  checked_mul :: "'d \<Rightarrow> 'd \<Rightarrow> 'd option"
  checked_div :: "'d \<Rightarrow> 'd \<Rightarrow> 'd option"
  dec_neg :: "'d \<Rightarrow> 'd"
  dec_abs :: "'d \<Rightarrow> 'd"
  dec_cmp :: "'d \<Rightarrow> 'd \<Rightarrow> ordering"
  is_zero :: "'d \<Rightarrow> bool"
  is_sign_negative :: "'d \<Rightarrow> bool"
  round_dp_with_strategy :: "nat \<Rightarrow> rounding_strategy \<Rightarrow> 'd \<Rightarrow> 'd"
  dec_new :: "int \<Rightarrow> nat \<Rightarrow> 'd option"
  dec_from_int :: "int \<Rightarrow> 'd"
  dec_parse :: "string \<Rightarrow> 'd option"
  dec_from_str_exact :: "string \<Rightarrow> 'd option"
  dec_to_string :: "'d \<Rightarrow> string"

text \<open>The operators \<open>+\<close>, \<open>-\<close>, \<open>*\<close>, \<open>/\<close> panic where the checked form is \<open>None\<close>.\<close>

definition dec_add :: "'d decimal_ops \<Rightarrow> 'd \<Rightarrow> 'd \<Rightarrow> ('e, 'd) res" where
  "dec_add D a b = or_panic (checked_add D a b)"

definition dec_sub :: "'d decimal_ops \<Rightarrow> 'd \<Rightarrow> 'd \<Rightarrow> ('e, 'd) res" where
  "dec_sub D a b = or_panic (checked_sub D a b)"

definition dec_mul :: "'d decimal_ops \<Rightarrow> 'd \<Rightarrow> 'd \<Rightarrow> ('e, 'd) res" where
  "dec_mul D a b = or_panic (checked_mul D a b)"

definition dec_div :: "'d decimal_ops \<Rightarrow> 'd \<Rightarrow> 'd \<Rightarrow> ('e, 'd) res" where
  "dec_div D a b = or_panic (checked_div D a b)"

text \<open>\<open>PartialEq\<close>, \<open>PartialOrd\<close> and \<open>Ord::min\<close> are numeric: \<open>1.0 == 1.00\<close>.\<close>

definition dec_eq :: "'d decimal_ops \<Rightarrow> 'd \<Rightarrow> 'd \<Rightarrow> bool" where
  "dec_eq D a b \<longleftrightarrow> dec_cmp D a b = Equal"

definition dec_less :: "'d decimal_ops \<Rightarrow> 'd \<Rightarrow> 'd \<Rightarrow> bool" where
  "dec_less D a b \<longleftrightarrow> dec_cmp D a b = Less"

definition dec_le :: "'d decimal_ops \<Rightarrow> 'd \<Rightarrow> 'd \<Rightarrow> bool" where
  "dec_le D a b \<longleftrightarrow> dec_cmp D a b \<noteq> Greater"

definition dec_min :: "'d decimal_ops \<Rightarrow> 'd \<Rightarrow> 'd \<Rightarrow> 'd" where
  "dec_min D a b = (if dec_cmp D a b = Greater then b else a)"

text \<open>\<open>round_dp\<close> is banker's rounding.\<close>

definition dec_round_dp :: "'d decimal_ops \<Rightarrow> nat \<Rightarrow> 'd \<Rightarrow> 'd" where
  "dec_round_dp D dp a = round_dp_with_strategy D dp MidpointNearestEven a"

text \<open>\<open>iter().sum::<Decimal>()\<close>: \<open>+\<close> from zero, left to right.\<close>

definition dec_sum :: "'d decimal_ops \<Rightarrow> 'd list \<Rightarrow> ('e, 'd) res" where
  "dec_sum D xs = res_fold (\<lambda>x acc. dec_add D acc x) xs (dec_zero D)"

section \<open>Rounding, on the rationals\<close>

definition round_half :: "(int \<Rightarrow> int) \<Rightarrow> rat \<Rightarrow> int" where
  "round_half tie x =
     (let f = \<lfloor>x\<rfloor>; r = x - of_int f
      in if r < 1 / 2 then f else if r > 1 / 2 then f + 1 else tie f)"

fun round_int :: "rounding_strategy \<Rightarrow> rat \<Rightarrow> int" where
  "round_int MidpointNearestEven x = round_half (\<lambda>f. if even f then f else f + 1) x"
| "round_int MidpointAwayFromZero x = round_half (\<lambda>f. if x \<ge> 0 then f + 1 else f) x"
| "round_int MidpointTowardZero x = round_half (\<lambda>f. if x \<ge> 0 then f else f + 1) x"
| "round_int ToZero x = (if x \<ge> 0 then \<lfloor>x\<rfloor> else \<lceil>x\<rceil>)"
| "round_int AwayFromZero x = (if x \<ge> 0 then \<lceil>x\<rceil> else \<lfloor>x\<rfloor>)"
| "round_int ToNegativeInfinity x = \<lfloor>x\<rfloor>"
| "round_int ToPositiveInfinity x = \<lceil>x\<rceil>"

definition round_rat :: "rounding_strategy \<Rightarrow> nat \<Rightarrow> rat \<Rightarrow> rat" where
  "round_rat st dp q = of_int (round_int st (q * 10 ^ dp)) / 10 ^ dp"

lemma round_half_dist: "(\<And>f. tie f \<in> {f, f + 1}) \<Longrightarrow> \<bar>x - of_int (round_half tie x)\<bar> \<le> 1 / 2"
proof -
  assume t: "\<And>f. tie f \<in> {f, f + 1}"
  have "of_int \<lfloor>x\<rfloor> \<le> x" "x < of_int \<lfloor>x\<rfloor> + 1" by linarith+
  with t [of "\<lfloor>x\<rfloor>"] show ?thesis
    by (auto simp: round_half_def Let_def abs_le_iff)
qed

lemma round_half_int [simp]: "round_half tie (of_int m) = m"
  by (simp add: round_half_def)

lemma round_int_of_int [simp]: "round_int st (of_int m) = m"
  by (cases st) auto

text \<open>Truncation moves towards zero by less than one unit, and keeps the sign.\<close>

lemma round_rat_ToZero_bounds:
  assumes "0 \<le> q"
  shows "0 \<le> round_rat ToZero dp q" "round_rat ToZero dp q \<le> q"
    "q < round_rat ToZero dp q + 1 / 10 ^ dp"
proof -
  have p: "0 < (10::rat) ^ dp" by simp
  have x: "0 \<le> q * 10 ^ dp" using assms by simp
  then have f: "round_int ToZero (q * 10 ^ dp) = \<lfloor>q * 10 ^ dp\<rfloor>" by simp
  show "0 \<le> round_rat ToZero dp q"
    using x by (simp add: round_rat_def)
  show "round_rat ToZero dp q \<le> q"
    unfolding round_rat_def f using p by (simp add: divide_le_eq)
  have "q * 10 ^ dp < of_int \<lfloor>q * 10 ^ dp\<rfloor> + 1" by linarith
  then have "q < (of_int \<lfloor>q * 10 ^ dp\<rfloor> + 1) / 10 ^ dp"
    using p by (simp add: less_divide_eq)
  then show "q < round_rat ToZero dp q + 1 / 10 ^ dp"
    unfolding round_rat_def f by (simp add: add_divide_distrib)
qed

lemma round_rat_ToZero_neg: "round_rat ToZero dp (- q) = - round_rat ToZero dp q"
  by (auto simp: round_rat_def ceiling_minus floor_minus)

section \<open>The values a Decimal can hold\<close>

definition max_mantissa :: int where
  "max_mantissa = 2 ^ 96 - 1"

text \<open>\<open>on_grid k B q\<close>: \<open>q\<close> is a multiple of \<open>10^-k\<close> and at most \<open>B\<close> units of it.\<close>

definition on_grid :: "nat \<Rightarrow> int \<Rightarrow> rat \<Rightarrow> bool" where
  "on_grid k B q \<longleftrightarrow> (\<exists>m. q = of_int m / 10 ^ k \<and> \<bar>m\<bar> \<le> B)"

definition representable :: "rat \<Rightarrow> bool" where
  "representable q \<longleftrightarrow> (\<exists>k\<le>28. on_grid k max_mantissa q)"

lemma on_grid_zero [simp]: "0 \<le> B \<Longrightarrow> on_grid k B 0"
  unfolding on_grid_def by (rule exI [of _ 0]) simp

lemma on_grid_mono: "on_grid k B q \<Longrightarrow> B \<le> B' \<Longrightarrow> on_grid k B' q"
  unfolding on_grid_def by fastforce

lemma on_grid_add: "on_grid k B p \<Longrightarrow> on_grid k C q \<Longrightarrow> on_grid k (B + C) (p + q)"
  unfolding on_grid_def
proof (elim exE conjE)
  fix m n assume "p = of_int m / 10 ^ k" "\<bar>m\<bar> \<le> B" "q = of_int n / 10 ^ k" "\<bar>n\<bar> \<le> C"
  then show "\<exists>l. p + q = of_int l / 10 ^ k \<and> \<bar>l\<bar> \<le> B + C"
    by (intro exI [of _ "m + n"]) (simp add: add_divide_distrib)
qed

lemma on_grid_neg [simp]: "on_grid k B (- q) \<longleftrightarrow> on_grid k B q"
proof -
  have "on_grid k B q \<Longrightarrow> on_grid k B (- q)" for q
    unfolding on_grid_def by (metis abs_minus_cancel minus_divide_left of_int_minus)
  from this [of q] this [of "- q"] show ?thesis by auto
qed

lemma on_grid_diff: "on_grid k B p \<Longrightarrow> on_grid k C q \<Longrightarrow> on_grid k (B + C) (p - q)"
  using on_grid_add [of k B p C "- q"] by simp

lemma on_grid_bound:
  "on_grid k B q \<Longrightarrow> \<bar>q\<bar> * 10 ^ k \<le> of_int C \<Longrightarrow> on_grid k C q"
proof -
  assume "on_grid k B q" and c: "\<bar>q\<bar> * 10 ^ k \<le> of_int C"
  then obtain m where m: "q = of_int m / 10 ^ k" by (auto simp: on_grid_def)
  then have "\<bar>q\<bar> * 10 ^ k = of_int \<bar>m\<bar>" by (simp add: abs_divide)
  with c have "\<bar>m\<bar> \<le> C" by linarith
  with m show ?thesis by (auto simp: on_grid_def)
qed

lemma on_grid_representable: "on_grid k B q \<Longrightarrow> k \<le> 28 \<Longrightarrow> B \<le> max_mantissa \<Longrightarrow> representable q"
  unfolding representable_def using on_grid_mono by blast

text \<open>
  \<open>multiple k q\<close>: \<open>q\<close> is a multiple of \<open>10^-k\<close>. \<open>fits_gross k g\<close>: an amount of absolute
  value \<open>g\<close> is at most the largest mantissa, counted in those units. A sum of multiples
  whose absolute values add up to \<open>g\<close> is exact when \<open>fits_gross k g\<close>, whatever the order.
\<close>

definition multiple :: "nat \<Rightarrow> rat \<Rightarrow> bool" where
  "multiple k q \<longleftrightarrow> (\<exists>m::int. q = of_int m / 10 ^ k)"

definition fits_gross :: "nat \<Rightarrow> rat \<Rightarrow> bool" where
  "fits_gross k g \<longleftrightarrow> k \<le> 28 \<and> g * 10 ^ k \<le> of_int max_mantissa"

lemma multiple_zero [simp]: "multiple k 0"
  unfolding multiple_def by (rule exI [of _ 0]) simp

lemma multiple_add [simp]: "multiple k p \<Longrightarrow> multiple k q \<Longrightarrow> multiple k (p + q)"
  unfolding multiple_def by (metis add_divide_distrib of_int_add)

lemma multiple_neg [simp]: "multiple k (- q) \<longleftrightarrow> multiple k q"
  unfolding multiple_def by (metis add.inverse_inverse minus_divide_left of_int_minus)

lemma multiple_diff [simp]: "multiple k p \<Longrightarrow> multiple k q \<Longrightarrow> multiple k (p - q)"
  using multiple_add [of k p "- q"] by simp

lemma multiple_sum_list: "(\<And>x. x \<in> set xs \<Longrightarrow> multiple k (f x)) \<Longrightarrow> multiple k (\<Sum>x\<leftarrow>xs. f x)"
  by (induction xs) auto

lemma fits_gross_mono: "fits_gross k g \<Longrightarrow> h \<le> g \<Longrightarrow> fits_gross k h"
  unfolding fits_gross_def by (metis mult_right_mono order_trans zero_le_numeral zero_le_power)

lemma multiple_representable: "multiple k q \<Longrightarrow> fits_gross k \<bar>q\<bar> \<Longrightarrow> representable q"
proof -
  assume "multiple k q" and f: "fits_gross k \<bar>q\<bar>"
  then obtain m where m: "q = of_int m / 10 ^ k" by (auto simp: multiple_def)
  then have "\<bar>q\<bar> * 10 ^ k = of_int \<bar>m\<bar>" by (simp add: abs_divide)
  with f have "\<bar>m\<bar> \<le> max_mantissa" unfolding fits_gross_def by linarith
  with m f show ?thesis by (auto simp: representable_def on_grid_def fits_gross_def)
qed

section \<open>The documented laws\<close>

locale decimal_laws =
  fixes D :: "'d decimal_ops"
    and val :: "'d \<Rightarrow> rat"
  assumes val_zero [simp]: "val (dec_zero D) = 0"
    and val_one [simp]: "val (dec_one D) = 1"
    and val_neg [simp]: "val (dec_neg D a) = - val a"
    and val_abs [simp]: "val (dec_abs D a) = \<bar>val a\<bar>"
    and cmp_val [simp]: "dec_cmp D a b = cmp_of (val a) (val b)"
    and is_zero_val [simp]: "is_zero D a \<longleftrightarrow> val a = 0"
    and sign_val: "val a \<noteq> 0 \<Longrightarrow> is_sign_negative D a \<longleftrightarrow> val a < 0"
    and add_exact: "representable (val a + val b) \<Longrightarrow>
      \<exists>c. checked_add D a b = Some c \<and> val c = val a + val b"
    and sub_exact: "representable (val a - val b) \<Longrightarrow>
      \<exists>c. checked_sub D a b = Some c \<and> val c = val a - val b"
    and mul_exact: "representable (val a * val b) \<Longrightarrow>
      \<exists>c. checked_mul D a b = Some c \<and> val c = val a * val b"
    and div_exact: "val b \<noteq> 0 \<Longrightarrow> representable (val a / val b) \<Longrightarrow>
      \<exists>c. checked_div D a b = Some c \<and> val c = val a / val b"
    and div_zero: "val b = 0 \<Longrightarrow> checked_div D a b = None"
    and round_val [simp]: "val (round_dp_with_strategy D dp st a) = round_rat st dp (val a)"
    and new_val: "s \<le> 28 \<Longrightarrow> \<bar>m\<bar> < 2 ^ 63 \<Longrightarrow> \<exists>c. dec_new D m s = Some c \<and> val c = of_int m / 10 ^ s"
    and from_int_val: "\<bar>m\<bar> < 2 ^ 64 \<Longrightarrow> val (dec_from_int D m) = of_int m"
begin

lemma dec_eq_val [simp]: "dec_eq D a b \<longleftrightarrow> val a = val b"
  by (simp add: dec_eq_def)

lemma dec_less_val [simp]: "dec_less D a b \<longleftrightarrow> val a < val b"
  by (simp add: dec_less_def)

lemma dec_le_val [simp]: "dec_le D a b \<longleftrightarrow> val a \<le> val b"
  by (auto simp: dec_le_def cmp_of_def)

lemma dec_min_val [simp]: "val (dec_min D a b) = min (val a) (val b)"
  by (auto simp: dec_min_def)

text \<open>Within the mantissa the operators never panic and never round.\<close>

lemma dec_add_gross:
  assumes "multiple k (val a)" "multiple k (val b)" "fits_gross k \<bar>val a + val b\<bar>"
  obtains c where "dec_add D a b = Ok c" "val c = val a + val b"
proof -
  have "representable (val a + val b)"
    using assms by (intro multiple_representable [of k]) auto
  with add_exact that show ?thesis by (auto simp: dec_add_def)
qed

lemma dec_fold_gross:
  assumes "\<forall>x\<in>set xs. multiple k (val x)" "multiple k (val acc)"
    "fits_gross k (\<bar>val acc\<bar> + (\<Sum>x\<leftarrow>xs. \<bar>val x\<bar>))"
  shows "\<exists>c. res_fold (\<lambda>x acc. dec_add D acc x) xs acc = (Ok c :: ('e, 'd) res) \<and>
    val c = val acc + (\<Sum>x\<leftarrow>xs. val x)"
  using assms
proof (induction xs arbitrary: acc)
  case (Cons x xs)
  have n: "0 \<le> (\<Sum>x\<leftarrow>xs. \<bar>val x\<bar>)" by (rule sum_list_nonneg) auto
  have fg: "fits_gross k \<bar>val acc + val x\<bar>"
    by (rule fits_gross_mono [OF Cons.prems(3)]) (use n in auto)
  obtain c where c: "dec_add D acc x = (Ok c :: ('e, 'd) res)" "val c = val acc + val x"
    using dec_add_gross [OF Cons.prems(2) _ fg] Cons.prems(1) by (metis list.set_intros(1))
  have "fits_gross k (\<bar>val c\<bar> + (\<Sum>x\<leftarrow>xs. \<bar>val x\<bar>))"
    by (rule fits_gross_mono [OF Cons.prems(3)]) (use c in auto)
  with Cons.IH [of c] Cons.prems c show ?case by auto
qed auto

lemma dec_sum_gross:
  assumes "\<forall>x\<in>set xs. multiple k (val x)" "fits_gross k (\<Sum>x\<leftarrow>xs. \<bar>val x\<bar>)"
  shows "\<exists>c. dec_sum D xs = (Ok c :: ('e, 'd) res) \<and> val c = (\<Sum>x\<leftarrow>xs. val x)"
  using dec_fold_gross [of xs k "dec_zero D"] assms by (simp add: dec_sum_def)

text \<open>The same on a grid of bounded width.\<close>

lemma dec_add_grid:
  assumes "on_grid k B (val a)" "on_grid k C (val b)" "k \<le> 28" "B + C \<le> max_mantissa"
  obtains c where "dec_add D a b = Ok c" "val c = val a + val b" "on_grid k (B + C) (val c)"
proof -
  have g: "on_grid k (B + C) (val a + val b)" by (rule on_grid_add) fact+
  then have "representable (val a + val b)" by (rule on_grid_representable) fact+
  with add_exact obtain c where "checked_add D a b = Some c" "val c = val a + val b" by blast
  with g that show ?thesis by (simp add: dec_add_def)
qed

lemma dec_sub_grid:
  assumes "on_grid k B (val a)" "on_grid k C (val b)" "k \<le> 28" "B + C \<le> max_mantissa"
  obtains c where "dec_sub D a b = Ok c" "val c = val a - val b" "on_grid k (B + C) (val c)"
proof -
  have g: "on_grid k (B + C) (val a - val b)" by (rule on_grid_diff) fact+
  then have "representable (val a - val b)" by (rule on_grid_representable) fact+
  with sub_exact obtain c where "checked_sub D a b = Some c" "val c = val a - val b" by blast
  with g that show ?thesis by (simp add: dec_sub_def)
qed

lemma dec_sum_grid_from:
  assumes "\<forall>x\<in>set xs. on_grid k B (val x)" "on_grid k A (val acc)" "k \<le> 28" "0 \<le> B"
    "A + int (length xs) * B \<le> max_mantissa"
  shows "\<exists>c. res_fold (\<lambda>x acc. dec_add D acc x) xs acc = (Ok c :: ('e, 'd) res) \<and>
    val c = val acc + (\<Sum>x\<leftarrow>xs. val x) \<and> on_grid k (A + int (length xs) * B) (val c)"
  using assms
proof (induction xs arbitrary: acc A)
  case (Cons x xs)
  have le: "A + B \<le> max_mantissa"
    using Cons.prems(4,5) by (simp add: algebra_simps) (smt (verit) mult_nonneg_nonneg of_nat_0_le_iff)
  obtain c where c: "dec_add D acc x = (Ok c :: ('e, 'd) res)" "val c = val acc + val x"
    "on_grid k (A + B) (val c)"
    using dec_add_grid [OF Cons.prems(2) _ Cons.prems(3) le] Cons.prems(1)
    by (metis list.set_intros(1))
  have b: "A + B + int (length xs) * B \<le> max_mantissa"
    using Cons.prems(5) by (simp add: algebra_simps)
  from Cons.IH [OF _ c(3) Cons.prems(3,4) b] Cons.prems(1) c show ?case
    by (auto simp: algebra_simps)
qed auto

lemma dec_sum_grid:
  assumes "\<forall>x\<in>set xs. on_grid k B (val x)" "k \<le> 28" "0 \<le> B" "int (length xs) * B \<le> max_mantissa"
  shows "\<exists>c. dec_sum D xs = (Ok c :: ('e, 'd) res) \<and> val c = (\<Sum>x\<leftarrow>xs. val x) \<and>
    on_grid k (int (length xs) * B) (val c)"
  using dec_sum_grid_from [of xs k B 0 "dec_zero D", OF assms(1) _ assms(2,3)] assms(4)
  by (simp add: dec_sum_def)

end

end
