(* ===== verification/Rust_String.thy ===== *)
theory Rust_String
  imports Prelude "HOL-Library.Char_ord" "HOL-Library.List_Lexorder"
begin

text \<open>
  The \<open>str\<close> methods of the Rust standard library the sources use. A \<open>str\<close> is its
  UTF-8 bytes: \<open>string\<close> is a list of 8-bit characters, so \<open>length\<close> is \<open>str::len\<close>
  and the lexicographic order is \<open>Ord for str\<close>.
\<close>

section \<open>ASCII case\<close>

definition char_to_ascii_uppercase :: "char \<Rightarrow> char" where
  "char_to_ascii_uppercase c =
     (let n = of_char c :: nat in if 97 \<le> n \<and> n \<le> 122 then char_of (n - 32) else c)"

definition char_to_ascii_lowercase :: "char \<Rightarrow> char" where
  "char_to_ascii_lowercase c =
     (let n = of_char c :: nat in if 65 \<le> n \<and> n \<le> 90 then char_of (n + 32) else c)"

definition to_ascii_uppercase :: "string \<Rightarrow> string" where
  "to_ascii_uppercase s = map char_to_ascii_uppercase s"

definition to_ascii_lowercase :: "string \<Rightarrow> string" where
  "to_ascii_lowercase s = map char_to_ascii_lowercase s"

section \<open>Trimming\<close>

text \<open>The UTF-8 encodings of the characters with the Unicode property \<open>White_Space\<close>.\<close>

definition white_space :: "string list" where
  "white_space =
     [[CHR 0x20], [CHR 0x09], [CHR 0x0A], [CHR 0x0B], [CHR 0x0C], [CHR 0x0D],
      [CHR 0xC2, CHR 0x85], [CHR 0xC2, CHR 0xA0], [CHR 0xE1, CHR 0x9A, CHR 0x80],
      [CHR 0xE2, CHR 0x80, CHR 0x80], [CHR 0xE2, CHR 0x80, CHR 0x81],
      [CHR 0xE2, CHR 0x80, CHR 0x82], [CHR 0xE2, CHR 0x80, CHR 0x83],
      [CHR 0xE2, CHR 0x80, CHR 0x84], [CHR 0xE2, CHR 0x80, CHR 0x85],
      [CHR 0xE2, CHR 0x80, CHR 0x86], [CHR 0xE2, CHR 0x80, CHR 0x87],
      [CHR 0xE2, CHR 0x80, CHR 0x88], [CHR 0xE2, CHR 0x80, CHR 0x89],
      [CHR 0xE2, CHR 0x80, CHR 0x8A], [CHR 0xE2, CHR 0x80, CHR 0xA8],
      [CHR 0xE2, CHR 0x80, CHR 0xA9], [CHR 0xE2, CHR 0x80, CHR 0xAF],
      [CHR 0xE2, CHR 0x81, CHR 0x9F], [CHR 0xE3, CHR 0x80, CHR 0x80]]"

definition strips :: "string \<Rightarrow> string \<Rightarrow> bool" where
  "strips s w \<longleftrightarrow> w \<noteq> [] \<and> take (length w) s = w"

lemma find_strips_shorter:
  assumes "find (strips s) ws = Some w"
  shows "length (drop (length w) s) < length s"
proof -
  from assms have "strips s w" by (auto simp: find_Some_iff)
  then have "w \<noteq> []" "take (length w) s = w" by (auto simp: strips_def)
  then have "s \<noteq> []" by force
  with \<open>w \<noteq> []\<close> show ?thesis by simp
qed

function strip_any :: "string list \<Rightarrow> string \<Rightarrow> string" where
  "strip_any ws s =
     (case find (strips s) ws of None \<Rightarrow> s | Some w \<Rightarrow> strip_any ws (drop (length w) s))"
  by pat_completeness auto
termination
  by (relation "measure (\<lambda>(ws, s). length s)") (simp_all only: wf_measure in_measure prod.case find_strips_shorter)

declare strip_any.simps [simp del]

definition trim_start :: "string \<Rightarrow> string" where
  "trim_start s = strip_any white_space s"

definition trim_end :: "string \<Rightarrow> string" where
  "trim_end s = rev (strip_any (map rev white_space) (rev s))"

definition trim :: "string \<Rightarrow> string" where
  "trim s = trim_end (trim_start s)"

lemma strip_any_length: "length (strip_any ws s) \<le> length s"
proof (induction ws s rule: strip_any.induct)
  case (1 ws s)
  then show ?case
    by (subst strip_any.simps) (fastforce split: option.split)
qed

lemma trim_length: "length (trim s) \<le> length s"
  by (metis length_rev order_trans strip_any_length trim_def trim_end_def trim_start_def)

lemma strip_any_done: "find (strips (strip_any ws s)) ws = None"
proof (induction ws s rule: strip_any.induct)
  case (1 ws s)
  then show ?case by (cases "find (strips s) ws") (simp_all add: strip_any.simps [of ws s])
qed

lemma strip_any_fixed: "find (strips s) ws = None \<Longrightarrow> strip_any ws s = s"
  by (subst strip_any.simps) simp

lemma strip_any_suffix: "\<exists>p. s = p @ strip_any ws s"
proof (induction ws s rule: strip_any.induct)
  case (1 ws s)
  show ?case
  proof (cases "find (strips s) ws")
    case (Some w)
    with 1 obtain p where "drop (length w) s = p @ strip_any ws (drop (length w) s)" by blast
    then have "s = (take (length w) s @ p) @ strip_any ws (drop (length w) s)" by (metis append_assoc append_take_drop_id)
    moreover have "strip_any ws s = strip_any ws (drop (length w) s)" using Some by (simp add: strip_any.simps [of ws s])
    ultimately show ?thesis by metis
  qed (simp add: strip_any.simps [of ws s])
qed

lemma strips_append: "strips x w \<Longrightarrow> strips (x @ y) w"
proof -
  assume "strips x w"
  then have w: "w \<noteq> []" "take (length w) x = w" by (auto simp: strips_def)
  then have "length w \<le> length x" by (metis length_take min.cobounded1)
  with w show ?thesis by (simp add: strips_def)
qed

lemma trim_idem [simp]: "trim (trim s) = trim s"
proof -
  let ?x = "trim_start s"
  obtain p where p: "rev ?x = p @ strip_any (map rev white_space) (rev ?x)" using strip_any_suffix by blast
  have x: "?x = trim s @ rev p" using arg_cong [OF p, of rev] by (simp add: trim_def trim_end_def)
  have "find (strips ?x) white_space = None" unfolding trim_start_def by (rule strip_any_done)
  then have "find (strips (trim s)) white_space = None" unfolding x by (auto simp: find_None_iff dest: strips_append)
  then have "trim_start (trim s) = trim s" unfolding trim_start_def by (rule strip_any_fixed)
  moreover have "trim_end (trim s) = trim s"
    unfolding trim_def trim_end_def by (simp add: strip_any_fixed strip_any_done)
  ultimately show ?thesis unfolding trim_def [of "trim s"] by simp
qed

section \<open>Splitting\<close>

text \<open>\<open>str::split_once\<close> at a one-byte separator.\<close>

fun split_once :: "char \<Rightarrow> string \<Rightarrow> (string \<times> string) option" where
  "split_once sep [] = None"
| "split_once sep (c # cs) =
     (if c = sep then Some ([], cs)
      else map_option (\<lambda>(l, r). (c # l, r)) (split_once sep cs))"

definition strip_prefix :: "string \<Rightarrow> string \<Rightarrow> string option" where
  "strip_prefix p s = (if take (length p) s = p then Some (drop (length p) s) else None)"

definition starts_with :: "string \<Rightarrow> string \<Rightarrow> bool" where
  "starts_with s p \<longleftrightarrow> take (length p) s = p"

lemma split_once_Some:
  "split_once sep s = Some (l, r) \<Longrightarrow> s = l @ sep # r \<and> sep \<notin> set l"
  by (induction s arbitrary: l) (auto split: if_splits)

lemma split_once_None: "split_once sep s = None \<longleftrightarrow> sep \<notin> set s"
  by (induction s) auto

lemma split_once_append:
  "sep \<notin> set l \<Longrightarrow> split_once sep (l @ sep # r) = Some (l, r)"
  by (induction l) auto

lemma strip_prefix_append [simp]: "strip_prefix p (p @ r) = Some r"
  by (simp add: strip_prefix_def)

lemma strip_prefix_Some [simp]: "strip_prefix p s = Some r \<longleftrightarrow> s = p @ r"
  by (auto simp: strip_prefix_def) (metis append_take_drop_id)

section \<open>Decimal digits\<close>

definition digit :: "nat \<Rightarrow> char" where
  "digit n = char_of (48 + n)"

fun show_nat :: "nat \<Rightarrow> string" where
  "show_nat n = (if n < 10 then [digit n] else show_nat (n div 10) @ [digit (n mod 10)])"

declare show_nat.simps [simp del]

fun read_digits :: "string \<Rightarrow> int \<Rightarrow> int option" where
  "read_digits [] acc = Some acc"
| "read_digits (c # cs) acc =
     (let n = of_char c :: nat in
      if 48 \<le> n \<and> n \<le> 57 then read_digits cs (10 * acc + int (n - 48)) else None)"

text \<open>\<open>u8::from_str\<close> and \<open>u16::from_str\<close>: digits after an optional plus sign, within range.\<close>

definition parse_unsigned :: "int \<Rightarrow> string \<Rightarrow> nat option" where
  "parse_unsigned limit s =
     (let ds = (case s of [] \<Rightarrow> [] | c # cs \<Rightarrow> if c = CHR ''+'' then cs else s) in
      if ds = [] then None
      else (case read_digits ds 0 of None \<Rightarrow> None | Some n \<Rightarrow> if n \<le> limit then Some (nat n) else None))"

definition parse_u8 :: "string \<Rightarrow> nat option" where
  "parse_u8 s = parse_unsigned 255 s"

definition parse_u16 :: "string \<Rightarrow> nat option" where
  "parse_u16 s = parse_unsigned 65535 s"

text \<open>Zero padding to a width, as \<open>{:02}\<close> does.\<close>

definition show_padded :: "nat \<Rightarrow> nat \<Rightarrow> string" where
  "show_padded w n = (let ds = show_nat n in replicate (w - length ds) (CHR ''0'') @ ds)"

end
