(* ===== verification/Dimensions.thy ===== *)
theory Dimensions
  imports Rust_String "HOL-Library.Word"
begin

text \<open>
  \<open>crates/core/src/ids.rs\<close> and \<open>crates/core/src/dimensions.rs\<close>: the identifier
  newtypes, the function code, the capitalization status and the dimensional spine.
  A fresh identifier (\<open>Uuid::now_v7\<close>) is an argument of the operation that asks
  for one.
\<close>

section \<open>Identifiers\<close>

text \<open>A \<open>Uuid\<close> is 16 bytes, ordered as a big-endian number.\<close>

type_synonym uuid = "128 word"

datatype TenantId = TenantId (tenant_as_uuid: uuid)
datatype ProjectId = ProjectId (project_as_uuid: uuid)
datatype RunId = RunId (run_as_uuid: uuid)
datatype TeamId = TeamId (team_as_uuid: uuid)
datatype CustomerId = CustomerId (customer_as_uuid: uuid)
datatype ModelId = ModelId (model_as_uuid: uuid)
datatype DatasetId = DatasetId (dataset_as_uuid: uuid)
datatype ProviderId = ProviderId (provider_as_uuid: uuid)
datatype CommitmentId = CommitmentId (commitment_as_uuid: uuid)
datatype CostEventId = CostEventId (cost_event_as_uuid: uuid)
datatype ExperimentId = ExperimentId (experiment_as_uuid: uuid)
datatype EntryId = EntryId (entry_as_uuid: uuid)
datatype AccountId = AccountId (account_as_uuid: uuid)
datatype PolicyId = PolicyId (policy_as_uuid: uuid)
datatype UsageEventId = UsageEventId (usage_event_as_uuid: uuid)
datatype JobId = JobId (job_as_uuid: uuid)
datatype CheckpointId = CheckpointId (checkpoint_as_uuid: uuid)
datatype ModelVersionId = ModelVersionId (model_version_as_uuid: uuid)
datatype DatasetVersionId = DatasetVersionId (dataset_version_as_uuid: uuid)
datatype LicenseId = LicenseId (license_as_uuid: uuid)

text \<open>The derived \<open>Ord\<close> of the identifiers that key a \<open>BTreeMap\<close> or \<open>BTreeSet\<close>.\<close>

instantiation AccountId :: linorder
begin
definition less_eq_AccountId :: "AccountId \<Rightarrow> AccountId \<Rightarrow> bool" where
  "less_eq_AccountId a b \<longleftrightarrow> account_as_uuid a \<le> account_as_uuid b"
definition less_AccountId :: "AccountId \<Rightarrow> AccountId \<Rightarrow> bool" where
  "less_AccountId a b \<longleftrightarrow> account_as_uuid a < account_as_uuid b"
instance
  by standard (auto simp: less_eq_AccountId_def less_AccountId_def intro: AccountId.expand)
end

instantiation EntryId :: linorder
begin
definition less_eq_EntryId :: "EntryId \<Rightarrow> EntryId \<Rightarrow> bool" where
  "less_eq_EntryId a b \<longleftrightarrow> entry_as_uuid a \<le> entry_as_uuid b"
definition less_EntryId :: "EntryId \<Rightarrow> EntryId \<Rightarrow> bool" where
  "less_EntryId a b \<longleftrightarrow> entry_as_uuid a < entry_as_uuid b"
instance
  by standard (auto simp: less_eq_EntryId_def less_EntryId_def intro: EntryId.expand)
end

instantiation RunId :: linorder
begin
definition less_eq_RunId :: "RunId \<Rightarrow> RunId \<Rightarrow> bool" where
  "less_eq_RunId a b \<longleftrightarrow> run_as_uuid a \<le> run_as_uuid b"
definition less_RunId :: "RunId \<Rightarrow> RunId \<Rightarrow> bool" where
  "less_RunId a b \<longleftrightarrow> run_as_uuid a < run_as_uuid b"
instance
  by standard (auto simp: less_eq_RunId_def less_RunId_def intro: RunId.expand)
end

lemmas id_order_defs = less_eq_AccountId_def less_AccountId_def less_eq_EntryId_def
  less_EntryId_def less_eq_RunId_def less_RunId_def

section \<open>Function code\<close>

datatype FunctionCode = Cogs | RnD | OpEx

fun function_code_as_str :: "FunctionCode \<Rightarrow> string" where
  "function_code_as_str Cogs = ''COGS''"
| "function_code_as_str RnD = ''RND''"
| "function_code_as_str OpEx = ''OPEX''"

definition function_code_from_stored :: "string \<Rightarrow> FunctionCode option" where
  "function_code_from_stored s = (let k = to_ascii_uppercase (trim s) in
     if k = ''COGS'' then Some Cogs
     else if k = ''RND'' then Some RnD
     else if k = ''OPEX'' then Some OpEx
     else None)"

section \<open>Capitalization status\<close>

datatype CapitalizationStatus = Expensed | Capitalized | PendingReview

fun capitalization_as_str :: "CapitalizationStatus \<Rightarrow> string" where
  "capitalization_as_str Expensed = ''EXPENSED''"
| "capitalization_as_str Capitalized = ''CAPITALIZED''"
| "capitalization_as_str PendingReview = ''PENDING_REVIEW''"

definition capitalization_from_stored :: "string \<Rightarrow> CapitalizationStatus option" where
  "capitalization_from_stored s = (let k = to_ascii_uppercase (trim s) in
     if k = ''EXPENSED'' then Some Expensed
     else if k = ''CAPITALIZED'' then Some Capitalized
     else if k = ''PENDING_REVIEW'' then Some PendingReview
     else None)"

section \<open>The dimensional spine\<close>

record dimensions =
  tenant_id :: TenantId
  project_id :: ProjectId
  run_id :: "RunId option"
  team_id :: TeamId
  customer_id :: "CustomerId option"
  model_id :: "ModelId option"
  dataset_id :: "DatasetId option"
  provider_id :: ProviderId
  function_code :: FunctionCode
  commitment_id :: "CommitmentId option"

definition dimensions_new ::
  "TenantId \<Rightarrow> ProjectId \<Rightarrow> TeamId \<Rightarrow> ProviderId \<Rightarrow> FunctionCode \<Rightarrow> dimensions" where
  "dimensions_new tenant project team provider fc =
     \<lparr>tenant_id = tenant, project_id = project, run_id = None, team_id = team,
      customer_id = None, model_id = None, dataset_id = None, provider_id = provider,
      function_code = fc, commitment_id = None\<rparr>"

definition with_run :: "RunId \<Rightarrow> dimensions \<Rightarrow> dimensions" where
  "with_run r d = d\<lparr>run_id := Some r\<rparr>"

definition with_customer :: "CustomerId \<Rightarrow> dimensions \<Rightarrow> dimensions" where
  "with_customer c d = d\<lparr>customer_id := Some c\<rparr>"

definition with_model :: "ModelId \<Rightarrow> dimensions \<Rightarrow> dimensions" where
  "with_model m d = d\<lparr>model_id := Some m\<rparr>"

definition with_dataset :: "DatasetId \<Rightarrow> dimensions \<Rightarrow> dimensions" where
  "with_dataset x d = d\<lparr>dataset_id := Some x\<rparr>"

definition with_commitment :: "CommitmentId \<Rightarrow> dimensions \<Rightarrow> dimensions" where
  "with_commitment c d = d\<lparr>commitment_id := Some c\<rparr>"

definition is_run_attributed :: "dimensions \<Rightarrow> bool" where
  "is_run_attributed d \<longleftrightarrow> run_id d \<noteq> None"

lemmas dimensions_builders = dimensions_new_def with_run_def with_customer_def with_model_def
  with_dataset_def with_commitment_def is_run_attributed_def

section \<open>Stored names\<close>

text \<open>
  Every stored enumeration of the program is written by an \<open>as_str\<close> and read back by
  a \<open>from_stored\<close> that trims and folds ASCII case. What a reader accepts is the
  same fact for each of them, so it is stated once, against the contract of such a
  codec, and each enumeration provides the contract.
\<close>

locale stored_name =
  fixes as_str :: "'a \<Rightarrow> string"
    and from_stored :: "string \<Rightarrow> 'a option"
    and fold_case :: "string \<Rightarrow> string"
  assumes reads: "from_stored s = Some x \<longleftrightarrow> fold_case (trim s) = as_str x"
    and canonical: "fold_case (trim (as_str x)) = as_str x"
begin

lemma round_trip: "from_stored (as_str x) = Some x"
  by (simp add: reads canonical)

lemma as_str_inj: "as_str x = as_str y \<longleftrightarrow> x = y"
  by (metis option.inject round_trip)

lemma unknown: "from_stored s = None \<longleftrightarrow> fold_case (trim s) \<notin> range as_str"
  by (metis not_None_eq option.discI rangeE rangeI reads)

lemma fold_stable: "fold_case (trim s) = fold_case (trim t) \<Longrightarrow> from_stored s = from_stored t"
  by (metis not_None_eq reads)

end

interpretation fcode: stored_name function_code_as_str function_code_from_stored to_ascii_uppercase
proof
  show "function_code_from_stored s = Some x \<longleftrightarrow> to_ascii_uppercase (trim s) = function_code_as_str x" for s x
    by (cases x) (auto simp: function_code_from_stored_def Let_def)
  show "to_ascii_uppercase (trim (function_code_as_str x)) = function_code_as_str x" for x
    by (induction x; code_simp)
qed

interpretation capst: stored_name capitalization_as_str capitalization_from_stored to_ascii_uppercase
proof
  show "capitalization_from_stored s = Some x \<longleftrightarrow> to_ascii_uppercase (trim s) = capitalization_as_str x" for s x
    by (cases x) (auto simp: capitalization_from_stored_def Let_def)
  show "to_ascii_uppercase (trim (capitalization_as_str x)) = capitalization_as_str x" for x
    by (induction x; code_simp)
qed

end
