(* ===== verification/Money.thy ===== *)
theory Money
  imports Decimal Dimensions
begin

text \<open>
  \<open>crates/core/src/money.rs\<close>: currencies, and amounts that only combine within a
  currency. \<open>checked_add\<close> and \<open>checked_sub\<close> of \<open>Money\<close> use the \<open>Decimal\<close> operators,
  which panic on overflow, so they have all three outcomes.
\<close>

section \<open>Currencies\<close>

datatype Currency = Usd | Eur | Gbp | Chf | Jpy | Cad | Aud | Sek | Nok | Dkk | Sgd | Inr

fun currency_code :: "Currency \<Rightarrow> string" where
  "currency_code Usd = ''USD''"
| "currency_code Eur = ''EUR''"
| "currency_code Gbp = ''GBP''"
| "currency_code Chf = ''CHF''"
| "currency_code Jpy = ''JPY''"
| "currency_code Cad = ''CAD''"
| "currency_code Aud = ''AUD''"
| "currency_code Sek = ''SEK''"
| "currency_code Nok = ''NOK''"
| "currency_code Dkk = ''DKK''"
| "currency_code Sgd = ''SGD''"
| "currency_code Inr = ''INR''"

definition currency_from_code :: "string \<Rightarrow> Currency option" where
  "currency_from_code s = (let k = to_ascii_uppercase (trim s) in
     if k = ''USD'' then Some Usd
     else if k = ''EUR'' then Some Eur
     else if k = ''GBP'' then Some Gbp
     else if k = ''CHF'' then Some Chf
     else if k = ''JPY'' then Some Jpy
     else if k = ''CAD'' then Some Cad
     else if k = ''AUD'' then Some Aud
     else if k = ''SEK'' then Some Sek
     else if k = ''NOK'' then Some Nok
     else if k = ''DKK'' then Some Dkk
     else if k = ''SGD'' then Some Sgd
     else if k = ''INR'' then Some Inr
     else None)"

fun minor_units :: "Currency \<Rightarrow> nat" where
  "minor_units Jpy = 0"
| "minor_units _ = 2"

interpretation ccode: stored_name currency_code currency_from_code to_ascii_uppercase
proof
  show "currency_from_code s = Some x \<longleftrightarrow> to_ascii_uppercase (trim s) = currency_code x" for s x
    by (cases x) (auto simp: currency_from_code_def Let_def)
  show "to_ascii_uppercase (trim (currency_code x)) = currency_code x" for x
    by (induction x; code_simp)
qed

section \<open>Amounts\<close>

datatype currency_mismatch = CurrencyMismatch (lhs: Currency) (rhs: Currency)

record 'd money =
  amount :: 'd
  currency :: Currency

definition money_new :: "'d \<Rightarrow> Currency \<Rightarrow> 'd money" where
  "money_new a c = \<lparr>amount = a, currency = c\<rparr>"

definition money_zero :: "'d decimal_ops \<Rightarrow> Currency \<Rightarrow> 'd money" where
  "money_zero D c = \<lparr>amount = dec_zero D, currency = c\<rparr>"

definition money_is_zero :: "'d decimal_ops \<Rightarrow> 'd money \<Rightarrow> bool" where
  "money_is_zero D m \<longleftrightarrow> is_zero D (amount m)"

definition money_is_negative :: "'d decimal_ops \<Rightarrow> 'd money \<Rightarrow> bool" where
  "money_is_negative D m \<longleftrightarrow> is_sign_negative D (amount m) \<and> \<not> is_zero D (amount m)"

text \<open>The derived \<open>PartialEq\<close>.\<close>

definition money_eq :: "'d decimal_ops \<Rightarrow> 'd money \<Rightarrow> 'd money \<Rightarrow> bool" where
  "money_eq D a b \<longleftrightarrow> dec_eq D (amount a) (amount b) \<and> currency a = currency b"

definition same_currency :: "'d money \<Rightarrow> 'd money \<Rightarrow> (currency_mismatch, unit) res" where
  "same_currency a b =
     (if currency a = currency b then Ok () else Err (CurrencyMismatch (currency a) (currency b)))"

definition money_add :: "'d decimal_ops \<Rightarrow> 'd money \<Rightarrow> 'd money \<Rightarrow> (currency_mismatch, 'd money) res" where
  "money_add D a b =
     res_bind (same_currency a b) (\<lambda>_.
     res_bind (dec_add D (amount a) (amount b)) (\<lambda>s.
     Ok (money_new s (currency a))))"

definition money_sub :: "'d decimal_ops \<Rightarrow> 'd money \<Rightarrow> 'd money \<Rightarrow> (currency_mismatch, 'd money) res" where
  "money_sub D a b =
     res_bind (same_currency a b) (\<lambda>_.
     res_bind (dec_sub D (amount a) (amount b)) (\<lambda>s.
     Ok (money_new s (currency a))))"

definition money_cmp :: "'d decimal_ops \<Rightarrow> 'd money \<Rightarrow> 'd money \<Rightarrow> (currency_mismatch, ordering) res" where
  "money_cmp D a b =
     res_bind (same_currency a b) (\<lambda>_. Ok (dec_cmp D (amount a) (amount b)))"

definition money_min :: "'d decimal_ops \<Rightarrow> 'd money \<Rightarrow> 'd money \<Rightarrow> (currency_mismatch, 'd money) res" where
  "money_min D a b =
     res_bind (money_cmp D a b) (\<lambda>c. Ok (if c = Greater then b else a))"

definition money_max :: "'d decimal_ops \<Rightarrow> 'd money \<Rightarrow> 'd money \<Rightarrow> (currency_mismatch, 'd money) res" where
  "money_max D a b =
     res_bind (money_cmp D a b) (\<lambda>c. Ok (if c = Less then b else a))"

definition money_scale :: "'d decimal_ops \<Rightarrow> 'd money \<Rightarrow> 'd \<Rightarrow> ('e, 'd money) res" where
  "money_scale D m factor =
     res_bind (dec_mul D (amount m) factor) (\<lambda>a. Ok (money_new a (currency m)))"

definition money_negate :: "'d decimal_ops \<Rightarrow> 'd money \<Rightarrow> 'd money" where
  "money_negate D m = money_new (dec_neg D (amount m)) (currency m)"

definition money_round_dp :: "'d decimal_ops \<Rightarrow> nat \<Rightarrow> 'd money \<Rightarrow> 'd money" where
  "money_round_dp D dp m = money_new (dec_round_dp D dp (amount m)) (currency m)"

definition money_round_dp_with ::
  "'d decimal_ops \<Rightarrow> nat \<Rightarrow> rounding_strategy \<Rightarrow> 'd money \<Rightarrow> 'd money" where
  "money_round_dp_with D dp strategy m =
     money_new (round_dp_with_strategy D dp strategy (amount m)) (currency m)"

definition round_to_minor_units :: "'d decimal_ops \<Rightarrow> 'd money \<Rightarrow> 'd money" where
  "round_to_minor_units D m = money_round_dp D (minor_units (currency m)) m"

definition try_sum :: "'d decimal_ops \<Rightarrow> 'd money list \<Rightarrow> Currency \<Rightarrow> (currency_mismatch, 'd money) res" where
  "try_sum D items c = res_fold (\<lambda>item acc. money_add D acc item) items (money_zero D c)"

text \<open>\<open>PartialOrd\<close>: no answer across currencies.\<close>

definition money_partial_cmp :: "'d decimal_ops \<Rightarrow> 'd money \<Rightarrow> 'd money \<Rightarrow> ordering option" where
  "money_partial_cmp D a b =
     (if currency a = currency b then Some (dec_cmp D (amount a) (amount b)) else None)"

definition money_to_string :: "'d decimal_ops \<Rightarrow> 'd money \<Rightarrow> string" where
  "money_to_string D m = dec_to_string D (amount m) @ '' '' @ currency_code (currency m)"

section \<open>Basic facts\<close>

lemma money_sel [simp]:
  "amount (money_new a c) = a" "currency (money_new a c) = c"
  "amount (money_zero D c) = dec_zero D" "currency (money_zero D c) = c"
  "amount (money_negate D m) = dec_neg D (amount m)" "currency (money_negate D m) = currency m"
  by (simp_all add: money_new_def money_zero_def money_negate_def)

lemma same_currency_simps [simp]:
  "same_currency a b = Ok u \<longleftrightarrow> currency a = currency b"
  "same_currency a b = Err e \<longleftrightarrow>
     currency a \<noteq> currency b \<and> e = CurrencyMismatch (currency a) (currency b)"
  "same_currency a b \<noteq> Panic"
  by (auto simp: same_currency_def)

lemma money_add_mismatch:
  "money_add D a b = Err e \<longleftrightarrow>
    currency a \<noteq> currency b \<and> e = CurrencyMismatch (currency a) (currency b)"
  by (auto simp: money_add_def dec_add_def)

lemma money_add_currency: "money_add D a b = Ok c \<Longrightarrow> currency a = currency b \<and> currency c = currency a"
  by (auto simp: money_add_def)

lemma money_add_same:
  "currency a = currency b \<Longrightarrow>
   money_add D a b = res_bind (dec_add D (amount a) (amount b)) (\<lambda>s. Ok (money_new s (currency a)))"
  by (simp add: money_add_def same_currency_def)

lemma try_sum_currency: "try_sum D ms c = Ok t \<Longrightarrow> currency t = c \<and> (\<forall>m\<in>set ms. currency m = c)"
proof -
  have "res_fold (\<lambda>item acc. money_add D acc item) ms a = Ok t \<Longrightarrow>
      currency t = currency a \<and> (\<forall>m\<in>set ms. currency m = currency a)" for a
    by (induction ms arbitrary: a) (auto dest!: money_add_currency)
  from this [of "money_zero D c"] show "try_sum D ms c = Ok t \<Longrightarrow> ?thesis"
    by (simp add: try_sum_def)
qed

text \<open>Within a currency, and on a grid that fits, \<open>Money\<close> addition is exact.\<close>

context decimal_laws
begin

lemma money_add_grid:
  assumes "currency a = currency b" "on_grid k B (val (amount a))" "on_grid k C (val (amount b))"
    "k \<le> 28" "B + C \<le> max_mantissa"
  obtains c where "money_add D a b = Ok c" "val (amount c) = val (amount a) + val (amount b)"
    "currency c = currency a" "on_grid k (B + C) (val (amount c))"
proof -
  obtain s where "dec_add D (amount a) (amount b) = (Ok s :: (currency_mismatch, 'd) res)"
    "val s = val (amount a) + val (amount b)" "on_grid k (B + C) (val s)"
    using dec_add_grid [OF assms(2-5)] by blast
  with assms(1) that show ?thesis by (simp add: money_add_same)
qed

lemma money_eq_val [simp]: "money_eq D a b \<longleftrightarrow> val (amount a) = val (amount b) \<and> currency a = currency b"
  by (simp add: money_eq_def)

end

end
