(* ===== verification/BTree.thy ===== *)
theory BTree
  imports Prelude
begin

text \<open>
  \<open>std::collections::BTreeMap\<close> and \<open>BTreeSet\<close>: maps that iterate in key order. The
  model is the list of entries in ascending key order, so iteration order, which
  the sources rely on, is part of the model. The locale states what a client may
  assume of an ordered map; its client lemma about sums over the entries is what
  the ledger's trial balance rests on.
\<close>

section \<open>The operations\<close>

type_synonym ('k, 'v) btree = "('k \<times> 'v) list"

fun bt_get :: "('k, 'v) btree \<Rightarrow> 'k \<Rightarrow> 'v option" where
  "bt_get [] k = None"
| "bt_get ((k', v) # m) k = (if k = k' then Some v else bt_get m k)"

text \<open>\<open>insert\<close>: overwrites the value of a key that is present.\<close>

fun bt_insert :: "'k::linorder \<Rightarrow> 'v \<Rightarrow> ('k, 'v) btree \<Rightarrow> ('k, 'v) btree" where
  "bt_insert k v [] = [(k, v)]"
| "bt_insert k v ((k', v') # m) =
     (if k' < k then (k', v') # bt_insert k v m
      else if k = k' then (k, v) # m
      else (k, v) # (k', v') # m)"

definition bt_contains :: "('k, 'v) btree \<Rightarrow> 'k \<Rightarrow> bool" where
  "bt_contains m k \<longleftrightarrow> bt_get m k \<noteq> None"

definition bt_keys :: "('k, 'v) btree \<Rightarrow> 'k list" where
  "bt_keys m = map fst m"

definition bt_values :: "('k, 'v) btree \<Rightarrow> 'v list" where
  "bt_values m = map snd m"

definition bt_wf :: "('k::linorder, 'v) btree \<Rightarrow> bool" where
  "bt_wf m \<longleftrightarrow> sorted_wrt (<) (map fst m)"

text \<open>\<open>collect::<BTreeMap<_, _>>()\<close>: later pairs overwrite earlier ones.\<close>

definition bt_of_list :: "('k::linorder \<times> 'v) list \<Rightarrow> ('k, 'v) btree" where
  "bt_of_list kvs = fold (\<lambda>(k, v) m. bt_insert k v m) kvs []"

section \<open>The contract of an ordered map\<close>

locale ordered_map =
  fixes empty :: 'm
    and get :: "'m \<Rightarrow> 'k::linorder \<Rightarrow> 'v option"
    and ins :: "'k \<Rightarrow> 'v \<Rightarrow> 'm \<Rightarrow> 'm"
    and entries :: "'m \<Rightarrow> ('k \<times> 'v) list"
    and invar :: "'m \<Rightarrow> bool"
  assumes invar_empty: "invar empty"
    and invar_ins: "invar m \<Longrightarrow> invar (ins k v m)"
    and get_empty: "get empty k = None"
    and get_ins: "invar m \<Longrightarrow> get (ins k v m) = (get m)(k \<mapsto> v)"
    and entries_get: "invar m \<Longrightarrow> map_of (entries m) = get m"
    and entries_sorted: "invar m \<Longrightarrow> sorted_wrt (<) (map fst (entries m))"
begin

lemma distinct_keys: "invar m \<Longrightarrow> distinct (map fst (entries m))"
  using entries_sorted by (metis strict_sorted_iff)

lemma entries_iff: "invar m \<Longrightarrow> (k, v) \<in> set (entries m) \<longleftrightarrow> get m k = Some v"
  using distinct_keys entries_get by (metis map_of_eq_Some_iff)

lemma keys_eq_dom: "invar m \<Longrightarrow> fst ` set (entries m) = dom (get m)"
  using entries_get by (metis dom_map_of_conv_image_fst)

lemma finite_dom: "invar m \<Longrightarrow> finite (dom (get m))"
  by (metis keys_eq_dom List.finite_set finite_imageI)

text \<open>A sum over the entries is a sum over the keys.\<close>

lemma sum_entries:
  fixes f :: "'k \<Rightarrow> 'v \<Rightarrow> 'c::comm_monoid_add"
  assumes "invar m"
  shows "(\<Sum>(k, v)\<leftarrow>entries m. f k v) = (\<Sum>k\<in>dom (get m). f k (the (get m k)))"
proof -
  have d: "distinct (entries m)"
    using distinct_keys [OF assms] by (simp add: distinct_map)
  have "(\<Sum>(k, v)\<leftarrow>entries m. f k v) = (\<Sum>e\<in>set (entries m). f (fst e) (snd e))"
    by (simp add: sum_list_distinct_conv_sum_set [OF d] case_prod_unfold)
  also have "\<dots> = (\<Sum>e\<in>set (entries m). f (fst e) (the (get m (fst e))))"
    by (rule sum.cong) (auto simp: entries_iff [OF assms])
  also have "\<dots> = (\<Sum>k\<in>fst ` set (entries m). f k (the (get m k)))"
    using distinct_keys [OF assms] by (subst sum.reindex) (auto simp: distinct_map)
  finally show ?thesis by (simp add: keys_eq_dom [OF assms])
qed

text \<open>What one insertion does to such a sum: the old entry leaves, the new one enters.\<close>

lemma sum_entries_ins:
  fixes f :: "'k \<Rightarrow> 'v \<Rightarrow> 'c::ab_group_add"
  assumes "invar m"
  shows "(\<Sum>(k', u)\<leftarrow>entries (ins k v m). f k' u) =
    (\<Sum>(k', u)\<leftarrow>entries m. f k' u) - (case get m k of None \<Rightarrow> 0 | Some u \<Rightarrow> f k u) + f k v"
proof -
  let ?g = "\<lambda>k'. f k' (the (get m k'))"
  have dom: "dom (get (ins k v m)) = insert k (dom (get m) - {k})"
    by (auto simp: get_ins [OF assms])
  have "(\<Sum>(k', u)\<leftarrow>entries (ins k v m). f k' u) =
      (\<Sum>k'\<in>insert k (dom (get m) - {k}). f k' (the (get (ins k v m) k')))"
    by (simp add: sum_entries invar_ins assms dom)
  also have "\<dots> = f k v + (\<Sum>k'\<in>dom (get m) - {k}. ?g k')"
    using finite_dom [OF assms]
    by (subst sum.insert) (auto simp: get_ins [OF assms] intro!: sum.cong)
  also have "(\<Sum>k'\<in>dom (get m) - {k}. ?g k') =
      (\<Sum>k'\<in>dom (get m). ?g k') - (case get m k of None \<Rightarrow> 0 | Some u \<Rightarrow> f k u)"
    using finite_dom [OF assms] by (auto simp: sum_diff1 split: option.splits)
  finally show ?thesis by (simp add: sum_entries assms)
qed

end

section \<open>The model provides the contract\<close>

lemma bt_get_map_of: "bt_get m = map_of m"
proof
  show "bt_get m k = map_of m k" for k by (induction m k rule: bt_get.induct) auto
qed

lemma bt_wf_Nil [simp]: "bt_wf []"
  by (simp add: bt_wf_def)

lemma bt_keys_insert: "fst ` set (bt_insert k v m) = insert k (fst ` set m)"
  by (induction k v m rule: bt_insert.induct) (simp_all add: insert_commute)

lemma bt_wf_insert [simp]: "bt_wf m \<Longrightarrow> bt_wf (bt_insert k v m)"
  unfolding bt_wf_def
proof (induction m)
  case (Cons e m)
  obtain k' v' where e: "e = (k', v')" by (cases e)
  from Cons.prems e have "\<forall>x\<in>fst ` set m. k' < x" by auto
  with Cons e show ?case
    by (auto simp: bt_keys_insert)
qed simp

lemma bt_get_insert: "bt_wf m \<Longrightarrow> bt_get (bt_insert k v m) = (bt_get m)(k \<mapsto> v)"
proof (induction m)
  case (Cons e m)
  obtain k' v' where e: "e = (k', v')" by (cases e)
  from Cons.prems have "bt_wf m" by (simp add: bt_wf_def)
  with Cons.IH e show ?case by (auto simp: fun_eq_iff)
qed auto

interpretation btm: ordered_map "[]" bt_get bt_insert "\<lambda>m. m" bt_wf
  by unfold_locales (auto simp: bt_get_map_of [symmetric] bt_get_insert bt_wf_def [symmetric])

lemma bt_get_insert_simp [simp]:
  "bt_wf m \<Longrightarrow> bt_get (bt_insert k v m) k' = (if k' = k then Some v else bt_get m k')"
  by (simp add: bt_get_insert)

lemma bt_contains_insert [simp]:
  "bt_wf m \<Longrightarrow> bt_contains (bt_insert k v m) k' \<longleftrightarrow> k' = k \<or> bt_contains m k'"
  by (auto simp: bt_contains_def)

section \<open>Ordered sets\<close>

text \<open>A \<open>BTreeSet<K>\<close> is a \<open>BTreeMap<K, ()>\<close>.\<close>

type_synonym 'k btset = "('k, unit) btree"

definition bs_insert :: "'k::linorder \<Rightarrow> 'k btset \<Rightarrow> 'k btset" where
  "bs_insert k s = bt_insert k () s"

definition bs_contains :: "'k btset \<Rightarrow> 'k \<Rightarrow> bool" where
  "bs_contains s k = bt_contains s k"

lemma bs_wf_insert [simp]: "bt_wf s \<Longrightarrow> bt_wf (bs_insert k s)"
  by (simp add: bs_insert_def)

lemma bs_contains_insert [simp]:
  "bt_wf s \<Longrightarrow> bs_contains (bs_insert k s) k' \<longleftrightarrow> k' = k \<or> bs_contains s k'"
  by (simp add: bs_insert_def bs_contains_def)

lemma bs_contains_Nil [simp]: "\<not> bs_contains [] k"
  by (simp add: bs_contains_def bt_contains_def)

definition bs_of_list :: "'k::linorder list \<Rightarrow> 'k btset" where
  "bs_of_list ks = fold bs_insert ks []"

lemma bs_of_list_keys [simp]: "set (bt_keys (bs_of_list ks)) = set ks"
proof -
  have "fst ` set (fold bs_insert ks m) = set ks \<union> fst ` set m" for m
    by (induction ks arbitrary: m) (auto simp: bs_insert_def bt_keys_insert)
  from this [of "[]"] show ?thesis by (simp add: bs_of_list_def bt_keys_def)
qed

end
