(* ===== verification/Ledger.thy ===== *)
theory Ledger
  imports Money BTree
begin

text \<open>
  \<open>crates/events/src/ledger.rs\<close>: the event-sourced ledger aggregate. Commands are
  validated by \<open>handle_command\<close>, which may reject; events are replayed by
  \<open>apply_event\<close>, which may not. The fresh entry identifier and the clock reading a
  command needs are arguments. \<open>post\<close> adds with \<open>Money::checked_add\<close>, which panics
  on overflow, so replay has a \<open>Panic\<close> outcome and never an \<open>Err\<close>.
\<close>

section \<open>Data\<close>

record 'd journal_line =
  account :: AccountId
  debit :: "'d money option"
  credit :: "'d money option"
  source_usage_event_ids :: "UsageEventId list"

definition journal_line_debit :: "AccountId \<Rightarrow> 'd money \<Rightarrow> 'd journal_line" where
  "journal_line_debit a m =
     \<lparr>account = a, debit = Some m, credit = None, source_usage_event_ids = []\<rparr>"

definition journal_line_credit :: "AccountId \<Rightarrow> 'd money \<Rightarrow> 'd journal_line" where
  "journal_line_credit a m =
     \<lparr>account = a, debit = None, credit = Some m, source_usage_event_ids = []\<rparr>"

definition with_sources :: "UsageEventId list \<Rightarrow> 'd journal_line \<Rightarrow> 'd journal_line" where
  "with_sources sources l = l\<lparr>source_usage_event_ids := sources\<rparr>"

datatype 'd ledger_event =
    JournalEntryPosted EntryId "'d journal_line list" dimensions datetime
  | EntryReversed EntryId EntryId string
  | CapitalizationStatusChanged RunId CapitalizationStatus CapitalizationStatus PolicyId

datatype 'd ledger_command =
    PostJournalEntry "'d journal_line list" dimensions
  | ReverseEntry EntryId string
  | ChangeCapitalizationStatus RunId CapitalizationStatus PolicyId

datatype 'd ledger_error =
    Unbalanced 'd 'd
  | EmptyEntry
  | LineHasBothSides AccountId
  | LineHasNoAmount AccountId
  | AlreadyReversed EntryId
  | UnknownEntry EntryId
  | CapitalizationUnchanged RunId CapitalizationStatus
  | LedgerCurrency currency_mismatch

record 'd ledger_state =
  balances :: "(AccountId, 'd money) btree"
  entries :: "(EntryId, 'd journal_line list) btree"
  reversed :: "EntryId btset"
  capitalization :: "(RunId, CapitalizationStatus) btree"

definition ledger_default :: "'d ledger_state" where
  "ledger_default = \<lparr>balances = [], entries = [], reversed = [], capitalization = []\<rparr>"

section \<open>Journal lines\<close>

definition signed_amount :: "'d decimal_ops \<Rightarrow> 'd journal_line \<Rightarrow> 'd money option" where
  "signed_amount D l =
     (case (debit l, credit l) of
        (Some d, None) \<Rightarrow> Some d
      | (None, Some c) \<Rightarrow> Some (money_negate D c)
      | _ \<Rightarrow> None)"

definition line_validate :: "'d journal_line \<Rightarrow> ('d ledger_error, 'd money) res" where
  "line_validate l =
     (case (debit l, credit l) of
        (Some d, None) \<Rightarrow> Ok d
      | (None, Some c) \<Rightarrow> Ok c
      | (Some _, Some _) \<Rightarrow> Err (LineHasBothSides (account l))
      | (None, None) \<Rightarrow> Err (LineHasNoAmount (account l)))"

section \<open>Queries on the state\<close>

definition balance :: "'d ledger_state \<Rightarrow> AccountId \<Rightarrow> 'd money option" where
  "balance s a = bt_get (balances s) a"

definition accounts :: "'d ledger_state \<Rightarrow> (AccountId \<times> 'd money) list" where
  "accounts s = balances s"

definition is_reversed :: "'d ledger_state \<Rightarrow> EntryId \<Rightarrow> bool" where
  "is_reversed s e = bs_contains (reversed s) e"

definition capitalization_status :: "'d ledger_state \<Rightarrow> RunId \<Rightarrow> CapitalizationStatus option" where
  "capitalization_status s r = bt_get (capitalization s) r"

definition entry_count :: "'d ledger_state \<Rightarrow> nat" where
  "entry_count s = length (entries s)"

text \<open>\<open>acc.checked_add(m).unwrap_or(acc)\<close>: the mismatch is absorbed, the panic is not.\<close>

definition add_or_keep :: "'d decimal_ops \<Rightarrow> 'd money \<Rightarrow> 'd money \<Rightarrow> ('e, 'd money) res" where
  "add_or_keep D acc m =
     (case money_add D acc m of Ok t \<Rightarrow> Ok t | Err _ \<Rightarrow> Ok acc | Panic \<Rightarrow> Panic)"

definition trial_balance :: "'d decimal_ops \<Rightarrow> 'd ledger_state \<Rightarrow> Currency \<Rightarrow> ('e, 'd money) res" where
  "trial_balance D s c =
     res_fold (\<lambda>m acc. add_or_keep D acc m)
       (filter (\<lambda>m. currency m = c) (bt_values (balances s))) (money_zero D c)"

section \<open>Posting\<close>

text \<open>One iteration of the loop of \<open>LedgerState::post\<close>.\<close>

definition post_line ::
  "'d decimal_ops \<Rightarrow> 'd journal_line \<Rightarrow> (AccountId, 'd money) btree
     \<Rightarrow> ('e, (AccountId, 'd money) btree) res" where
  "post_line D l b =
     (case signed_amount D l of
        None \<Rightarrow> Ok b
      | Some delta \<Rightarrow>
          let entry = (case bt_get b (account l) of
                         Some m \<Rightarrow> m | None \<Rightarrow> money_zero D (currency delta))
          in (case money_add D entry delta of
                Ok updated \<Rightarrow> Ok (bt_insert (account l) updated b)
              | Err _ \<Rightarrow> Ok (bt_insert (account l) entry b)
              | Panic \<Rightarrow> Panic))"

definition post ::
  "'d decimal_ops \<Rightarrow> 'd ledger_state \<Rightarrow> EntryId \<Rightarrow> 'd journal_line list
     \<Rightarrow> ('e, 'd ledger_state) res" where
  "post D s i lines =
     res_bind (res_fold (post_line D) lines (balances s)) (\<lambda>b.
     Ok (s\<lparr>balances := b, entries := bt_insert i lines (entries s)\<rparr>))"

definition mirror :: "'d journal_line list \<Rightarrow> 'd journal_line list" where
  "mirror lines = map (\<lambda>l. \<lparr>account = account l, debit = credit l, credit = debit l,
     source_usage_event_ids = []\<rparr>) lines"

section \<open>Commands\<close>

text \<open>One iteration of the validation loop: the pair of running totals.\<close>

definition tally_line ::
  "'d decimal_ops \<Rightarrow> 'd journal_line \<Rightarrow> 'd money \<times> 'd money
     \<Rightarrow> ('d ledger_error, 'd money \<times> 'd money) res" where
  "tally_line D l t =
     (case t of (debits, credits) \<Rightarrow>
      res_bind (line_validate l) (\<lambda>amt.
      if debit l \<noteq> None
      then res_bind (res_map_err LedgerCurrency (money_add D debits amt)) (\<lambda>ds. Ok (ds, credits))
      else res_bind (res_map_err LedgerCurrency (money_add D credits amt)) (\<lambda>cs. Ok (debits, cs))))"

definition handle_post ::
  "'d decimal_ops \<Rightarrow> 'd journal_line list \<Rightarrow> dimensions \<Rightarrow> EntryId \<Rightarrow> datetime
     \<Rightarrow> ('d ledger_error, 'd ledger_event list) res" where
  "handle_post D lines dims i now =
     (case lines of
        [] \<Rightarrow> Err EmptyEntry
      | l # _ \<Rightarrow>
          res_bind (line_validate l) (\<lambda>first.
          res_bind (res_fold (tally_line D) lines
              (money_zero D (currency first), money_zero D (currency first))) (\<lambda>(debits, credits).
          if \<not> money_eq D debits credits then Err (Unbalanced (amount debits) (amount credits))
          else Ok [JournalEntryPosted i lines dims now])))"

fun handle_command ::
  "'d decimal_ops \<Rightarrow> 'd ledger_state \<Rightarrow> 'd ledger_command \<Rightarrow> EntryId \<Rightarrow> datetime
     \<Rightarrow> ('d ledger_error, 'd ledger_event list) res" where
  "handle_command D s (PostJournalEntry lines dims) i now = handle_post D lines dims i now"
| "handle_command D s (ReverseEntry original reason) i now =
     (if \<not> bt_contains (entries s) original then Err (UnknownEntry original)
      else if is_reversed s original then Err (AlreadyReversed original)
      else Ok [EntryReversed original i reason])"
| "handle_command D s (ChangeCapitalizationStatus run to policy) i now =
     (let from = (case capitalization_status s run of Some c \<Rightarrow> c | None \<Rightarrow> PendingReview)
      in if from = to then Err (CapitalizationUnchanged run to)
         else Ok [CapitalizationStatusChanged run from to policy])"

section \<open>Events\<close>

fun apply_event ::
  "'d decimal_ops \<Rightarrow> 'd ledger_state \<Rightarrow> 'd ledger_event \<Rightarrow> ('e, 'd ledger_state) res" where
  "apply_event D s (JournalEntryPosted i lines dims posted_at) = post D s i lines"
| "apply_event D s (EntryReversed original reversal reason) =
     (case bt_get (entries s) original of
        Some lines \<Rightarrow>
          res_bind (post D s reversal (mirror lines)) (\<lambda>s'.
          Ok (s'\<lparr>reversed := bs_insert original (reversed s')\<rparr>))
      | None \<Rightarrow> Ok (s\<lparr>reversed := bs_insert original (reversed s)\<rparr>))"
| "apply_event D s (CapitalizationStatusChanged run from to policy) =
     Ok (s\<lparr>capitalization := bt_insert run to (capitalization s)\<rparr>)"

text \<open>The fold that rebuilds a projection from its log (\<open>assertions::replay\<close>).\<close>

definition replay_from ::
  "'d decimal_ops \<Rightarrow> 'd ledger_state \<Rightarrow> 'd ledger_event list \<Rightarrow> ('e, 'd ledger_state) res" where
  "replay_from D s events = res_fold (\<lambda>e st. apply_event D st e) events s"

definition replay :: "'d decimal_ops \<Rightarrow> 'd ledger_event list \<Rightarrow> ('e, 'd ledger_state) res" where
  "replay D events = replay_from D ledger_default events"

section \<open>Basic facts\<close>

lemma mirror_mirror_sides:
  "map (\<lambda>l. (account l, debit l, credit l)) (mirror (mirror ls)) =
   map (\<lambda>l. (account l, debit l, credit l)) ls"
  by (simp add: mirror_def)

lemma post_lines_not_Err [simp]: "res_fold (post_line D) ls b \<noteq> Err y"
  by (induction ls arbitrary: b)
     (auto simp: post_line_def Let_def split: option.splits res.splits)

lemma post_not_Err [simp]: "post D s i ls \<noteq> Err y"
  by (simp add: post_def)

lemma apply_event_not_Err [simp]: "apply_event D s e \<noteq> Err x"
  by (cases e) (auto split: option.splits)

lemma replay_append:
  "replay_from D s (xs @ ys) = res_bind (replay_from D s xs) (\<lambda>t. replay_from D t ys)"
  by (simp add: replay_from_def res_fold_append)

lemma post_frame:
  "post D s i ls = Ok s' \<Longrightarrow> entries s' = bt_insert i ls (entries s) \<and> reversed s' = reversed s \<and>
    capitalization s' = capitalization s"
  by (auto simp: post_def)

end
