(* ===== verification/Ledger_Proofs.thy ===== *)
theory Ledger_Proofs
  imports Ledger
begin

text \<open>
  What the ledger promises. Amounts are read through the value map of
  \<open>decimal_laws\<close>; the account balances are compared with sums over the posted lines.
  The effect of posting an entry is stated once (\<open>post_effect\<close>); balance projection,
  trial balance and reversal all follow from it.
\<close>

section \<open>Reading lines and balances as numbers\<close>

definition line_value :: "('d \<Rightarrow> rat) \<Rightarrow> 'd journal_line \<Rightarrow> rat" where
  "line_value val l =
     (case (debit l, credit l) of
        (Some d, None) \<Rightarrow> val (amount d)
      | (None, Some c) \<Rightarrow> - val (amount c)
      | _ \<Rightarrow> 0)"

definition line_currency :: "'d journal_line \<Rightarrow> Currency option" where
  "line_currency l =
     (case (debit l, credit l) of
        (Some d, None) \<Rightarrow> Some (currency d)
      | (None, Some c) \<Rightarrow> Some (currency c)
      | _ \<Rightarrow> None)"

definition lines_gross :: "('d \<Rightarrow> rat) \<Rightarrow> 'd journal_line list \<Rightarrow> rat" where
  "lines_gross val ls = (\<Sum>l\<leftarrow>ls. \<bar>line_value val l\<bar>)"

text \<open>The signed total an entry posts to one account.\<close>

definition account_total :: "('d \<Rightarrow> rat) \<Rightarrow> AccountId \<Rightarrow> 'd journal_line list \<Rightarrow> rat" where
  "account_total val a ls = (\<Sum>l\<leftarrow>ls. if account l = a then line_value val l else 0)"

type_synonym 'd balance_map = "(AccountId, 'd money) btree"

definition balance_value :: "('d \<Rightarrow> rat) \<Rightarrow> 'd balance_map \<Rightarrow> AccountId \<Rightarrow> rat" where
  "balance_value val b a = (case bt_get b a of None \<Rightarrow> 0 | Some m \<Rightarrow> val (amount m))"

definition currency_total :: "('d \<Rightarrow> rat) \<Rightarrow> Currency \<Rightarrow> 'd balance_map \<Rightarrow> rat" where
  "currency_total val c b = (\<Sum>(a, m)\<leftarrow>b. if currency m = c then val (amount m) else 0)"

definition gross :: "('d \<Rightarrow> rat) \<Rightarrow> 'd balance_map \<Rightarrow> rat" where
  "gross val b = (\<Sum>(a, m)\<leftarrow>b. \<bar>val (amount m)\<bar>)"

text \<open>An account takes a posting in \<open>c\<close> when it is new or already held in \<open>c\<close>.\<close>

definition account_currency :: "'d balance_map \<Rightarrow> AccountId \<Rightarrow> Currency option" where
  "account_currency b a = map_option currency (bt_get b a)"

definition accepts :: "Currency \<Rightarrow> 'd balance_map \<Rightarrow> AccountId \<Rightarrow> bool" where
  "accepts c b a \<longleftrightarrow> account_currency b a = None \<or> account_currency b a = Some c"

text \<open>The balances are what exact sums can be made of.\<close>

definition balances_ok :: "nat \<Rightarrow> ('d \<Rightarrow> rat) \<Rightarrow> 'd balance_map \<Rightarrow> bool" where
  "balances_ok k val b \<longleftrightarrow> bt_wf b \<and> (\<forall>a m. bt_get b a = Some m \<longrightarrow> multiple k (val (amount m)))"

lemma lines_gross_simps [simp]:
  "lines_gross val [] = 0"
  "lines_gross val (l # ls) = \<bar>line_value val l\<bar> + lines_gross val ls"
  by (simp_all add: lines_gross_def)

lemma lines_gross_nonneg [simp]: "0 \<le> lines_gross val ls"
  unfolding lines_gross_def by (rule sum_list_nonneg) auto

lemma account_total_simps [simp]:
  "account_total val a [] = 0"
  "account_total val a (l # ls) =
     (if account l = a then line_value val l else 0) + account_total val a ls"
  by (simp_all add: account_total_def)

lemma gross_nonneg [simp]: "0 \<le> gross val b"
  unfolding gross_def by (rule sum_list_nonneg) auto

lemma balance_le_gross: "\<bar>balance_value val b a\<bar> \<le> gross val b"
proof (cases "bt_get b a")
  case None
  then show ?thesis by (simp add: balance_value_def)
next
  case (Some m)
  then have "(a, m) \<in> set b" by (simp add: bt_get_map_of map_of_SomeD)
  then have "\<bar>val (amount m)\<bar> \<in> set (map (\<lambda>(a, m). \<bar>val (amount m)\<bar>) b)" by force
  then have "\<bar>val (amount m)\<bar> \<le> gross val b"
    unfolding gross_def by (rule member_le_sum_list) auto
  with Some show ?thesis by (simp add: balance_value_def)
qed

section \<open>What posting an entry does\<close>

definition post_effect ::
  "nat \<Rightarrow> ('d \<Rightarrow> rat) \<Rightarrow> Currency \<Rightarrow> 'd journal_line list \<Rightarrow> 'd balance_map \<Rightarrow> 'd balance_map \<Rightarrow> bool" where
  "post_effect k val c ls b b' \<longleftrightarrow>
     balances_ok k val b' \<and>
     gross val b' \<le> gross val b + lines_gross val ls \<and>
     (\<forall>a. accepts c b' a = accepts c b a) \<and>
     (\<forall>a. balance_value val b' a =
        balance_value val b a + (if accepts c b a then account_total val a ls else 0)) \<and>
     (\<forall>c'. currency_total val c' b' = currency_total val c' b +
        (if c' = c then \<Sum>l\<leftarrow>ls. if accepts c b (account l) then line_value val l else 0 else 0)) \<and>
     (\<forall>a. account_currency b' a =
        (case account_currency b a of Some c0 \<Rightarrow> Some c0
         | None \<Rightarrow> if a \<in> account ` set ls then Some c else None))"

lemma post_effect_Nil: "balances_ok k val b \<Longrightarrow> post_effect k val c [] b b"
  by (auto simp: post_effect_def split: option.splits)

lemma post_effect_Cons:
  assumes "post_effect k val c [l] b b1" "post_effect k val c ls b1 b2"
  shows "post_effect k val c (l # ls) b b2"
  using assms by (auto simp: post_effect_def split: option.splits)

context decimal_laws
begin

lemma signed_amount_value:
  assumes "line_currency l = Some c"
  obtains m where "signed_amount D l = Some m" "currency m = c" "val (amount m) = line_value val l"
  using assms
  by (auto simp: line_currency_def signed_amount_def line_value_def split: option.splits)

lemma insert_effect:
  assumes ok: "balances_ok k val b"
    and old: "val (amount old) = balance_value val b (account l)"
      "currency old = (case bt_get b (account l) of Some m \<Rightarrow> currency m | None \<Rightarrow> c)"
    and m: "currency m = currency old" "multiple k (val (amount m))"
      "val (amount m) = val (amount old) + (if currency old = c then line_value val l else 0)"
  shows "post_effect k val c [l] b (bt_insert (account l) m b)"
proof -
  let ?b = "bt_insert (account l) m b"
  have wf: "bt_wf b" using ok by (simp add: balances_ok_def)
  have acc: "accepts c b (account l) \<longleftrightarrow> currency old = c"
    by (auto simp: accepts_def account_currency_def old(2) split: option.splits)
  have "balances_ok k val ?b" using ok m(2) by (auto simp: balances_ok_def)
  moreover have "gross val ?b \<le> gross val b + lines_gross val [l]"
    unfolding gross_def btm.sum_entries_ins [OF wf]
    using m(3) old(1) by (auto simp: balance_value_def split: option.splits if_splits)
  moreover have "currency_total val c' ?b = currency_total val c' b +
      (if c' = c then \<Sum>l\<leftarrow>[l]. if accepts c b (account l) then line_value val l else 0 else 0)" for c'
    unfolding currency_total_def btm.sum_entries_ins [OF wf]
    using m(1,3) old acc by (auto simp: balance_value_def split: option.splits if_splits)
  moreover have "accepts c ?b a = accepts c b a" for a
    using m(1) wf by (auto simp: accepts_def account_currency_def old(2) split: option.splits)
  moreover have "balance_value val ?b a =
      balance_value val b a + (if accepts c b a then account_total val a [l] else 0)" for a
    using m(3) wf old(1) acc by (auto simp: balance_value_def)
  moreover have "account_currency ?b a =
      (case account_currency b a of Some c0 \<Rightarrow> Some c0
       | None \<Rightarrow> if a \<in> account ` set [l] then Some c else None)" for a
    using m(1) wf by (auto simp: account_currency_def old(2) split: option.splits)
  ultimately show ?thesis by (simp add: post_effect_def)
qed

lemma post_line_effect:
  assumes ok: "balances_ok k val b" and c: "line_currency l = Some c"
    and mult: "multiple k (line_value val l)"
    and fit: "fits_gross k (gross val b + \<bar>line_value val l\<bar>)"
  shows "\<exists>b'. post_line D l b = (Ok b' :: ('e, 'd balance_map) res) \<and> post_effect k val c [l] b b'"
proof -
  obtain d where d: "signed_amount D l = Some d" "currency d = c" "val (amount d) = line_value val l"
    using signed_amount_value [OF c] .
  define old where "old = (case bt_get b (account l) of Some m \<Rightarrow> m | None \<Rightarrow> money_zero D c)"
  have oldv: "val (amount old) = balance_value val b (account l)"
    by (auto simp: old_def balance_value_def split: option.splits)
  have oldm: "multiple k (val (amount old))"
    using ok by (auto simp: old_def balances_ok_def split: option.splits)
  have oldc: "currency old = (case bt_get b (account l) of Some m \<Rightarrow> currency m | None \<Rightarrow> c)"
    by (simp add: old_def split: option.split)
  note eff = insert_effect [OF ok oldv oldc]
  have pl: "post_line D l b = (case money_add D old d of
      Ok updated \<Rightarrow> Ok (bt_insert (account l) updated b)
    | Err _ \<Rightarrow> Ok (bt_insert (account l) old b) | Panic \<Rightarrow> (Panic :: ('e, _) res))"
    unfolding post_line_def d(1) option.case d(2) Let_def old_def ..
  show ?thesis
  proof (cases "currency old = c")
    case False
    then have "money_add D old d = Err (CurrencyMismatch (currency old) (currency d))"
      by (simp add: money_add_mismatch d)
    then have "post_line D l b = (Ok (bt_insert (account l) old b) :: ('e, _) res)"
      by (simp add: pl)
    with eff [of old] oldm False show ?thesis by auto
  next
    case True
    have "fits_gross k \<bar>val (amount old) + val (amount d)\<bar>"
      by (rule fits_gross_mono [OF fit])
        (use balance_le_gross [of val b "account l"] in \<open>auto simp: oldv d\<close>)
    then obtain s where s: "dec_add D (amount old) (amount d) = (Ok s :: (currency_mismatch, 'd) res)"
        "val s = val (amount old) + line_value val l"
      using dec_add_gross [OF oldm, of "amount d"] mult d by metis
    then have "money_add D old d = Ok (money_new s c)"
      using True d by (simp add: money_add_same)
    then have "post_line D l b = (Ok (bt_insert (account l) (money_new s c) b) :: ('e, _) res)"
      by (simp add: pl)
    with eff [of "money_new s c"] oldm mult True s show ?thesis by auto
  qed
qed

lemma post_lines_effect:
  assumes "balances_ok k val b" "\<forall>l\<in>set ls. line_currency l = Some c \<and> multiple k (line_value val l)"
    "fits_gross k (gross val b + lines_gross val ls)"
  shows "\<exists>b'. res_fold (post_line D) ls b = (Ok b' :: ('e, 'd balance_map) res) \<and>
    post_effect k val c ls b b'"
  using assms
proof (induction ls arbitrary: b)
  case Nil
  then show ?case by (simp add: post_effect_Nil)
next
  case (Cons l ls)
  have "fits_gross k (gross val b + \<bar>line_value val l\<bar>)"
    by (rule fits_gross_mono [OF Cons.prems(3)]) simp
  with post_line_effect [OF Cons.prems(1)] Cons.prems(2)
  obtain b1 where b1: "post_line D l b = (Ok b1 :: ('e, 'd balance_map) res)"
    "post_effect k val c [l] b b1" by fastforce
  then have "gross val b1 \<le> gross val b + \<bar>line_value val l\<bar>" "balances_ok k val b1"
    by (auto simp: post_effect_def)
  then have "fits_gross k (gross val b1 + lines_gross val ls)" "balances_ok k val b1"
    by (auto intro: fits_gross_mono [OF Cons.prems(3)])
  with Cons.IH Cons.prems(2) obtain b2 where
    "res_fold (post_line D) ls b1 = (Ok b2 :: ('e, 'd balance_map) res)" "post_effect k val c ls b1 b2"
    by fastforce
  with b1 post_effect_Cons [OF b1(2)] show ?case by auto
qed

end

end
