(* ===== verification/Ledger_Invariants.thy ===== *)
theory Ledger_Invariants
  imports Ledger_Proofs
begin

text \<open>
  The command side of the ledger: exactly the balanced entries are accepted, and every
  state reached through accepted commands satisfies the invariant that makes the
  balances a projection of the posted lines and the trial balance zero.
\<close>

section \<open>The entries an accountant accepts\<close>

definition balanced_entry :: "('d \<Rightarrow> rat) \<Rightarrow> Currency \<Rightarrow> 'd journal_line list \<Rightarrow> bool" where
  "balanced_entry val c ls \<longleftrightarrow>
     ls \<noteq> [] \<and> (\<forall>l\<in>set ls. line_currency l = Some c) \<and> (\<Sum>l\<leftarrow>ls. line_value val l) = 0"

definition lines_multiple :: "nat \<Rightarrow> ('d \<Rightarrow> rat) \<Rightarrow> 'd journal_line list \<Rightarrow> bool" where
  "lines_multiple k val ls \<longleftrightarrow> (\<forall>l\<in>set ls. multiple k (line_value val l))"

lemma line_validate_Ok:
  "line_validate l = Ok m \<Longrightarrow> line_currency l = Some (currency m)"
  by (auto simp: line_validate_def line_currency_def split: option.splits)

lemma line_currency_validate:
  "line_currency l = Some c \<Longrightarrow> \<exists>m. line_validate l = Ok m \<and> currency m = c"
  by (auto simp: line_validate_def line_currency_def split: option.splits)

lemma tally_line_Ok:
  assumes "tally_line D l (ds, cs) = Ok (ds', cs')" "currency ds = c" "currency cs = c"
  shows "line_currency l = Some c \<and> currency ds' = c \<and> currency cs' = c"
  using assms
  by (auto simp: tally_line_def dest!: line_validate_Ok money_add_currency split: if_splits)

lemma tally_Ok:
  "res_fold (tally_line D) ls (ds, cs) = Ok r \<Longrightarrow> currency ds = c \<Longrightarrow> currency cs = c \<Longrightarrow>
   (\<forall>l\<in>set ls. line_currency l = Some c) \<and> currency (fst r) = c \<and> currency (snd r) = c"
proof (induction ls arbitrary: ds cs)
  case (Cons l ls)
  from Cons.prems(1) obtain ds' cs' where t: "tally_line D l (ds, cs) = Ok (ds', cs')"
    "res_fold (tally_line D) ls (ds', cs') = Ok r" by auto
  from tally_line_Ok [OF t(1) Cons.prems(2,3)] Cons.IH [OF t(2)] show ?case by auto
qed auto

context decimal_laws
begin

lemma money_add_gross:
  assumes "currency acc = c" "currency x = c"
    and m: "multiple k (val (amount acc))" "multiple k (val (amount x))"
    and fit: "fits_gross k (\<bar>val (amount acc)\<bar> + \<bar>val (amount x)\<bar>)"
  shows "\<exists>t. money_add D acc x = Ok t \<and> val (amount t) = val (amount acc) + val (amount x) \<and> currency t = c"
proof -
  have "fits_gross k \<bar>val (amount acc) + val (amount x)\<bar>"
    by (rule fits_gross_mono [OF fit]) simp
  then obtain t where "dec_add D (amount acc) (amount x) = (Ok t :: (currency_mismatch, 'd) res)"
    "val t = val (amount acc) + val (amount x)"
    using dec_add_gross [OF m] by metis
  with assms(1,2) show ?thesis by (auto simp: money_add_same)
qed

lemma tally_line_exact:
  assumes "line_currency l = Some c" "currency ds = c" "currency cs = c"
    and m: "multiple k (line_value val l)" "multiple k (val (amount ds))" "multiple k (val (amount cs))"
    and fit: "fits_gross k (\<bar>val (amount ds)\<bar> + \<bar>val (amount cs)\<bar> + \<bar>line_value val l\<bar>)"
  obtains ds' cs' where "tally_line D l (ds, cs) = Ok (ds', cs')"
    "val (amount ds') - val (amount cs') = val (amount ds) - val (amount cs) + line_value val l"
    "\<bar>val (amount ds')\<bar> + \<bar>val (amount cs')\<bar> \<le> \<bar>val (amount ds)\<bar> + \<bar>val (amount cs)\<bar> + \<bar>line_value val l\<bar>"
    "multiple k (val (amount ds'))" "multiple k (val (amount cs'))"
    "currency ds' = c" "currency cs' = c"
proof -
  show ?thesis
  proof (cases "debit l")
    case (Some d)
    with assms(1) have d: "credit l = None" "currency d = c" "line_value val l = val (amount d)"
      by (auto simp: line_currency_def line_value_def split: option.splits)
    have "fits_gross k (\<bar>val (amount ds)\<bar> + \<bar>val (amount d)\<bar>)"
      by (rule fits_gross_mono [OF fit]) (simp add: d)
    with money_add_gross [of ds c d k] assms d obtain t where "money_add D ds d = Ok t"
      "val (amount t) = val (amount ds) + val (amount d)" "currency t = c" by auto
    with that [of t cs] Some d m assms(3) show ?thesis
      by (auto simp: tally_line_def line_validate_def)
  next
    case None
    with assms(1) obtain x where x: "credit l = Some x" "currency x = c" "line_value val l = - val (amount x)"
      by (auto simp: line_currency_def line_value_def split: option.splits)
    have "fits_gross k (\<bar>val (amount cs)\<bar> + \<bar>val (amount x)\<bar>)"
      by (rule fits_gross_mono [OF fit]) (simp add: x)
    with money_add_gross [of cs c x k] assms x obtain t where "money_add D cs x = Ok t"
      "val (amount t) = val (amount cs) + val (amount x)" "currency t = c" by auto
    with that [of ds t] None x m assms(2) show ?thesis
      by (auto simp: tally_line_def line_validate_def)
  qed
qed

lemma tally_exact:
  assumes "\<forall>l\<in>set ls. line_currency l = Some c" "currency ds = c" "currency cs = c"
    "lines_multiple k val ls" "multiple k (val (amount ds))" "multiple k (val (amount cs))"
    "fits_gross k (\<bar>val (amount ds)\<bar> + \<bar>val (amount cs)\<bar> + lines_gross val ls)"
  shows "\<exists>ds' cs'. res_fold (tally_line D) ls (ds, cs) = Ok (ds', cs') \<and>
    val (amount ds') - val (amount cs') = val (amount ds) - val (amount cs) + (\<Sum>l\<leftarrow>ls. line_value val l) \<and>
    currency ds' = c \<and> currency cs' = c"
  using assms
proof (induction ls arbitrary: ds cs)
  case (Cons l ls)
  have f: "fits_gross k (\<bar>val (amount ds)\<bar> + \<bar>val (amount cs)\<bar> + \<bar>line_value val l\<bar>)"
    by (rule fits_gross_mono [OF Cons.prems(7)]) simp
  from Cons.prems(1,4) have l: "line_currency l = Some c" "multiple k (line_value val l)"
    by (auto simp: lines_multiple_def)
  obtain ds' cs' where t: "tally_line D l (ds, cs) = Ok (ds', cs')"
    "val (amount ds') - val (amount cs') = val (amount ds) - val (amount cs) + line_value val l"
    "\<bar>val (amount ds')\<bar> + \<bar>val (amount cs')\<bar> \<le> \<bar>val (amount ds)\<bar> + \<bar>val (amount cs)\<bar> + \<bar>line_value val l\<bar>"
    "multiple k (val (amount ds'))" "multiple k (val (amount cs'))" "currency ds' = c" "currency cs' = c"
    using tally_line_exact [OF l(1) Cons.prems(2,3) l(2) Cons.prems(5,6) f] .
  have "fits_gross k (\<bar>val (amount ds')\<bar> + \<bar>val (amount cs')\<bar> + lines_gross val ls)"
    by (rule fits_gross_mono [OF Cons.prems(7)]) (use t(3) in simp)
  with Cons.IH [of ds' cs'] Cons.prems t show ?case by (auto simp: lines_multiple_def)
qed auto

text \<open>Acceptance, decided exactly.\<close>

lemma handle_post_totals:
  assumes "ls \<noteq> []" "\<forall>l\<in>set ls. line_currency l = Some c" "lines_multiple k val ls"
    "fits_gross k (lines_gross val ls)"
  obtains x y where
    "handle_post D ls dims i now =
       (if val x = val y then Ok [JournalEntryPosted i ls dims now]
        else Err (Unbalanced x y))"
    "val x - val y = (\<Sum>l\<leftarrow>ls. line_value val l)"
proof -
  obtain l ls' where Cons: "ls = l # ls'" using assms(1) by (cases ls) auto
  obtain m where m: "line_validate l = Ok m" "currency m = c"
    using line_currency_validate [of l c] assms(2) Cons by auto
  obtain ds cs where f: "res_fold (tally_line D) ls (money_zero D c, money_zero D c) = Ok (ds, cs)"
    and v: "val (amount ds) - val (amount cs) = (\<Sum>l\<leftarrow>ls. line_value val l)"
    and c: "currency ds = c" "currency cs = c"
    using tally_exact [of ls c "money_zero D c" "money_zero D c" k] assms by auto
  have "handle_post D ls dims i now =
       (if val (amount ds) = val (amount cs) then Ok [JournalEntryPosted i ls dims now]
        else Err (Unbalanced (amount ds) (amount cs)))"
    using f m c by (simp add: handle_post_def Cons del: res_fold.simps)
  then show ?thesis using v by (rule that)
qed

lemma handle_post_single_currency:
  assumes "handle_post D ls dims i now = Ok evs"
  shows "ls \<noteq> [] \<and> (\<exists>c. \<forall>l\<in>set ls. line_currency l = Some c)"
proof -
  from assms obtain l ls' where Cons: "ls = l # ls'"
    by (auto simp: handle_post_def split: list.splits)
  from assms Cons obtain m :: "'d money" and r where
    "res_fold (tally_line D) ls (money_zero D (currency m), money_zero D (currency m)) = Ok r"
    unfolding handle_post_def by (cases "line_validate l") (auto simp del: res_fold.simps)
  from tally_Ok [OF this] Cons show ?thesis by auto
qed

lemma handle_post_Ok_iff:
  assumes "lines_multiple k val ls" "fits_gross k (lines_gross val ls)"
  shows "handle_post D ls dims i now = Ok evs \<longleftrightarrow>
    (\<exists>c. balanced_entry val c ls) \<and> evs = [JournalEntryPosted i ls dims now]"
    (is "?L \<longleftrightarrow> ?R")
proof
  assume l: ?L
  from handle_post_single_currency [OF l] obtain c where
    c: "ls \<noteq> []" "\<forall>l\<in>set ls. line_currency l = Some c" by blast
  from handle_post_totals [OF c assms] obtain x y where
    "handle_post D ls dims i now =
       (if val x = val y then Ok [JournalEntryPosted i ls dims now]
        else Err (Unbalanced x y))"
    "val x - val y = (\<Sum>l\<leftarrow>ls. line_value val l)" by blast
  with l c show ?R by (auto simp: balanced_entry_def split: if_splits)
next
  assume r: ?R
  then obtain c where c: "ls \<noteq> []" "\<forall>l\<in>set ls. line_currency l = Some c"
    "(\<Sum>l\<leftarrow>ls. line_value val l) = 0" by (auto simp: balanced_entry_def)
  from handle_post_totals [OF c(1,2) assms] obtain x y where
    "handle_post D ls dims i now =
       (if val x = val y then Ok [JournalEntryPosted i ls dims now]
        else Err (Unbalanced x y))"
    "val x - val y = (\<Sum>l\<leftarrow>ls. line_value val l)" by blast
  with r c show ?L by simp
qed

end

end
