(* ===== verification/Ledger_Reach.thy ===== *)
theory Ledger_Reach
  imports Ledger_Invariants
begin

text \<open>
  The ledger as a state machine. A history is what a client of the aggregate can
  produce: each accepted command's events are appended to the log and replayed. The
  invariant of the states of histories is proved by rule induction; the properties
  of the ledger follow from it.
\<close>

section \<open>Histories\<close>

inductive ledger_history ::
  "'d decimal_ops \<Rightarrow> 'd ledger_event list \<Rightarrow> 'd ledger_state \<Rightarrow> bool" for D where
  start: "ledger_history D [] ledger_default"
| step: "ledger_history D h s \<Longrightarrow> \<not> bt_contains (entries s) i \<Longrightarrow>
    handle_command D s cmd i now = Ok evs \<Longrightarrow>
    replay_from D s evs = (Ok s' :: (unit, 'd ledger_state) res) \<Longrightarrow>
    ledger_history D (h @ evs) s'"

definition state_gross :: "('d \<Rightarrow> rat) \<Rightarrow> 'd ledger_state \<Rightarrow> rat" where
  "state_gross val s = (\<Sum>(i, ls)\<leftarrow>entries s. lines_gross val ls)"

text \<open>What the entries of the state post to an account, whichever their currency.\<close>

definition state_total :: "('d \<Rightarrow> rat) \<Rightarrow> AccountId \<Rightarrow> 'd ledger_state \<Rightarrow> rat" where
  "state_total val a s = (\<Sum>(i, ls)\<leftarrow>entries s. account_total val a ls)"

text \<open>Every posted amount is a multiple of \<open>10^-k\<close> and their absolute sum fits a mantissa.\<close>

definition in_bounds :: "nat \<Rightarrow> ('d \<Rightarrow> rat) \<Rightarrow> 'd ledger_state \<Rightarrow> bool" where
  "in_bounds k val s \<longleftrightarrow>
     (\<forall>i ls. bt_get (entries s) i = Some ls \<longrightarrow> lines_multiple k val ls) \<and>
     fits_gross k (state_gross val s)"

text \<open>\<open>held_in f s\<close>: every line posted to account \<open>a\<close> is in currency \<open>f a\<close>.\<close>

definition held_in :: "(AccountId \<Rightarrow> Currency) \<Rightarrow> 'd ledger_state \<Rightarrow> bool" where
  "held_in f s \<longleftrightarrow> (\<forall>i ls. bt_get (entries s) i = Some ls \<longrightarrow>
     (\<forall>l\<in>set ls. line_currency l = Some (f (account l))))"

definition ledger_inv :: "nat \<Rightarrow> ('d \<Rightarrow> rat) \<Rightarrow> 'd ledger_state \<Rightarrow> bool" where
  "ledger_inv k val s \<longleftrightarrow>
     bt_wf (entries s) \<and> bt_wf (reversed s) \<and> bt_wf (capitalization s) \<and>
     balances_ok k val (balances s) \<and>
     gross val (balances s) \<le> state_gross val s \<and>
     (\<forall>i ls. bt_get (entries s) i = Some ls \<longrightarrow> (\<exists>c. balanced_entry val c ls)) \<and>
     (\<forall>i. is_reversed s i \<longrightarrow> bt_contains (entries s) i)"

definition ledger_inv_ccy :: "(AccountId \<Rightarrow> Currency) \<Rightarrow> ('d \<Rightarrow> rat) \<Rightarrow> 'd ledger_state \<Rightarrow> bool" where
  "ledger_inv_ccy f val s \<longleftrightarrow>
     (\<forall>a. account_currency (balances s) a \<in> {None, Some (f a)}) \<and>
     (\<forall>a. balance_value val (balances s) a = state_total val a s) \<and>
     (\<forall>c. currency_total val c (balances s) = 0)"

section \<open>Recording an entry\<close>

lemma record_fresh:
  assumes "bt_wf (entries s)" "\<not> bt_contains (entries s) i" "entries s' = bt_insert i ls (entries s)"
  shows "state_gross val s' = state_gross val s + lines_gross val ls"
    "state_total val a s' = state_total val a s + account_total val a ls"
    "bt_get (entries s') i = Some ls"
    "i' \<noteq> i \<Longrightarrow> bt_get (entries s') i' = bt_get (entries s) i'"
  using assms
  by (simp_all add: state_gross_def state_total_def btm.sum_entries_ins bt_contains_def)

lemma in_bounds_mono:
  assumes "bt_wf (entries s)" "\<not> bt_contains (entries s) i" "entries s' = bt_insert i ls (entries s)"
    "in_bounds k val s'"
  shows "in_bounds k val s \<and> lines_multiple k val ls \<and> fits_gross k (state_gross val s + lines_gross val ls)"
proof -
  note r = record_fresh [OF assms(1-3)]
  have "lines_multiple k val ls'" if "bt_get (entries s) i' = Some ls'" for i' ls'
  proof -
    have "i' \<noteq> i" using that assms(2) by (auto simp: bt_contains_def)
    with r(4) that have "bt_get (entries s') i' = Some ls'" by metis
    with assms(4) show ?thesis by (simp add: in_bounds_def)
  qed
  moreover have "fits_gross k (state_gross val s + lines_gross val ls)" "lines_multiple k val ls"
    using assms(4) r by (auto simp: in_bounds_def)
  moreover from this(1) have "fits_gross k (state_gross val s)"
    by (rule fits_gross_mono) simp
  ultimately show ?thesis by (simp add: in_bounds_def)
qed

lemma held_in_mono:
  assumes "bt_wf (entries s)" "\<not> bt_contains (entries s) i" "entries s' = bt_insert i ls (entries s)"
    "held_in f s'"
  shows "held_in f s \<and> (\<forall>l\<in>set ls. line_currency l = Some (f (account l)))"
proof -
  have "bt_get (entries s') i' = Some ls'" if "bt_get (entries s) i' = Some ls'" for i' ls'
    using that record_fresh(4) [OF assms(1-3), of i'] assms(2) by (cases "i' = i") (auto simp: bt_contains_def)
  then show ?thesis
    using assms(4) record_fresh(3) [OF assms(1-3)] unfolding held_in_def by blast
qed

section \<open>Mirrored lines\<close>

lemma mirror_values [simp]:
  "map (line_value val) (mirror ls) = map (\<lambda>l. - line_value val l) ls"
  by (auto simp: mirror_def line_value_def split: option.splits)

lemma mirror_total [simp]: "account_total val a (mirror ls) = - account_total val a ls"
  by (induction ls) (auto simp: mirror_def line_value_def split: option.splits)

lemma mirror_gross [simp]: "lines_gross val (mirror ls) = lines_gross val ls"
  by (induction ls) (auto simp: mirror_def line_value_def split: option.splits)

lemma mirror_line_currency:
  "l' \<in> set (mirror ls) \<Longrightarrow> \<exists>l\<in>set ls. account l' = account l \<and> line_currency l' = line_currency l \<and>
     line_value val l' = - line_value val l"
proof -
  assume "l' \<in> set (mirror ls)"
  then obtain l where l: "l \<in> set ls" "l' = \<lparr>account = account l, debit = credit l,
      credit = debit l, source_usage_event_ids = []\<rparr>" by (auto simp: mirror_def)
  then show ?thesis
    by (intro bexI [of _ l]) (auto simp: line_currency_def line_value_def split: option.splits)
qed

lemma sum_list_negate: "(\<Sum>x\<leftarrow>xs. - f x) = - (\<Sum>x\<leftarrow>xs. f x :: rat)"
  by (induction xs) auto

lemma mirror_balanced: "balanced_entry val c ls \<Longrightarrow> balanced_entry val c (mirror ls)"
proof -
  assume b: "balanced_entry val c ls"
  have "\<forall>l\<in>set (mirror ls). line_currency l = Some c"
    using b mirror_line_currency unfolding balanced_entry_def by fastforce
  moreover have "mirror ls \<noteq> []" using b by (simp add: balanced_entry_def mirror_def)
  ultimately show ?thesis using b by (simp add: balanced_entry_def sum_list_negate)
qed

lemma mirror_multiple: "lines_multiple k val ls \<Longrightarrow> lines_multiple k val (mirror ls)"
  unfolding lines_multiple_def using mirror_line_currency by (metis multiple_neg)

section \<open>One posting preserves the invariant\<close>

lemma account_total_none: "a \<notin> account ` set ls \<Longrightarrow> account_total val a ls = 0"
  by (induction ls) auto

lemma accepts_held:
  assumes "ledger_inv_ccy f val s" "\<forall>l\<in>set ls. line_currency l = Some (f (account l))"
    "\<forall>l\<in>set ls. line_currency l = Some c" "l \<in> set ls"
  shows "accepts c (balances s) (account l)"
  using assms by (fastforce simp: ledger_inv_ccy_def accepts_def)

lemma ledger_inv_post:
  assumes inv: "ledger_inv k val s" and fresh: "\<not> bt_contains (entries s) i"
    and bal: "balanced_entry val c ls"
    and eff: "post_effect k val c ls (balances s) (balances s')"
    and fr: "entries s' = bt_insert i ls (entries s)" "reversed s' = reversed s"
      "capitalization s' = capitalization s"
  shows "ledger_inv k val s'"
proof -
  have wf: "bt_wf (entries s)" using inv by (simp add: ledger_inv_def)
  note r = record_fresh [OF wf fresh fr(1)]
  have "\<exists>c. balanced_entry val c ls'" if "bt_get (entries s') i' = Some ls'" for i' ls'
    using that inv bal r(3,4) by (cases "i' = i") (auto simp: ledger_inv_def)
  moreover have "gross val (balances s') \<le> state_gross val s'"
    using inv eff r(1) [of val] by (auto simp: ledger_inv_def post_effect_def)
  ultimately show ?thesis
    using inv eff wf fr by (auto simp: ledger_inv_def post_effect_def is_reversed_def)
qed

lemma ledger_inv_ccy_post:
  assumes inv: "ledger_inv k val s" "ledger_inv_ccy f val s" and fresh: "\<not> bt_contains (entries s) i"
    and bal: "balanced_entry val c ls" and held: "\<forall>l\<in>set ls. line_currency l = Some (f (account l))"
    and eff: "post_effect k val c ls (balances s) (balances s')"
    and fr: "entries s' = bt_insert i ls (entries s)"
  shows "ledger_inv_ccy f val s'"
proof -
  have wf: "bt_wf (entries s)" using inv by (simp add: ledger_inv_def)
  note r = record_fresh [OF wf fresh fr]
  have lc: "\<forall>l\<in>set ls. line_currency l = Some c" using bal by (simp add: balanced_entry_def)
  note acc = accepts_held [OF inv(2) held lc]
  have "account_currency (balances s') a \<in> {None, Some (f a)}" for a
  proof -
    have "a \<in> account ` set ls \<Longrightarrow> f a = c" using held lc by auto
    moreover have "account_currency (balances s') a = (case account_currency (balances s) a of
        Some c0 \<Rightarrow> Some c0 | None \<Rightarrow> if a \<in> account ` set ls then Some c else None)"
      using eff by (simp add: post_effect_def)
    moreover have "account_currency (balances s) a \<in> {None, Some (f a)}"
      using inv(2) by (simp add: ledger_inv_ccy_def)
    ultimately show ?thesis by auto
  qed
  moreover have "balance_value val (balances s') a = state_total val a s'" for a
    using eff inv(2) r(2) [of val a] acc account_total_none [of a ls val]
    by (fastforce simp: post_effect_def ledger_inv_ccy_def)
  moreover have "currency_total val c' (balances s') = 0" for c'
  proof -
    have "(\<Sum>l\<leftarrow>ls. if accepts c (balances s) (account l) then line_value val l else 0) =
        (\<Sum>l\<leftarrow>ls. line_value val l)"
      by (rule arg_cong [where f = sum_list]) (simp add: acc)
    with eff inv(2) bal show ?thesis
      by (simp add: post_effect_def ledger_inv_ccy_def balanced_entry_def)
  qed
  ultimately show ?thesis by (simp add: ledger_inv_ccy_def)
qed

section \<open>What an accepted command does\<close>

lemma res_bind_Ok_right: "res_bind m Ok = m"
  by (cases m) simp_all

lemma res_fold_Nil: "res_fold g [] = Ok"
  by (simp add: fun_eq_iff)

lemma replay_single [simp]: "replay_from D s [e] = apply_event D s e"
  by (simp add: replay_from_def res_bind_Ok_right res_fold_Nil)

lemma accepted_cases [consumes 2, case_names posted reversed capitalized]:
  assumes "handle_command D s cmd i now = Ok evs" "replay_from D s evs = (Ok s' :: (unit, 'd ledger_state) res)"
  obtains ls dims where "cmd = PostJournalEntry ls dims" "handle_post D ls dims i now = Ok evs"
      "evs = [JournalEntryPosted i ls dims now]" "post D s i ls = (Ok s' :: (unit, 'd ledger_state) res)"
  | e r ls s1 where "cmd = ReverseEntry e r" "evs = [EntryReversed e i r]" "bt_get (entries s) e = Some ls"
      "\<not> is_reversed s e" "post D s i (mirror ls) = (Ok s1 :: (unit, 'd ledger_state) res)"
      "s' = s1\<lparr>reversed := bs_insert e (reversed s1)\<rparr>"
  | run old to p where "cmd = ChangeCapitalizationStatus run to p"
      "evs = [CapitalizationStatusChanged run old to p]"
      "old = (case capitalization_status s run of Some c \<Rightarrow> c | None \<Rightarrow> PendingReview)" "old \<noteq> to"
      "s' = s\<lparr>capitalization := bt_insert run to (capitalization s)\<rparr>"
proof (cases cmd)
  case (PostJournalEntry ls dims)
  with assms(1) have h: "handle_post D ls dims i now = Ok evs" by simp
  then have "evs = [JournalEntryPosted i ls dims now]"
    by (auto simp: handle_post_def split: list.splits if_splits)
  with PostJournalEntry h assms(2) that(1) show ?thesis by simp
next
  case (ReverseEntry e r)
  with assms that(2) show ?thesis
    by (auto simp: bt_contains_def split: if_splits)
next
  case (ChangeCapitalizationStatus run to p)
  with assms that(3) show ?thesis
    by (auto simp: Let_def split: if_splits)
qed

lemma history_wf:
  "ledger_history D h s \<Longrightarrow> bt_wf (entries s) \<and> bt_wf (reversed s) \<and> bt_wf (capitalization s)"
proof (induction rule: ledger_history.induct)
  case (step h s i cmd now evs s')
  from step.hyps(3,4) step.IH show ?case
    by (cases rule: accepted_cases) (auto dest!: post_frame)
qed (simp add: ledger_default_def)

context decimal_laws
begin

lemma post_accepted:
  assumes inv: "ledger_inv k val s" and bal: "balanced_entry val c ls" and m: "lines_multiple k val ls"
    and fit: "fits_gross k (state_gross val s + lines_gross val ls)"
  obtains s' where "post D s i ls = (Ok s' :: ('e, 'd ledger_state) res)"
    "post_effect k val c ls (balances s) (balances s')" "entries s' = bt_insert i ls (entries s)"
    "reversed s' = reversed s" "capitalization s' = capitalization s"
proof -
  have "gross val (balances s) \<le> state_gross val s" using inv by (simp add: ledger_inv_def)
  then have "fits_gross k (gross val (balances s) + lines_gross val ls)"
    by (intro fits_gross_mono [OF fit]) simp
  with post_lines_effect [of k "balances s" ls c] inv bal m obtain b' where
    "res_fold (post_line D) ls (balances s) = (Ok b' :: ('e, 'd balance_map) res)"
    "post_effect k val c ls (balances s) b'"
    by (auto simp: ledger_inv_def balanced_entry_def lines_multiple_def)
  with that show ?thesis by (auto simp: post_def)
qed

text \<open>One posting of a balanced entry, on a state whose result is within the bounds.\<close>

lemma post_keeps:
  assumes inv: "ledger_inv k val s" "held_in f s \<longrightarrow> ledger_inv_ccy f val s"
    and fresh: "\<not> bt_contains (entries s) i" and bal: "balanced_entry val c ls"
    and post: "post D s i ls = (Ok s' :: (unit, 'd ledger_state) res)"
    and bounds: "lines_multiple k val ls" "fits_gross k (state_gross val s + lines_gross val ls)"
  shows "ledger_inv k val s' \<and> (held_in f s' \<longrightarrow> ledger_inv_ccy f val s')"
proof -
  from post_accepted [OF inv(1) bal bounds] post
  have eff: "post_effect k val c ls (balances s) (balances s')"
    by (metis res.inject(1))
  from post_frame [OF post] have fr: "entries s' = bt_insert i ls (entries s)"
    "reversed s' = reversed s" "capitalization s' = capitalization s" by auto
  have wf: "bt_wf (entries s)" using inv(1) by (simp add: ledger_inv_def)
  have "ledger_inv_ccy f val s'" if h: "held_in f s'"
    using held_in_mono [OF wf fresh fr(1) h] inv ledger_inv_ccy_post [OF inv(1) _ fresh bal _ eff fr(1)]
    by blast
  with ledger_inv_post [OF inv(1) fresh bal eff fr] show ?thesis by blast
qed

lemma inv_start: "ledger_inv k val ledger_default \<and> ledger_inv_ccy f val ledger_default"
  by (simp add: ledger_inv_def ledger_inv_ccy_def ledger_default_def balances_ok_def gross_def
      state_gross_def state_total_def currency_total_def balance_value_def account_currency_def
      bt_contains_def is_reversed_def)

lemma inv_reverse:
  assumes "ledger_inv k val s" "bt_contains (entries s) e"
  shows "ledger_inv k val (s\<lparr>reversed := bs_insert e (reversed s)\<rparr>)"
  using assms by (auto simp: ledger_inv_def is_reversed_def state_gross_def)

lemma history_inv:
  "ledger_history D h s \<Longrightarrow> in_bounds k val s \<Longrightarrow>
   ledger_inv k val s \<and> (held_in f s \<longrightarrow> ledger_inv_ccy f val s)"
proof (induction rule: ledger_history.induct)
  case start
  then show ?case using inv_start by blast
next
  case (step h s i cmd now evs s')
  have wf: "bt_wf (entries s)" using history_wf [OF step.hyps(1)] by simp
  from step.hyps(3,4) show ?case
  proof (cases rule: accepted_cases)
    case (posted ls dims)
    have e: "entries s' = bt_insert i ls (entries s)" using post_frame [OF posted(4)] by simp
    from in_bounds_mono [OF wf step.hyps(2) e step.prems]
    have b: "in_bounds k val s" "lines_multiple k val ls"
      "fits_gross k (state_gross val s + lines_gross val ls)" by auto
    have "fits_gross k (lines_gross val ls)"
      by (rule fits_gross_mono [OF b(3)]) (auto simp: state_gross_def intro!: sum_list_nonneg)
    with handle_post_Ok_iff [OF b(2)] posted(2) obtain c where "balanced_entry val c ls" by auto
    with step.IH [OF b(1)] post_keeps [OF _ _ step.hyps(2) _ posted(4) b(2,3)] show ?thesis by blast
  next
    case (reversed e r ls s1)
    have en: "entries s1 = bt_insert i (mirror ls) (entries s)" using post_frame [OF reversed(5)] by simp
    have ib: "in_bounds k val s1" using step.prems reversed(6)
      by (simp add: in_bounds_def state_gross_def)
    from in_bounds_mono [OF wf step.hyps(2) en ib]
    have b: "in_bounds k val s" "lines_multiple k val (mirror ls)"
      "fits_gross k (state_gross val s + lines_gross val (mirror ls))" by auto
    from step.IH [OF b(1)] reversed(3) obtain c where "balanced_entry val c ls"
      unfolding ledger_inv_def by blast
    then have "balanced_entry val c (mirror ls)" by (rule mirror_balanced)
    with step.IH [OF b(1)] post_keeps [OF _ _ step.hyps(2) _ reversed(5) b(2,3)]
    have i: "ledger_inv k val s1" "held_in f s1 \<longrightarrow> ledger_inv_ccy f val s1" by blast+
    have "bt_contains (entries s1) e" using en wf reversed(3) by (simp add: bt_contains_def)
    from inv_reverse [OF i(1) this] i(2) reversed(6) show ?thesis
      by (simp add: held_in_def ledger_inv_ccy_def state_total_def)
  next
    case (capitalized run old to p)
    with step.prems step.IH show ?thesis
      by (simp add: in_bounds_def ledger_inv_def ledger_inv_ccy_def state_gross_def state_total_def
          held_in_def is_reversed_def)
  qed
qed

text \<open>The trial balance adds up the balances of a currency without rounding.\<close>

lemma add_or_keep_same:
  "currency acc = currency m \<Longrightarrow> add_or_keep D acc m =
    res_bind (dec_add D (amount acc) (amount m)) (\<lambda>x. Ok (money_new x (currency acc)))"
  by (cases "checked_add D (amount acc) (amount m)")
     (simp_all add: add_or_keep_def money_add_same dec_add_def)

lemma add_or_keep_fold:
  assumes "\<forall>m\<in>set ms. currency m = c \<and> multiple k (val (amount m))" "currency acc = c"
    "multiple k (val (amount acc))"
    "fits_gross k (\<bar>val (amount acc)\<bar> + (\<Sum>m\<leftarrow>ms. \<bar>val (amount m)\<bar>))"
  shows "\<exists>t. res_fold (\<lambda>m acc. add_or_keep D acc m) ms acc = (Ok t :: ('e, 'd money) res) \<and>
    currency t = c \<and> val (amount t) = val (amount acc) + (\<Sum>m\<leftarrow>ms. val (amount m))"
  using assms
proof (induction ms arbitrary: acc)
  case (Cons m ms)
  have n: "0 \<le> (\<Sum>m\<leftarrow>ms. \<bar>val (amount m)\<bar>)" by (rule sum_list_nonneg) auto
  have fg: "fits_gross k \<bar>val (amount acc) + val (amount m)\<bar>"
    by (rule fits_gross_mono [OF Cons.prems(4)]) (use n in auto)
  obtain x where x: "dec_add D (amount acc) (amount m) = (Ok x :: ('e, 'd) res)"
    "val x = val (amount acc) + val (amount m)"
    using dec_add_gross [OF Cons.prems(3) _ fg] Cons.prems(1) by (metis list.set_intros(1))
  have "fits_gross k (\<bar>val x\<bar> + (\<Sum>m\<leftarrow>ms. \<bar>val (amount m)\<bar>))"
    by (rule fits_gross_mono [OF Cons.prems(4)]) (use x in auto)
  with Cons.IH [of "money_new x c"] Cons.prems x show ?case
    by (auto simp: add_or_keep_same)
qed auto

lemma sum_list_filter_if: "(\<Sum>x\<leftarrow>filter P xs. f x) = (\<Sum>x\<leftarrow>xs. if P x then f x else (0::rat))"
  by (induction xs) auto

lemma trial_balance_value:
  assumes "balances_ok k val (balances s)" "fits_gross k (gross val (balances s))"
  shows "\<exists>t. trial_balance D s c = (Ok t :: ('e, 'd money) res) \<and> currency t = c \<and>
    val (amount t) = currency_total val c (balances s)"
proof -
  let ?ms = "filter (\<lambda>m. currency m = c) (bt_values (balances s))"
  have sum: "(\<Sum>m\<leftarrow>?ms. g m) = (\<Sum>(a, m)\<leftarrow>balances s. if currency m = c then g m else 0)" for g :: "_ \<Rightarrow> rat"
    by (simp add: sum_list_filter_if bt_values_def comp_def case_prod_unfold)
  have "(\<Sum>m\<leftarrow>?ms. \<bar>val (amount m)\<bar>) \<le> gross val (balances s)"
    unfolding sum gross_def by (rule sum_list_mono) auto
  then have f: "fits_gross k (\<bar>val (amount (money_zero D c))\<bar> + (\<Sum>m\<leftarrow>?ms. \<bar>val (amount m)\<bar>))"
    by (intro fits_gross_mono [OF assms(2)]) simp
  have "\<forall>m\<in>set ?ms. currency m = c \<and> multiple k (val (amount m))"
    using assms(1) by (auto simp: balances_ok_def bt_values_def btm.entries_iff)
  from add_or_keep_fold [OF this _ _ f] show ?thesis
    by (auto simp: trial_balance_def currency_total_def sum)
qed

end

section \<open>The log of a history\<close>

text \<open>The identifiers a log reverses, in order, and the capitalization moves of a run.\<close>

fun reversals :: "'d ledger_event list \<Rightarrow> EntryId list" where
  "reversals [] = []"
| "reversals (EntryReversed e i r # h) = e # reversals h"
| "reversals (_ # h) = reversals h"

fun cap_moves :: "RunId \<Rightarrow> 'd ledger_event list \<Rightarrow> (CapitalizationStatus \<times> CapitalizationStatus) list" where
  "cap_moves run [] = []"
| "cap_moves run (CapitalizationStatusChanged r c d p # h) =
     (if r = run then (c, d) # cap_moves run h else cap_moves run h)"
| "cap_moves run (_ # h) = cap_moves run h"

fun cap_chain :: "CapitalizationStatus \<Rightarrow> (CapitalizationStatus \<times> CapitalizationStatus) list
    \<Rightarrow> CapitalizationStatus \<Rightarrow> bool" where
  "cap_chain c [] e \<longleftrightarrow> c = e"
| "cap_chain c ((b, d) # ms) e \<longleftrightarrow> b = c \<and> b \<noteq> d \<and> cap_chain d ms e"

definition current_cap :: "'d ledger_state \<Rightarrow> RunId \<Rightarrow> CapitalizationStatus" where
  "current_cap s run = (case capitalization_status s run of Some c \<Rightarrow> c | None \<Rightarrow> PendingReview)"

lemma reversals_append [simp]: "reversals (h @ h') = reversals h @ reversals h'"
  by (induction h rule: reversals.induct) auto

lemma cap_moves_append [simp]: "cap_moves run (h @ h') = cap_moves run h @ cap_moves run h'"
  by (induction run h rule: cap_moves.induct) auto

lemma cap_chain_append:
  "cap_chain c (ms @ ms') e \<longleftrightarrow> (\<exists>d. cap_chain c ms d \<and> cap_chain d ms' e)"
  by (induction ms arbitrary: c) auto

lemma history_cap: "ledger_history D h s \<Longrightarrow> cap_chain PendingReview (cap_moves run h) (current_cap s run)"
proof (induction rule: ledger_history.induct)
  case (step h s i cmd now evs s')
  have wf: "bt_wf (capitalization s)" using history_wf [OF step.hyps(1)] by simp
  from step.hyps(3,4) have "cap_chain (current_cap s run) (cap_moves run evs) (current_cap s' run)"
    by (cases rule: accepted_cases)
       (use wf in \<open>auto dest!: post_frame simp: current_cap_def capitalization_status_def\<close>)
  with step.IH show ?case by (auto simp: cap_chain_append)
qed (simp add: current_cap_def capitalization_status_def ledger_default_def)

lemma history_log:
  "ledger_history D h s \<Longrightarrow> replay D h = (Ok s :: (unit, 'd ledger_state) res) \<and> distinct (reversals h) \<and>
    (\<forall>e. is_reversed s e \<longleftrightarrow> e \<in> set (reversals h))"
proof (induction rule: ledger_history.induct)
  case start
  then show ?case by (simp add: replay_def replay_from_def ledger_default_def is_reversed_def)
next
  case (step h s i cmd now evs s')
  have "replay D (h @ evs) = (Ok s' :: (unit, 'd ledger_state) res)"
    using step.IH step.hyps(4) by (simp add: replay_def replay_append)
  moreover have wf: "bt_wf (reversed s)" using history_wf [OF step.hyps(1)] by simp
  have d: "distinct (reversals h)" and r: "bs_contains (reversed s) e \<longleftrightarrow> e \<in> set (reversals h)" for e
    using step.IH by (auto simp: is_reversed_def)
  from step.hyps(3,4) have "distinct (reversals (h @ evs)) \<and>
      (\<forall>e. is_reversed s' e \<longleftrightarrow> e \<in> set (reversals (h @ evs)))"
  proof (cases rule: accepted_cases)
    case (posted ls dims)
    with d r post_frame [OF posted(4)] show ?thesis by (simp add: is_reversed_def)
  next
    case (reversed e q ls s1)
    with d r wf post_frame [OF reversed(5)] show ?thesis by (auto simp: is_reversed_def)
  next
    case capitalized
    with d r show ?thesis by (simp add: is_reversed_def)
  qed
  ultimately show ?case by blast
qed

lemma history_reversed_known:
  "ledger_history D h s \<Longrightarrow> is_reversed s e \<Longrightarrow> bt_contains (entries s) e"
proof (induction arbitrary: e rule: ledger_history.induct)
  case (step h s i cmd now evs s')
  have wf: "bt_wf (entries s)" "bt_wf (reversed s)" using history_wf [OF step.hyps(1)] by auto
  from step.hyps(3,4) show ?case
    by (cases rule: accepted_cases)
       (use wf step.IH step.prems in \<open>auto dest!: post_frame simp: is_reversed_def bt_contains_def\<close>)
qed (simp add: is_reversed_def ledger_default_def)

lemma apply_keeps_reversed:
  assumes "apply_event D s ev = Ok s'" "bt_wf (entries s)" "bt_wf (reversed s)"
    "is_reversed s e" "bt_contains (entries s) e"
  shows "bt_wf (entries s') \<and> bt_wf (reversed s') \<and> is_reversed s' e \<and> bt_contains (entries s') e"
  using assms by (cases ev) (auto dest!: post_frame simp: is_reversed_def split: option.splits)

lemma replay_keeps_reversed:
  assumes "replay_from D s evs = Ok s'" "bt_wf (entries s)" "bt_wf (reversed s)"
    "is_reversed s e" "bt_contains (entries s) e"
  shows "is_reversed s' e \<and> bt_contains (entries s') e"
  using res_fold_invariant [OF assms(1) [unfolded replay_from_def],
      of "\<lambda>s. bt_wf (entries s) \<and> bt_wf (reversed s) \<and> is_reversed s e \<and> bt_contains (entries s) e"]
    assms apply_keeps_reversed by blast

end
