(* ===== verification/Decimal_Ref.thy ===== *)
theory Decimal_Ref
  imports Decimal Rust_String
begin

text \<open>
  A concrete provider of the \<open>Decimal\<close> interface: a mantissa and a scale, as the
  documentation of \<open>rust_decimal\<close> describes the format. It is not the crate's code,
  which is not in the repository; it is the value the witnesses of the development
  put in for the parameter, and it proves that the laws can hold together.
\<close>

section \<open>Mantissa and scale\<close>

datatype refdec = Dec (mant: int) (scale: nat)

definition ref_val :: "refdec \<Rightarrow> rat" where
  "ref_val d = of_int (mant d) / 10 ^ scale d"

text \<open>Integer division under a rounding strategy, for a positive divisor.\<close>

definition div_half :: "(int \<Rightarrow> int) \<Rightarrow> int \<Rightarrow> int \<Rightarrow> int" where
  "div_half tie m n =
     (let f = m div n; r = m mod n
      in if 2 * r < n then f else if 2 * r > n then f + 1 else tie f)"

fun div_round :: "rounding_strategy \<Rightarrow> int \<Rightarrow> int \<Rightarrow> int" where
  "div_round MidpointNearestEven m n = div_half (\<lambda>f. if even f then f else f + 1) m n"
| "div_round MidpointAwayFromZero m n = div_half (\<lambda>f. if m \<ge> 0 then f + 1 else f) m n"
| "div_round MidpointTowardZero m n = div_half (\<lambda>f. if m \<ge> 0 then f else f + 1) m n"
| "div_round ToZero m n = (if m \<ge> 0 then m div n else - ((- m) div n))"
| "div_round AwayFromZero m n = (if m \<ge> 0 then - ((- m) div n) else m div n)"
| "div_round ToNegativeInfinity m n = m div n"
| "div_round ToPositiveInfinity m n = - ((- m) div n)"

lemma round_half_div:
  assumes "0 < n"
  shows "round_half tie (of_int m / of_int n) = div_half tie m n"
proof -
  have f: "\<lfloor>(of_int m / of_int n :: rat)\<rfloor> = m div n" by (simp add: floor_divide_of_int_eq)
  have "of_int m = (of_int (m div n) * of_int n + of_int (m mod n) :: rat)"
    by (metis div_mult_mod_eq of_int_add of_int_mult)
  then have r: "(of_int m / of_int n :: rat) - of_int (m div n) = of_int (m mod n) / of_int n"
    using assms by (simp add: field_simps)
  have "(of_int (m mod n) / of_int n < (1 / 2 :: rat)) = (2 * (m mod n) < n)"
    "(of_int (m mod n) / of_int n > (1 / 2 :: rat)) = (2 * (m mod n) > n)"
    using assms by (simp_all add: field_simps flip: of_int_mult) linarith+
  then show ?thesis by (simp only: round_half_def div_half_def Let_def f r)
qed

lemma ceiling_div: "0 < n \<Longrightarrow> \<lceil>(of_int m / of_int n :: rat)\<rceil> = - ((- m) div n)"
  by (simp add: ceiling_divide_eq_div)

lemma round_int_div:
  assumes "0 < n"
  shows "round_int st (of_int m / of_int n) = div_round st m n"
  using assms
  by (cases st) (simp_all add: round_half_div floor_divide_of_int_eq ceiling_div zero_le_divide_iff)

declare div_round.simps [simp del]

section \<open>Fitting an exact result into 96 bits and 28 digits\<close>

definition fits :: "int \<Rightarrow> nat \<Rightarrow> bool" where
  "fits m s \<longleftrightarrow> \<bar>m\<bar> \<le> 79228162514264337593543950335 \<and> s \<le> 28"

text \<open>Drop as few digits as needed, rounding half to even; \<open>None\<close> on overflow.\<close>

definition fit :: "int \<Rightarrow> nat \<Rightarrow> refdec option" where
  "fit m s =
     (if fits m s then Some (Dec m s)
      else map_option (\<lambda>k. Dec (div_round MidpointNearestEven m (10 ^ k)) (s - k))
        (find (\<lambda>k. fits (div_round MidpointNearestEven m (10 ^ k)) (s - k)) [0..<Suc s]))"

lemma div_round_exact: "0 < n \<Longrightarrow> div_round st (m * n) n = m"
  using round_int_div [of n st "m * n"] by simp

text \<open>A value with a representation does not need more digits than that one has.\<close>

lemma shrunk_mantissa:
  assumes "m * 10 ^ k = m' * 10 ^ s" "\<bar>m'\<bar> \<le> max_mantissa" "k \<le> 28" "\<not> fits m s"
  shows "k < s" "m = m' * 10 ^ (s - k)"
proof -
  show ks: "k < s"
  proof (rule ccontr)
    assume "\<not> k < s"
    then have "10 ^ k = 10 ^ (k - s) * (10::int) ^ s" by (simp flip: power_add)
    with assms(1) have m': "m' = m * 10 ^ (k - s)"
      by (metis mult.assoc mult_cancel_right power_not_zero zero_neq_numeral)
    have "\<bar>m\<bar> * 1 \<le> \<bar>m\<bar> * 10 ^ (k - s)" by (rule mult_left_mono) auto
    then have "\<bar>m\<bar> \<le> \<bar>m'\<bar>" by (simp add: m' abs_mult)
    with assms(2-4) \<open>\<not> k < s\<close> show False by (auto simp: fits_def max_mantissa_def)
  qed
  have "10 ^ s = 10 ^ (s - k) * (10::int) ^ k" using ks by (simp flip: power_add)
  with assms(1) have "m * 10 ^ k = (m' * 10 ^ (s - k)) * 10 ^ k" by (simp add: mult.assoc)
  then show "m = m' * 10 ^ (s - k)" by simp
qed

lemma fit_exact:
  assumes "representable (of_int m / 10 ^ s)"
  shows "\<exists>c. fit m s = Some c \<and> ref_val c = of_int m / 10 ^ s"
proof -
  from assms obtain k m' where k: "k \<le> 28" "of_int m / 10 ^ s = (of_int m' / 10 ^ k :: rat)"
    "\<bar>m'\<bar> \<le> max_mantissa"
    by (auto simp: representable_def on_grid_def)
  then have "(of_int (m * 10 ^ k) :: rat) = of_int (m' * 10 ^ s)" by (simp add: field_simps)
  then have e: "m * 10 ^ k = m' * 10 ^ s" by (simp only: of_int_eq_iff)
  show ?thesis
  proof (cases "fits m s")
    case True
    then show ?thesis by (simp add: fit_def ref_val_def)
  next
    case nf: False
    define d where "d = s - k"
    have ks: "k < s" and m: "m = m' * 10 ^ d"
      using shrunk_mantissa [OF e k(3,1) nf] by (simp_all add: d_def)
    let ?P = "\<lambda>k. fits (div_round MidpointNearestEven m (10 ^ k)) (s - k)"
    have pd: "?P d"
      using k ks m by (simp add: div_round_exact fits_def max_mantissa_def d_def)
    have "d \<in> set [0..<Suc s]" by (simp add: d_def less_Suc_eq_le del: upt_Suc)
    with pd obtain j where j: "find ?P [0..<Suc s] = Some j"
      by (metis find_None_iff2 not_None_eq)
    have jd: "j \<le> d"
    proof (rule ccontr)
      assume "\<not> j \<le> d"
      moreover from j obtain i where "i < Suc s" "j = [0..<Suc s] ! i" "\<forall>l<i. \<not> ?P ([0..<Suc s] ! l)"
        by (auto simp: find_Some_iff simp del: upt_Suc)
      ultimately show False using pd by (auto simp del: upt_Suc)
    qed
    have mj: "m = m' * 10 ^ (d - j) * 10 ^ j"
      using m jd by (simp add: mult.assoc flip: power_add)
    have dj: "div_round MidpointNearestEven m (10 ^ j) = m' * 10 ^ (d - j)"
      using mj div_round_exact [of "10 ^ j" MidpointNearestEven "m' * 10 ^ (d - j)"] by simp
    have js: "10 ^ s = (10::rat) ^ j * 10 ^ (s - j)"
      using jd by (simp add: d_def flip: power_add)
    have "of_int m / 10 ^ s = (of_int (m' * 10 ^ (d - j)) / 10 ^ (s - j) :: rat)"
      by (subst mj) (simp add: js)
    then show ?thesis using nf j by (simp add: fit_def dj ref_val_def)
  qed
qed

section \<open>The operations\<close>

definition ref_add :: "refdec \<Rightarrow> refdec \<Rightarrow> refdec option" where
  "ref_add a b = (let s = max (scale a) (scale b)
     in fit (mant a * 10 ^ (s - scale a) + mant b * 10 ^ (s - scale b)) s)"

definition ref_neg :: "refdec \<Rightarrow> refdec" where
  "ref_neg a = Dec (- mant a) (scale a)"

definition ref_mul :: "refdec \<Rightarrow> refdec \<Rightarrow> refdec option" where
  "ref_mul a b = fit (mant a * mant b) (scale a + scale b)"

text \<open>Twenty-eight digits of the quotient, then as many as fit.\<close>

definition ref_div :: "refdec \<Rightarrow> refdec \<Rightarrow> refdec option" where
  "ref_div a b =
     (let n = mant a * 10 ^ scale b; d = mant b * 10 ^ scale a
      in if d = 0 then None
         else fit (div_round MidpointNearestEven (n * 10 ^ 28 * sgn d) \<bar>d\<bar>) 28)"

definition ref_cmp :: "refdec \<Rightarrow> refdec \<Rightarrow> ordering" where
  "ref_cmp a b = cmp_of (mant a * 10 ^ scale b) (mant b * 10 ^ scale a)"

definition ref_round :: "nat \<Rightarrow> rounding_strategy \<Rightarrow> refdec \<Rightarrow> refdec" where
  "ref_round dp st a =
     (if scale a \<le> dp then a else Dec (div_round st (mant a) (10 ^ (scale a - dp))) dp)"

text \<open>Reading and writing the decimal notation.\<close>

definition ref_show :: "refdec \<Rightarrow> string" where
  "ref_show d =
     (let ds = show_nat (nat \<bar>mant d\<bar>);
          padded = replicate (Suc (scale d) - length ds) (CHR ''0'') @ ds;
          k = length padded - scale d;
          body = take k padded @ (if scale d = 0 then [] else CHR ''.'' # drop k padded)
      in (if mant d < 0 then CHR ''-'' # body else body))"

definition read_unsigned :: "string \<Rightarrow> refdec option" where
  "read_unsigned s =
     (case split_once (CHR ''.'') s of
        None \<Rightarrow> if s = [] then None else map_option (\<lambda>m. Dec m 0) (read_digits s 0)
      | Some (l, r) \<Rightarrow>
          if l = [] \<and> r = [] then None
          else map_option (\<lambda>m. Dec m (length r)) (read_digits (l @ r) 0))"

definition ref_read :: "string \<Rightarrow> refdec option" where
  "ref_read s =
     (case (case s of [] \<Rightarrow> None
            | c # cs \<Rightarrow> if c = CHR ''-'' then map_option ref_neg (read_unsigned cs)
                        else if c = CHR ''+'' then read_unsigned cs else read_unsigned s) of
        None \<Rightarrow> None
      | Some d \<Rightarrow> if fits (mant d) (scale d) then Some d else None)"

definition ref_ops :: "refdec decimal_ops" where
  "ref_ops = \<lparr>dec_zero = Dec 0 0, dec_one = Dec 1 0,
     checked_add = ref_add, checked_sub = (\<lambda>a b. ref_add a (ref_neg b)),
     checked_mul = ref_mul, checked_div = ref_div,
     dec_neg = ref_neg, dec_abs = (\<lambda>a. Dec \<bar>mant a\<bar> (scale a)),
     dec_cmp = ref_cmp, is_zero = (\<lambda>a. mant a = 0), is_sign_negative = (\<lambda>a. mant a < 0),
     round_dp_with_strategy = ref_round,
     dec_new = (\<lambda>m s. if s \<le> 28 then Some (Dec m s) else None),
     dec_from_int = (\<lambda>m. Dec m 0),
     dec_parse = ref_read, dec_from_str_exact = ref_read, dec_to_string = ref_show\<rparr>"

section \<open>The laws hold\<close>

lemma ref_val_neg [simp]: "ref_val (ref_neg a) = - ref_val a"
  by (simp add: ref_val_def ref_neg_def)

lemma ref_val_scale_up:
  "scale a \<le> s \<Longrightarrow> (of_int (mant a * 10 ^ (s - scale a)) :: rat) / 10 ^ s = ref_val a"
proof -
  assume "scale a \<le> s"
  then have "(10::rat) ^ s = 10 ^ (s - scale a) * 10 ^ scale a" by (simp flip: power_add)
  then show ?thesis by (simp add: ref_val_def)
qed

lemma ref_add_exact:
  assumes "representable (ref_val a + ref_val b)"
  shows "\<exists>c. ref_add a b = Some c \<and> ref_val c = ref_val a + ref_val b"
proof -
  let ?s = "max (scale a) (scale b)"
  let ?m = "mant a * 10 ^ (?s - scale a) + mant b * 10 ^ (?s - scale b)"
  have v: "of_int ?m / 10 ^ ?s = ref_val a + ref_val b"
    using ref_val_scale_up [of a ?s] ref_val_scale_up [of b ?s]
    by (simp add: add_divide_distrib)
  from assms have "representable (of_int ?m / 10 ^ ?s)" by (simp only: v)
  from fit_exact [OF this] show ?thesis by (simp only: ref_add_def Let_def v)
qed

lemma ref_mul_exact:
  assumes "representable (ref_val a * ref_val b)"
  shows "\<exists>c. ref_mul a b = Some c \<and> ref_val c = ref_val a * ref_val b"
proof -
  have v: "of_int (mant a * mant b) / 10 ^ (scale a + scale b) = ref_val a * ref_val b"
    by (simp add: ref_val_def power_add)
  from assms have "representable (of_int (mant a * mant b) / 10 ^ (scale a + scale b))"
    by (simp only: v)
  from fit_exact [OF this] show ?thesis by (simp only: ref_mul_def v)
qed

lemma representable_scaled_int:
  assumes "representable q"
  shows "\<exists>j. q * 10 ^ 28 = of_int j"
proof -
  from assms obtain k m where k: "k \<le> 28" "q = of_int m / 10 ^ k"
    by (auto simp: representable_def on_grid_def)
  have e: "(10::rat) ^ 28 = 10 ^ (28 - k) * 10 ^ k" using k(1) by (subst power_add [symmetric]) simp
  have "q * 10 ^ 28 = of_int m / 10 ^ k * (10 ^ (28 - k) * 10 ^ k)" by (simp only: k(2) e)
  also have "\<dots> = of_int (m * 10 ^ (28 - k))" by simp
  finally show ?thesis by blast
qed

lemma ref_div_exact:
  assumes "ref_val b \<noteq> 0" "representable (ref_val a / ref_val b)"
  shows "\<exists>c. ref_div a b = Some c \<and> ref_val c = ref_val a / ref_val b"
proof -
  define n where "n = mant a * 10 ^ scale b"
  define d where "d = mant b * 10 ^ scale a"
  have d0: "d \<noteq> 0" using assms(1) by (simp add: d_def ref_val_def)
  have q: "ref_val a / ref_val b = of_int n / of_int d"
    by (simp add: n_def d_def ref_val_def field_simps)
  obtain j where j: "ref_val a / ref_val b * 10 ^ 28 = of_int j"
    using representable_scaled_int [OF assms(2)] by blast
  then have "(of_int (n * 10 ^ 28) :: rat) = of_int (j * d)"
    using d0 by (simp add: q field_simps)
  then have "n * 10 ^ 28 = j * d" by (simp only: of_int_eq_iff)
  then have "n * 10 ^ 28 * sgn d = j * \<bar>d\<bar>" by (simp add: abs_sgn mult.assoc)
  then have r: "div_round MidpointNearestEven (n * 10 ^ 28 * sgn d) \<bar>d\<bar> = j"
    using d0 by (simp add: div_round_exact)
  have v: "of_int j / 10 ^ 28 = ref_val a / ref_val b" using j by (simp add: field_simps)
  from assms(2) have "representable (of_int j / 10 ^ 28)" by (simp only: v)
  have "ref_div a b = fit j 28"
    using d0 by (simp only: ref_div_def Let_def r if_False flip: n_def d_def)
  with fit_exact [OF \<open>representable (of_int j / 10 ^ 28)\<close>] show ?thesis by (simp only: v)
qed

lemma ref_cmp_val: "ref_cmp a b = cmp_of (ref_val a) (ref_val b)"
proof -
  have "(of_int (mant a * 10 ^ scale b) :: rat) < of_int (mant b * 10 ^ scale a) \<longleftrightarrow> ref_val a < ref_val b"
    "(of_int (mant a * 10 ^ scale b) :: rat) = of_int (mant b * 10 ^ scale a) \<longleftrightarrow> ref_val a = ref_val b"
    by (simp_all add: ref_val_def field_simps)
  then show ?thesis
    by (simp only: ref_cmp_def cmp_of_def of_int_less_iff of_int_eq_iff)
qed

lemma ref_round_val: "ref_val (ref_round dp st a) = round_rat st dp (ref_val a)"
proof (cases "scale a \<le> dp")
  case True
  then have "ref_val a * 10 ^ dp = of_int (mant a * 10 ^ (dp - scale a))"
    using ref_val_scale_up [of a dp] by (simp add: field_simps)
  then have "round_rat st dp (ref_val a) = of_int (mant a * 10 ^ (dp - scale a)) / 10 ^ dp"
    by (simp only: round_rat_def round_int_of_int)
  with True show ?thesis by (simp only: ref_val_scale_up ref_round_def if_True)
next
  case False
  then have "(10::rat) ^ scale a = 10 ^ (scale a - dp) * 10 ^ dp" by (simp flip: power_add)
  then have "ref_val a * 10 ^ dp = of_int (mant a) / of_int (10 ^ (scale a - dp))"
    by (simp add: ref_val_def)
  then have "round_int st (ref_val a * 10 ^ dp) = div_round st (mant a) (10 ^ (scale a - dp))"
    by (simp only: round_int_div zero_less_power zero_less_numeral)
  with False show ?thesis by (simp add: round_rat_def ref_round_def ref_val_def)
qed

interpretation refd: decimal_laws ref_ops ref_val
proof unfold_locales
  fix a b :: refdec
  show "ref_val (dec_zero ref_ops) = 0" "ref_val (dec_one ref_ops) = 1"
    "ref_val (dec_neg ref_ops a) = - ref_val a" "ref_val (dec_abs ref_ops a) = \<bar>ref_val a\<bar>"
    "is_zero ref_ops a = (ref_val a = 0)"
    by (simp_all add: ref_ops_def ref_val_def ref_neg_def abs_divide)
  show "dec_cmp ref_ops a b = cmp_of (ref_val a) (ref_val b)"
    by (simp add: ref_ops_def ref_cmp_val)
  show "is_sign_negative ref_ops a = (ref_val a < 0)"
    by (simp add: ref_ops_def ref_val_def divide_less_0_iff)
  show "representable (ref_val a + ref_val b) \<Longrightarrow>
      \<exists>c. checked_add ref_ops a b = Some c \<and> ref_val c = ref_val a + ref_val b"
    by (simp add: ref_ops_def ref_add_exact)
  show "representable (ref_val a - ref_val b) \<Longrightarrow>
      \<exists>c. checked_sub ref_ops a b = Some c \<and> ref_val c = ref_val a - ref_val b"
    using ref_add_exact [of a "ref_neg b"] by (simp add: ref_ops_def)
  show "representable (ref_val a * ref_val b) \<Longrightarrow>
      \<exists>c. checked_mul ref_ops a b = Some c \<and> ref_val c = ref_val a * ref_val b"
    by (simp add: ref_ops_def ref_mul_exact)
  show "ref_val b \<noteq> 0 \<Longrightarrow> representable (ref_val a / ref_val b) \<Longrightarrow>
      \<exists>c. checked_div ref_ops a b = Some c \<and> ref_val c = ref_val a / ref_val b"
    by (simp add: ref_ops_def ref_div_exact)
  show "ref_val b = 0 \<Longrightarrow> checked_div ref_ops a b = None"
    by (simp add: ref_ops_def ref_div_def ref_val_def Let_def)
  show "ref_val (round_dp_with_strategy ref_ops dp st a) = round_rat st dp (ref_val a)" for dp st
    by (simp add: ref_ops_def ref_round_val)
  show "s \<le> 28 \<Longrightarrow> \<bar>m\<bar> < 2 ^ 63 \<Longrightarrow> \<exists>c. dec_new ref_ops m s = Some c \<and> ref_val c = of_int m / 10 ^ s" for m s
    by (simp add: ref_ops_def ref_val_def)
  show "\<bar>m\<bar> < 2 ^ 64 \<Longrightarrow> ref_val (dec_from_int ref_ops m) = of_int m" for m
    by (simp add: ref_ops_def ref_val_def)
qed

text \<open>Evaluation of concrete amounts by the simplifier, for the witnesses.\<close>

lemmas ref_eval = ref_ops_def ref_add_def ref_neg_def ref_mul_def ref_div_def ref_cmp_def
  ref_round_def fit_def fits_def div_round.simps div_half_def cmp_of_def upt_rec

text \<open>The laws as one fact, for the witnesses.\<close>

lemma ref_laws: "decimal_laws ref_ops ref_val"
  by (rule refd.decimal_laws_axioms)

end
