(* ===== verification/Ledger_Example.thy ===== *)
theory Ledger_Example
  imports Ledger_Reach Decimal_Ref
begin

text \<open>
  A concrete ledger at which the properties are instantiated: one entry posted between
  two accounts, its reversal, and an entry posted in a second currency to an account
  already held in the first.
\<close>

definition cash :: AccountId where "cash = AccountId 1"
definition training :: AccountId where "training = AccountId 2"

definition usd :: "int \<Rightarrow> refdec money" where "usd c = \<lparr>amount = Dec c 2, currency = Usd\<rparr>"
definition eur :: "int \<Rightarrow> refdec money" where "eur c = \<lparr>amount = Dec c 2, currency = Eur\<rparr>"

definition gpu_bill :: "refdec journal_line list" where
  "gpu_bill = [journal_line_debit training (usd 1050), journal_line_credit cash (usd 1050)]"

definition eur_bill :: "refdec journal_line list" where
  "eur_bill = [journal_line_debit training (eur 700), journal_line_credit (AccountId 3) (eur 700)]"

definition no_dims :: dimensions where "no_dims = dimensions_new (TenantId 1) (ProjectId 2) (TeamId 3) (ProviderId 4) RnD"

definition after_post :: "refdec ledger_state" where
  "after_post = \<lparr>balances = [(cash, usd (- 1050)), (training, usd 1050)],
     entries = [(EntryId 10, gpu_bill)], reversed = [], capitalization = []\<rparr>"

definition after_reversal :: "refdec ledger_state" where
  "after_reversal = \<lparr>balances = [(cash, usd 0), (training, usd 0)],
     entries = [(EntryId 10, gpu_bill), (EntryId 11, mirror gpu_bill)],
     reversed = [(EntryId 10, ())], capitalization = []\<rparr>"

definition after_eur :: "refdec ledger_state" where
  "after_eur = \<lparr>balances = [(cash, usd (- 1050)), (training, usd 1050), (AccountId 3, eur (- 700))],
     entries = [(EntryId 10, gpu_bill), (EntryId 12, eur_bill)], reversed = [], capitalization = []\<rparr>"

lemmas bill_defs = gpu_bill_def eur_bill_def cash_def training_def usd_def eur_def
  journal_line_debit_def journal_line_credit_def

lemmas ledger_step_defs = handle_post_def tally_line_def line_validate_def money_zero_def money_add_def
  same_currency_def dec_add_def money_new_def money_eq_def dec_eq_def post_def post_line_def
  signed_amount_def money_negate_def bt_contains_def is_reversed_def bs_contains_def bs_insert_def
  mirror_def id_order_defs

lemma gpu_bill_accepted:
  "handle_command ref_ops s (PostJournalEntry gpu_bill d) i now = Ok [JournalEntryPosted i gpu_bill d now]"
  by (simp add: bill_defs ledger_step_defs ref_eval)

lemma eur_bill_accepted:
  "handle_command ref_ops s (PostJournalEntry eur_bill d) i now = Ok [JournalEntryPosted i eur_bill d now]"
  by (simp add: bill_defs ledger_step_defs ref_eval)

lemma post_gpu_bill: "post ref_ops ledger_default (EntryId 10) gpu_bill = Ok after_post"
  by (simp add: bill_defs ledger_step_defs ref_eval ledger_default_def after_post_def)

lemma post_eur_bill: "post ref_ops after_post (EntryId 12) eur_bill = Ok after_eur"
  by (simp add: bill_defs ledger_step_defs ref_eval after_post_def after_eur_def)

lemma reverse_gpu_bill:
  "apply_event ref_ops after_post (EntryReversed (EntryId 10) (EntryId 11) r) = Ok after_reversal"
  by (simp add: bill_defs ledger_step_defs ref_eval after_post_def after_reversal_def)

lemma history_post:
  "ledger_history ref_ops [JournalEntryPosted (EntryId 10) gpu_bill no_dims 0] after_post"
  using ledger_history.step [OF ledger_history.start _ gpu_bill_accepted, of "EntryId 10" no_dims 0]
  by (simp add: post_gpu_bill) (simp add: ledger_default_def bt_contains_def)

lemma history_reversal:
  "ledger_history ref_ops
     [JournalEntryPosted (EntryId 10) gpu_bill no_dims 0, EntryReversed (EntryId 10) (EntryId 11) ''void'']
     after_reversal"
proof -
  have "handle_command ref_ops after_post (ReverseEntry (EntryId 10) ''void'') (EntryId 11) 0 =
      Ok [EntryReversed (EntryId 10) (EntryId 11) ''void'']" "\<not> bt_contains (entries after_post) (EntryId 11)"
    by (simp_all add: after_post_def ledger_step_defs)
  from ledger_history.step [OF history_post this(2,1)] show ?thesis
    by (simp add: reverse_gpu_bill del: apply_event.simps)
qed

lemma history_eur:
  "ledger_history ref_ops
     [JournalEntryPosted (EntryId 10) gpu_bill no_dims 0, JournalEntryPosted (EntryId 12) eur_bill no_dims 0]
     after_eur"
proof -
  have "\<not> bt_contains (entries after_post) (EntryId 12)" by (simp add: after_post_def bt_contains_def)
  from ledger_history.step [OF history_post this eur_bill_accepted, of no_dims 0] show ?thesis
    by (simp add: post_eur_bill)
qed

lemma multiple_cents [simp]: "multiple 2 (ref_val (Dec m 2))"
  by (auto simp: multiple_def ref_val_def)

lemma bills_multiple: "lines_multiple 2 ref_val gpu_bill" "lines_multiple 2 ref_val (mirror gpu_bill)"
    "lines_multiple 2 ref_val eur_bill"
  by (auto simp: lines_multiple_def bill_defs mirror_def line_value_def)

lemma bills_gross: "lines_gross ref_val gpu_bill = 21" "lines_gross ref_val eur_bill = 14"
  by (simp_all add: bill_defs line_value_def ref_val_def)

lemma after_post_bounds: "in_bounds 2 ref_val after_post"
  using bills_multiple bills_gross
  by (simp add: in_bounds_def after_post_def state_gross_def fits_gross_def max_mantissa_def)

lemma after_reversal_bounds: "in_bounds 2 ref_val after_reversal"
  using bills_multiple bills_gross
  by (simp add: in_bounds_def after_reversal_def state_gross_def fits_gross_def max_mantissa_def)

lemma after_eur_bounds: "in_bounds 2 ref_val after_eur"
  using bills_multiple bills_gross
  by (simp add: in_bounds_def after_eur_def state_gross_def fits_gross_def max_mantissa_def)

lemma after_reversal_held: "held_in (\<lambda>_. Usd) after_reversal"
  by (auto simp: held_in_def after_reversal_def bill_defs mirror_def line_currency_def)

end
