(* ===== verification/Ledger_Properties.thy ===== *)
theory Ledger_Properties
  imports Ledger_Example
begin

text \<open>
  The properties of the ledger (\<open>crates/events/src/ledger.rs\<close>): the double-entry rule, the
  balances as a projection of the posted lines, the trial balance, reversals and the
  capitalization chain, each with a witness on the reference decimals.
\<close>

section \<open>Double entry\<close>

lemma zero_trial_balance:
  assumes "decimal_laws D val" "ledger_inv k val s" "ledger_inv_ccy f val s" "in_bounds k val s"
  shows "\<exists>t. trial_balance D s c = (Ok t :: ('e, 'd money) res) \<and> currency t = c \<and> val (amount t) = 0"
proof -
  from assms(2-4) have "balances_ok k val (balances s)" "fits_gross k (gross val (balances s))"
    "currency_total val c (balances s) = 0"
    by (auto simp: ledger_inv_def ledger_inv_ccy_def in_bounds_def intro: fits_gross_mono)
  moreover from this obtain t where "trial_balance D s c = (Ok t :: ('e, 'd money) res)" "currency t = c"
    "val (amount t) = currency_total val c (balances s)"
    using decimal_laws.trial_balance_value [OF assms(1)] by blast
  ultimately show ?thesis by simp
qed

text \<open>
  C1: in every state the ledger can reach, as long as each account is used in one
  currency and the amounts fit the decimal's mantissa, the trial balance of every
  currency is exactly zero and computing it does not panic.
\<close>

theorem trial_balance_zero:
  assumes "decimal_laws D val" "ledger_history D h s" "in_bounds k val s" "held_in f s"
  shows "\<exists>t. trial_balance D s c = (Ok t :: ('e, 'd money) res) \<and> currency t = c \<and> val (amount t) = 0"
proof -
  from decimal_laws.history_inv [OF assms(1-3), of f] assms(4)
  have "ledger_inv k val s" "ledger_inv_ccy f val s" by auto
  then show ?thesis by (rule zero_trial_balance [OF assms(1) _ _ assms(3)])
qed

theorem trial_balance_zero_witness:
  "\<exists>t. trial_balance ref_ops after_reversal Usd = (Ok t :: (unit, refdec money) res) \<and>
     currency t = Usd \<and> ref_val (amount t) = 0"
  using trial_balance_zero [OF ref_laws history_reversal after_reversal_bounds after_reversal_held] by blast

text \<open>
  C2: the balances are a projection of the log: with each account used in one currency and
  the amounts within the mantissa, the stored balance of an account is the signed sum of
  every line ever posted to it, and its currency is that of those lines.
\<close>

theorem balance_is_projection:
  assumes "decimal_laws D val" "ledger_history D h s" "in_bounds k val s" "held_in f s"
  shows "balance_value val (balances s) a = state_total val a s \<and>
    (\<forall>m. balance s a = Some m \<longrightarrow> currency m = f a \<and> val (amount m) = state_total val a s)"
proof -
  from decimal_laws.history_inv [OF assms(1-3), of f] assms(4)
  have "ledger_inv_ccy f val s" by auto
  then have "account_currency (balances s) a \<in> {None, Some (f a)}"
    "balance_value val (balances s) a = state_total val a s" by (auto simp: ledger_inv_ccy_def)
  then show ?thesis by (auto simp: balance_def account_currency_def balance_value_def)
qed

theorem balance_is_projection_witness:
  "balance_value ref_val (balances after_reversal) cash = state_total ref_val cash after_reversal"
  using balance_is_projection [OF ref_laws history_reversal after_reversal_bounds after_reversal_held, of cash]
  by blast

text \<open>
  C3: a posting is accepted exactly when the entry is not empty, every line has one side,
  all lines share a currency and debits equal credits; it is then accepted unchanged under
  the identifier given.
\<close>

theorem post_accepted_iff_balanced:
  assumes "decimal_laws D val" "lines_multiple k val ls" "fits_gross k (lines_gross val ls)"
  shows "handle_command D s (PostJournalEntry ls dims) i now = Ok evs \<longleftrightarrow>
    (\<exists>c. balanced_entry val c ls) \<and> evs = [JournalEntryPosted i ls dims now]"
  using decimal_laws.handle_post_Ok_iff [OF assms] by simp

theorem post_accepted_iff_balanced_witness:
  "handle_command ref_ops ledger_default (PostJournalEntry gpu_bill no_dims) (EntryId 10) 0 =
     Ok [JournalEntryPosted (EntryId 10) gpu_bill no_dims 0]"
proof -
  have "balanced_entry ref_val Usd gpu_bill"
    by (simp add: balanced_entry_def bill_defs line_currency_def line_value_def)
  with post_accepted_iff_balanced [OF ref_laws bills_multiple(1), of ledger_default no_dims "EntryId 10" 0]
  show ?thesis by (auto simp: bills_gross fits_gross_def max_mantissa_def)
qed

text \<open>
  C4: an accepted posting always replays: no later addition can fail or panic while the
  absolute sum of everything posted fits a mantissa, and it moves each account that is unused
  or held in the entry's currency by exactly the entry's lines. An account held in another
  currency is left as it was, the line dropped.
\<close>

theorem accepted_post_replays:
  assumes "decimal_laws D val" "ledger_history D h s" "in_bounds k val s" "lines_multiple k val ls"
    "fits_gross k (state_gross val s + lines_gross val ls)"
    "handle_command D s (PostJournalEntry ls dims) i now = Ok evs"
  shows "\<exists>s' c. replay_from D s evs = (Ok s' :: ('e, 'd ledger_state) res) \<and>
    balanced_entry val c ls \<and> entries s' = bt_insert i ls (entries s) \<and>
    (\<forall>a. balance_value val (balances s') a = balance_value val (balances s) a +
       (if accepts c (balances s) a then account_total val a ls else 0))"
proof -
  have fit: "fits_gross k (lines_gross val ls)"
    by (rule fits_gross_mono [OF assms(5)]) (auto simp: state_gross_def intro!: sum_list_nonneg)
  from assms(6) decimal_laws.handle_post_Ok_iff [OF assms(1,4) fit] obtain c where
    c: "balanced_entry val c ls" "evs = [JournalEntryPosted i ls dims now]" by auto
  from decimal_laws.history_inv [OF assms(1-3)] have "ledger_inv k val s" by blast
  from decimal_laws.post_accepted [OF assms(1) this c(1) assms(4,5)]
  obtain s' where "post D s i ls = (Ok s' :: ('e, 'd ledger_state) res)"
    "post_effect k val c ls (balances s) (balances s')" "entries s' = bt_insert i ls (entries s)" by blast
  with c show ?thesis by (auto simp: post_effect_def)
qed

theorem accepted_post_replays_witness:
  "\<exists>s' c. replay_from ref_ops after_post [JournalEntryPosted (EntryId 12) eur_bill no_dims 0] =
      (Ok s' :: (unit, refdec ledger_state) res) \<and>
    balanced_entry ref_val c eur_bill \<and> entries s' = bt_insert (EntryId 12) eur_bill (entries after_post)"
proof -
  have "fits_gross 2 (state_gross ref_val after_post + lines_gross ref_val eur_bill)"
    by (simp add: bills_gross after_post_def state_gross_def fits_gross_def max_mantissa_def)
  from accepted_post_replays [OF ref_laws history_post after_post_bounds bills_multiple(3) this
      eur_bill_accepted [of _ no_dims "EntryId 12" 0]]
  show ?thesis by blast
qed

section \<open>Reversal\<close>

text \<open>
  Reversing an entry is accepted when it is known and not reversed, it replays, and it
  subtracts from each account what the entry posts to it in the entry's currency.
\<close>

theorem reversal_subtracts:
  assumes "decimal_laws D val" "ledger_history D h s" "in_bounds k val s"
    "bt_get (entries s) e = Some ls" "\<not> is_reversed s e"
    "fits_gross k (state_gross val s + lines_gross val ls)"
  shows "\<exists>evs s' c. handle_command D s (ReverseEntry e r) i now = Ok evs \<and>
    replay_from D s evs = (Ok s' :: ('e, 'd ledger_state) res) \<and> is_reversed s' e \<and>
    balanced_entry val c ls \<and>
    (\<forall>a. balance_value val (balances s') a = balance_value val (balances s) a -
       (if accepts c (balances s) a then account_total val a ls else 0))"
proof -
  from decimal_laws.history_inv [OF assms(1-3)] have inv: "ledger_inv k val s" by blast
  with assms(4) obtain c where c: "balanced_entry val c ls" unfolding ledger_inv_def by blast
  have m: "lines_multiple k val (mirror ls)"
    using assms(3,4) by (auto simp: in_bounds_def intro: mirror_multiple)
  from decimal_laws.post_accepted [OF assms(1) inv mirror_balanced [OF c] m] assms(6)
  obtain s1 where "post D s i (mirror ls) = (Ok s1 :: ('e, 'd ledger_state) res)"
    "post_effect k val c (mirror ls) (balances s) (balances s1)" "reversed s1 = reversed s"
    by (auto simp: mirror_gross)
  with c assms(4,5) inv show ?thesis
    by (auto simp: bt_contains_def post_effect_def is_reversed_def ledger_inv_def)
qed

theorem reversal_subtracts_witness:
  "\<exists>evs s' c. handle_command ref_ops after_post (ReverseEntry (EntryId 10) ''void'') (EntryId 11) 0 = Ok evs \<and>
    replay_from ref_ops after_post evs = (Ok s' :: (unit, refdec ledger_state) res) \<and>
    is_reversed s' (EntryId 10) \<and> balanced_entry ref_val c gpu_bill"
proof -
  have "bt_get (entries after_post) (EntryId 10) = Some gpu_bill" "\<not> is_reversed after_post (EntryId 10)"
    "fits_gross 2 (state_gross ref_val after_post + lines_gross ref_val gpu_bill)"
    by (simp_all add: after_post_def is_reversed_def state_gross_def bills_gross fits_gross_def max_mantissa_def)
  from reversal_subtracts [OF ref_laws history_post after_post_bounds this, of "''void''" "EntryId 11" 0]
  show ?thesis by blast
qed

text \<open>
  C5: posting an entry and then reversing it leaves every balance where it was, whatever
  currencies the accounts are held in.
\<close>

theorem reverse_undoes_post:
  assumes "decimal_laws D val" "ledger_history D h s" "in_bounds k val s" "lines_multiple k val ls"
    "fits_gross k (state_gross val s + 2 * lines_gross val ls)"
    "\<not> bt_contains (entries s) i"
    "handle_command D s (PostJournalEntry ls dims) i now = Ok evs"
  shows "\<exists>s1 s2 rev. replay_from D s evs = (Ok s1 :: (unit, 'd ledger_state) res) \<and>
    handle_command D s1 (ReverseEntry i r) i' now' = (if is_reversed s i then Err (AlreadyReversed i) else Ok rev) \<and>
    replay_from D s1 rev = (Ok s2 :: (unit, 'd ledger_state) res) \<and>
    (\<forall>a. balance_value val (balances s2) a = balance_value val (balances s) a)"
proof -
  have n: "0 \<le> state_gross val s"
    by (auto simp: state_gross_def intro!: sum_list_nonneg)
  have fit: "fits_gross k (lines_gross val ls)" "fits_gross k (state_gross val s + lines_gross val ls)"
    by (rule fits_gross_mono [OF assms(5)], use n lines_gross_nonneg [of val ls] in linarith)+
  from assms(7) decimal_laws.handle_post_Ok_iff [OF assms(1,4) fit(1)] obtain c where
    c: "balanced_entry val c ls" "evs = [JournalEntryPosted i ls dims now]" by auto
  from decimal_laws.history_inv [OF assms(1-3)] have inv: "ledger_inv k val s" by blast
  then have wf: "bt_wf (entries s)" by (simp add: ledger_inv_def)
  from decimal_laws.post_accepted [OF assms(1) inv c(1) assms(4) fit(2)]
  obtain s1 where s1: "post D s i ls = (Ok s1 :: (unit, 'd ledger_state) res)"
    and eff1: "post_effect k val c ls (balances s) (balances s1)"
    and fr1: "entries s1 = bt_insert i ls (entries s)" "reversed s1 = reversed s"
      "capitalization s1 = capitalization s" by blast
  from ledger_inv_post [OF inv assms(6) c(1) eff1 fr1] have inv1: "ledger_inv k val s1" .
  have g: "fits_gross k (state_gross val s1 + lines_gross val (mirror ls))"
    using assms(5) record_fresh(1) [OF wf assms(6) fr1(1), of val] by (simp add: algebra_simps)
  from decimal_laws.post_accepted [OF assms(1) inv1 mirror_balanced [OF c(1)] mirror_multiple [OF assms(4)] g]
  obtain s2 where s2: "post D s1 i' (mirror ls) = (Ok s2 :: (unit, 'd ledger_state) res)"
    and eff2: "post_effect k val c (mirror ls) (balances s1) (balances s2)" by blast
  have "balance_value val (balances s2) a = balance_value val (balances s) a" for a
    using eff1 eff2 by (simp add: post_effect_def)
  with s1 s2 c(2) fr1 wf show ?thesis
    by (intro exI [of _ s1] exI [of _ "s2\<lparr>reversed := bs_insert i (reversed s2)\<rparr>"] exI [of _ "[EntryReversed i i' r]"])
       (simp add: is_reversed_def)
qed

theorem reverse_undoes_post_witness:
  "\<exists>s1 s2 rev. replay_from ref_ops after_post [JournalEntryPosted (EntryId 12) eur_bill no_dims 0] =
      (Ok s1 :: (unit, refdec ledger_state) res) \<and>
    handle_command ref_ops s1 (ReverseEntry (EntryId 12) ''void'') (EntryId 13) 1 = Ok rev \<and>
    replay_from ref_ops s1 rev = (Ok s2 :: (unit, refdec ledger_state) res) \<and>
    (\<forall>a. balance_value ref_val (balances s2) a = balance_value ref_val (balances after_post) a)"
proof -
  have "fits_gross 2 (state_gross ref_val after_post + 2 * lines_gross ref_val eur_bill)"
    "\<not> bt_contains (entries after_post) (EntryId 12)" "\<not> is_reversed after_post (EntryId 12)"
    by (simp_all add: after_post_def is_reversed_def state_gross_def bills_gross fits_gross_def
        max_mantissa_def bt_contains_def)
  with reverse_undoes_post [OF ref_laws history_post after_post_bounds bills_multiple(3) this(1,2)
      eur_bill_accepted [of _ no_dims _ 0], of "''void''" "EntryId 13" 1]
  show ?thesis by simp
qed

section \<open>What one aggregate does with several currencies\<close>

text \<open>
  What a posting does to the trial balance. The trial balance of the entry's currency
  moves by the sum of the lines whose account is new or already held in that currency;
  a line on an account held in another currency is dropped, so an accepted, balanced
  entry can leave the trial balance different from zero (the witness: minus 7 EUR).
\<close>

theorem trial_balance_drift:
  assumes "decimal_laws D val" "ledger_history D h s" "in_bounds k val s" "lines_multiple k val ls"
    "fits_gross k (state_gross val s + lines_gross val ls)" "\<not> bt_contains (entries s) i"
    "handle_command D s (PostJournalEntry ls dims) i now = Ok evs"
  shows "\<exists>s' c. replay_from D s evs = (Ok s' :: (unit, 'd ledger_state) res) \<and> balanced_entry val c ls \<and>
    (\<forall>c'. \<exists>t t'. trial_balance D s c' = (Ok t :: (unit, 'd money) res) \<and>
       trial_balance D s' c' = (Ok t' :: (unit, 'd money) res) \<and>
       val (amount t') = val (amount t) +
         (if c' = c then \<Sum>l\<leftarrow>ls. if accepts c (balances s) (account l) then line_value val l else 0 else 0))"
proof -
  have fit: "fits_gross k (lines_gross val ls)"
    by (rule fits_gross_mono [OF assms(5)]) (auto simp: state_gross_def intro!: sum_list_nonneg)
  from assms(7) decimal_laws.handle_post_Ok_iff [OF assms(1,4) fit] obtain c where
    c: "balanced_entry val c ls" "evs = [JournalEntryPosted i ls dims now]" by auto
  from decimal_laws.history_inv [OF assms(1-3)] have inv: "ledger_inv k val s" by blast
  from decimal_laws.post_accepted [OF assms(1) inv c(1) assms(4,5)]
  obtain s' where s': "post D s i ls = (Ok s' :: (unit, 'd ledger_state) res)"
    and eff: "post_effect k val c ls (balances s) (balances s')"
    and fr: "entries s' = bt_insert i ls (entries s)" "reversed s' = reversed s"
      "capitalization s' = capitalization s" by blast
  from ledger_inv_post [OF inv assms(6) c(1) eff fr] have inv': "ledger_inv k val s'" .
  have wf: "bt_wf (entries s)" using inv by (simp add: ledger_inv_def)
  have tb: "\<exists>t. trial_balance D st c' = (Ok t :: (unit, 'd money) res) \<and>
      val (amount t) = currency_total val c' (balances st)"
    if "ledger_inv k val st" "fits_gross k (state_gross val st)" for st c'
  proof -
    have "balances_ok k val (balances st)" "fits_gross k (gross val (balances st))"
      using that fits_gross_mono by (auto simp: ledger_inv_def)
    with decimal_laws.trial_balance_value [OF assms(1)] show ?thesis by blast
  qed
  have "\<exists>t t'. trial_balance D s c' = (Ok t :: (unit, 'd money) res) \<and>
       trial_balance D s' c' = (Ok t' :: (unit, 'd money) res) \<and>
       val (amount t') = val (amount t) +
         (if c' = c then \<Sum>l\<leftarrow>ls. if accepts c (balances s) (account l) then line_value val l else 0 else 0)" for c'
    using tb [OF inv, of c'] tb [OF inv', of c'] assms(3,5) eff record_fresh(1) [OF wf assms(6) fr(1), of val]
    by (auto simp: in_bounds_def post_effect_def)
  moreover have "replay_from D s evs = (Ok s' :: (unit, 'd ledger_state) res)" using s' c(2) by simp
  ultimately show ?thesis using c(1) by blast
qed

theorem trial_balance_drift_witness:
  "(\<exists>s' c. replay_from ref_ops after_post [JournalEntryPosted (EntryId 12) eur_bill no_dims 0] =
      (Ok s' :: (unit, refdec ledger_state) res) \<and> balanced_entry ref_val c eur_bill) \<and>
   ledger_history ref_ops
     [JournalEntryPosted (EntryId 10) gpu_bill no_dims 0, JournalEntryPosted (EntryId 12) eur_bill no_dims 0]
     after_eur \<and>
   trial_balance ref_ops after_eur Eur = (Ok (eur (- 700)) :: (unit, refdec money) res)"
proof -
  have "fits_gross 2 (state_gross ref_val after_post + lines_gross ref_val eur_bill)"
    "\<not> bt_contains (entries after_post) (EntryId 12)"
    by (simp_all add: after_post_def state_gross_def bills_gross fits_gross_def max_mantissa_def bt_contains_def)
  from trial_balance_drift [OF ref_laws history_post after_post_bounds bills_multiple(3) this
      eur_bill_accepted [of _ no_dims _ 0]]
  have "\<exists>s' c. replay_from ref_ops after_post [JournalEntryPosted (EntryId 12) eur_bill no_dims 0] =
      (Ok s' :: (unit, refdec ledger_state) res) \<and> balanced_entry ref_val c eur_bill" by blast
  moreover have "trial_balance ref_ops after_eur Eur = (Ok (eur (- 700)) :: (unit, refdec money) res)"
    by (simp add: trial_balance_def after_eur_def bt_values_def usd_def eur_def add_or_keep_def
        ledger_step_defs ref_eval)
  ultimately show ?thesis using history_eur by blast
qed

section \<open>The log\<close>

text \<open>
  C6: the state is nothing but its log: replaying the log from the empty ledger gives the
  state, without a panic; an entry is reversed in the state exactly when the log reverses
  it, and the log reverses it at most once.
\<close>

theorem log_determines_state:
  assumes "ledger_history D h s"
  shows "replay D h = (Ok s :: (unit, 'd ledger_state) res) \<and> distinct (reversals h) \<and>
    (\<forall>e. is_reversed s e \<longleftrightarrow> e \<in> set (reversals h))"
  using history_log [OF assms] by blast

theorem log_determines_state_witness:
  "replay ref_ops [JournalEntryPosted (EntryId 10) gpu_bill no_dims 0, EntryReversed (EntryId 10) (EntryId 11) ''void'']
     = (Ok after_reversal :: (unit, refdec ledger_state) res)"
  using log_determines_state [OF history_reversal] by blast

text \<open>
  A reversed entry stays reversed: after any further events, even ones no command
  produced, reversing it again is refused as \<open>AlreadyReversed\<close>.
\<close>

theorem reversed_once:
  assumes "ledger_history D h s" "is_reversed s e"
    "replay_from D s evs = (Ok s' :: (unit, 'd ledger_state) res)"
  shows "handle_command D s' (ReverseEntry e r) i now = Err (AlreadyReversed e)"
proof -
  have "bt_contains (entries s) e" using history_reversed_known [OF assms(1,2)] .
  with assms replay_keeps_reversed [OF assms(3)] history_wf [OF assms(1)]
  show ?thesis by simp
qed

theorem reversed_once_witness:
  "handle_command ref_ops after_reversal (ReverseEntry (EntryId 10) ''again'') (EntryId 12) 0 =
     Err (AlreadyReversed (EntryId 10))"
proof -
  have "is_reversed after_reversal (EntryId 10)" by (simp add: after_reversal_def ledger_step_defs)
  from reversed_once [OF history_reversal this, of "[]"] show ?thesis by (simp add: replay_from_def)
qed

text \<open>
  C7: a run's capitalization moves recorded in the log form a chain: it starts at
  pending review, each move starts where the last ended and changes the status, and the
  chain ends at the status the state reports.
\<close>

theorem capitalization_chain:
  assumes "ledger_history D h s"
  shows "cap_chain PendingReview (cap_moves run h)
    (case capitalization_status s run of Some c \<Rightarrow> c | None \<Rightarrow> PendingReview)"
  using history_cap [OF assms] by (simp add: current_cap_def)

theorem capitalization_chain_witness:
  "cap_chain PendingReview (cap_moves (RunId 1)
      [CapitalizationStatusChanged (RunId 1) PendingReview Capitalized (PolicyId 7)]) Capitalized"
proof -
  have "\<not> bt_contains (entries ledger_default) (EntryId 1)"
    "handle_command ref_ops ledger_default (ChangeCapitalizationStatus (RunId 1) Capitalized (PolicyId 7)) (EntryId 1) 0 =
       Ok [CapitalizationStatusChanged (RunId 1) PendingReview Capitalized (PolicyId 7)]"
    by (simp_all add: ledger_default_def bt_contains_def capitalization_status_def)
  from ledger_history.step [OF ledger_history.start this,
      of "ledger_default\<lparr>capitalization := [(RunId 1, Capitalized)]\<rparr>"]
  have "ledger_history ref_ops [CapitalizationStatusChanged (RunId 1) PendingReview Capitalized (PolicyId 7)]
      (ledger_default\<lparr>capitalization := [(RunId 1, Capitalized)]\<rparr>)"
    by (simp add: ledger_default_def)
  from capitalization_chain [OF this, of "RunId 1"] show ?thesis
    by (simp add: capitalization_status_def)
qed

end
