(* ===== verification/Pricing.thy ===== *)
theory Pricing
  imports Money
begin

text \<open>
  \<open>crates/cost-spine/src/pricing.rs\<close>: the three cost measures of an invoice line, and the
  apportionment of a shared cost over weights by largest remainder.
\<close>

section \<open>Data\<close>

datatype 'd Discount = Negotiated 'd | Volume 'd

fun discount_rate :: "'d Discount \<Rightarrow> 'd" where
  "discount_rate (Negotiated r) = r"
| "discount_rate (Volume r) = r"

record 'd commitment_coverage =
  covered_quantity :: 'd
  committed_unit_price :: 'd
  prepaid :: bool

record 'd pricing_inputs =
  list_unit_price :: 'd
  quantity :: 'd
  inputs_currency :: Currency
  discounts :: "'d Discount list"
  commitment :: "'d commitment_coverage option"

record 'd cost_amounts =
  list_cost :: "'d money"
  billed_cost :: "'d money"
  effective_cost :: "'d money"

datatype 'd pricing_error =
    DiscountRateOutOfRange 'd
  | NegativeQuantity 'd
  | NegativeUnitPrice 'd
  | NegativeCoverage 'd
  | NoWeights
  | InvalidWeights
  | PricingCurrency currency_mismatch

section \<open>The cost measures\<close>

text \<open>The validation loop over the discounts, and the fold that composes them.\<close>

fun check_rates :: "'d decimal_ops \<Rightarrow> 'd Discount list \<Rightarrow> ('d pricing_error, unit) res" where
  "check_rates D [] = Ok ()"
| "check_rates D (d # ds) =
     (if dec_less D (discount_rate d) (dec_zero D) \<or> dec_less D (dec_one D) (discount_rate d)
      then Err (DiscountRateOutOfRange (discount_rate d)) else check_rates D ds)"

definition retained :: "'d decimal_ops \<Rightarrow> 'd Discount list \<Rightarrow> ('e, 'd) res" where
  "retained D ds =
     res_fold (\<lambda>d acc. res_bind (dec_sub D (dec_one D) (discount_rate d)) (\<lambda>k. dec_mul D acc k))
       ds (dec_one D)"

definition coverage ::
  "'d decimal_ops \<Rightarrow> 'd pricing_inputs \<Rightarrow> ('d pricing_error, 'd \<times> 'd \<times> bool) res" where
  "coverage D p =
     (case commitment p of
        Some c \<Rightarrow>
          if is_sign_negative D (covered_quantity c) then Err (NegativeCoverage (covered_quantity c))
          else Ok (dec_min D (covered_quantity c) (quantity p), committed_unit_price c, prepaid c)
      | None \<Rightarrow> Ok (dec_zero D, dec_zero D, False))"

definition compute :: "'d decimal_ops \<Rightarrow> 'd pricing_inputs \<Rightarrow> ('d pricing_error, 'd cost_amounts) res" where
  "compute D p =
     (if is_sign_negative D (quantity p) then Err (NegativeQuantity (quantity p))
      else if is_sign_negative D (list_unit_price p) then Err (NegativeUnitPrice (list_unit_price p))
      else
        res_bind (check_rates D (discounts p)) (\<lambda>_.
        res_bind (retained D (discounts p)) (\<lambda>keep.
        res_bind (dec_mul D (list_unit_price p) keep) (\<lambda>discounted_unit_price.
        res_bind (coverage D p) (\<lambda>(covered_qty, committed_price, is_prepaid).
        res_bind (dec_sub D (quantity p) covered_qty) (\<lambda>on_demand_qty.
        res_bind (dec_mul D (list_unit_price p) (quantity p)) (\<lambda>l.
        res_bind (dec_mul D on_demand_qty discounted_unit_price) (\<lambda>o'.
        res_bind (dec_mul D covered_qty committed_price) (\<lambda>c.
        (let on_demand_cost = money_new o' (inputs_currency p);
             covered_cost = money_new c (inputs_currency p)
         in res_bind (if is_prepaid then Ok on_demand_cost
                      else res_map_err PricingCurrency (money_add D on_demand_cost covered_cost)) (\<lambda>billed.
            res_bind (res_map_err PricingCurrency (money_add D on_demand_cost covered_cost)) (\<lambda>effective.
            Ok \<lparr>list_cost = money_new l (inputs_currency p), billed_cost = billed,
                effective_cost = effective\<rparr>))))))))))))"

section \<open>Apportionment\<close>

text \<open>
  \<open>10_u64.pow(dp)\<close>: a build with overflow checks panics past 64 bits, one without wraps.
\<close>

definition pow10_u64 :: "bool \<Rightarrow> nat \<Rightarrow> ('e, int) res" where
  "pow10_u64 chk dp =
     (if (10::int) ^ dp < 2 ^ 64 then Ok (10 ^ dp)
      else if chk then Panic else Ok (10 ^ dp mod 2 ^ 64))"

text \<open>\<open>amount * w / weight_sum\<close>.\<close>

definition exact_share :: "'d decimal_ops \<Rightarrow> 'd \<Rightarrow> 'd \<Rightarrow> 'd \<Rightarrow> ('e, 'd) res" where
  "exact_share D a w weight_sum = res_bind (dec_mul D a w) (\<lambda>p. dec_div D p weight_sum)"

text \<open>One iteration of the flooring loop: the floored share and what the floor cut off.\<close>

definition floor_share :: "'d decimal_ops \<Rightarrow> 'd \<Rightarrow> 'd \<Rightarrow> nat \<Rightarrow> 'd \<Rightarrow> ('e, 'd \<times> 'd) res" where
  "floor_share D a weight_sum dp w =
     res_bind (exact_share D a w weight_sum) (\<lambda>exact.
     let down = round_dp_with_strategy D dp ToZero exact
     in res_bind (dec_sub D exact down) (\<lambda>r. Ok (down, r)))"

definition remainder_le :: "'d decimal_ops \<Rightarrow> nat \<times> 'd \<Rightarrow> nat \<times> 'd \<Rightarrow> bool" where
  "remainder_le D a b \<longleftrightarrow>
     (case dec_cmp D (snd b) (snd a) of
        Less \<Rightarrow> True | Greater \<Rightarrow> False | Equal \<Rightarrow> fst a \<le> fst b)"

fun top_up :: "'d decimal_ops \<Rightarrow> 'd \<Rightarrow> (nat \<times> 'd) list \<Rightarrow> 'd \<Rightarrow> 'd list \<Rightarrow> ('e, 'd \<times> 'd list) res" where
  "top_up D step [] leftover floored = Ok (leftover, floored)"
| "top_up D step ((target, _) # rs) leftover floored =
     (if dec_le D step leftover
      then res_bind (index_at floored target) (\<lambda>y.
           res_bind (dec_add D y step) (\<lambda>x.
           res_bind (dec_sub D leftover step) (\<lambda>l. top_up D step rs l (floored[target := x]))))
      else Ok (leftover, floored))"

definition settle_residue ::
  "'d decimal_ops \<Rightarrow> nat \<Rightarrow> 'd \<Rightarrow> 'd list \<Rightarrow> ('e, 'd list) res" where
  "settle_residue D target leftover floored =
     (if is_zero D leftover then Ok floored
      else res_bind (index_at floored target) (\<lambda>y.
           res_bind (dec_add D y leftover) (\<lambda>x. Ok (floored[target := x]))))"

definition apportion ::
  "'d decimal_ops \<Rightarrow> bool \<Rightarrow> 'd money \<Rightarrow> 'd list \<Rightarrow> nat \<Rightarrow> ('d pricing_error, 'd money list) res" where
  "apportion D chk whole weights dp =
     (if weights = [] then Err NoWeights
      else if list_ex (is_sign_negative D) weights then Err InvalidWeights
      else
        res_bind (dec_sum D weights) (\<lambda>weight_sum.
        if dec_le D weight_sum (dec_zero D) then Err InvalidWeights
        else
          res_bind (pow10_u64 chk dp) (\<lambda>scale.
          res_bind (dec_div D (dec_one D) (dec_from_int D scale)) (\<lambda>step.
          res_bind (res_mapM (floor_share D (amount whole) weight_sum dp) weights) (\<lambda>shares.
          res_bind (dec_sum D (map fst shares)) (\<lambda>distributed.
          res_bind (dec_sub D (amount whole) distributed) (\<lambda>leftover.
          let remainders = sort_by (remainder_le D) (enumerate 0 (map snd shares))
          in res_bind (top_up D step remainders leftover (map fst shares)) (\<lambda>(left, floored).
             res_bind (settle_residue D (fst (remainders ! 0)) left floored) (\<lambda>parts.
             Ok (map (\<lambda>a. money_new a (currency whole)) parts))))))))))"

end
