(* ===== verification/Pricing_Proofs.thy ===== *)
theory Pricing_Proofs
  imports Pricing
begin

text \<open>
  What the pricing routines compute, on the rationals: the cost measures as a closed
  formula, and the apportionment as a division of the whole without remainder.
\<close>

section \<open>Products on a grid\<close>

lemma on_grid_mult: "on_grid j A x \<Longrightarrow> on_grid k B y \<Longrightarrow> on_grid (j + k) (A * B) (x * y)"
  unfolding on_grid_def
proof (elim exE conjE)
  fix m n assume "x = of_int m / 10 ^ j" "\<bar>m\<bar> \<le> A" "y = of_int n / 10 ^ k" "\<bar>n\<bar> \<le> B"
  then show "\<exists>l. x * y = of_int l / 10 ^ (j + k) \<and> \<bar>l\<bar> \<le> A * B"
    by (intro exI [of _ "m * n"]) (auto simp: power_add abs_mult intro!: mult_mono)
qed

lemma on_grid_lift: "on_grid j A x \<Longrightarrow> on_grid (j + i) (A * 10 ^ i) x"
  using on_grid_mult [of j A x i "10 ^ i" 1] by (force simp: on_grid_def)

lemma on_grid_nonneg: "on_grid k B q \<Longrightarrow> 0 \<le> B"
  unfolding on_grid_def by force

lemma on_grid_le: "on_grid k B q \<Longrightarrow> \<bar>q\<bar> \<le> of_int B / 10 ^ k"
  unfolding on_grid_def by (auto simp: abs_divide divide_right_mono)

lemma on_grid_between:
  "on_grid k A q \<Longrightarrow> on_grid k B b \<Longrightarrow> \<bar>q\<bar> \<le> \<bar>b\<bar> \<Longrightarrow> on_grid k B q"
proof -
  assume q: "on_grid k A q" and b: "on_grid k B b" "\<bar>q\<bar> \<le> \<bar>b\<bar>"
  from on_grid_le [OF b(1)] b(2) have "\<bar>q\<bar> \<le> of_int B / 10 ^ k" by linarith
  then have "\<bar>q\<bar> * 10 ^ k \<le> of_int B" by (simp add: le_divide_eq)
  with q show ?thesis by (rule on_grid_bound)
qed

context decimal_laws
begin

lemma not_sign_negative: "\<not> is_sign_negative D a \<Longrightarrow> 0 \<le> val a"
  using sign_val [of a] by (cases "val a = 0") auto

lemma dec_mul_grid:
  assumes "on_grid j A (val a)" "on_grid k B (val b)" "j + k \<le> 28" "A * B \<le> max_mantissa"
  obtains c where "dec_mul D a b = (Ok c :: ('e, 'd) res)" "val c = val a * val b"
    "on_grid (j + k) (A * B) (val c)"
proof -
  have g: "on_grid (j + k) (A * B) (val a * val b)" by (rule on_grid_mult) fact+
  then have "representable (val a * val b)" by (rule on_grid_representable) fact+
  with mul_exact obtain c where "checked_mul D a b = Some c" "val c = val a * val b" by blast
  with g that show ?thesis by (simp add: dec_mul_def)
qed

end

section \<open>The cost measures as formulas\<close>

definition keep_rate :: "('d \<Rightarrow> rat) \<Rightarrow> 'd Discount list \<Rightarrow> rat" where
  "keep_rate val ds = (\<Prod>d\<leftarrow>ds. 1 - val (discount_rate d))"

definition covered_units :: "('d \<Rightarrow> rat) \<Rightarrow> 'd pricing_inputs \<Rightarrow> rat" where
  "covered_units val x =
     (case commitment x of None \<Rightarrow> 0 | Some c \<Rightarrow> min (val (covered_quantity c)) (val (quantity x)))"

definition committed_rate :: "('d \<Rightarrow> rat) \<Rightarrow> 'd pricing_inputs \<Rightarrow> rat" where
  "committed_rate val x = (case commitment x of None \<Rightarrow> 0 | Some c \<Rightarrow> val (committed_unit_price c))"

definition prepaid_cover :: "'d pricing_inputs \<Rightarrow> bool" where
  "prepaid_cover x = (case commitment x of None \<Rightarrow> False | Some c \<Rightarrow> prepaid c)"

definition on_demand_value :: "('d \<Rightarrow> rat) \<Rightarrow> 'd pricing_inputs \<Rightarrow> rat" where
  "on_demand_value val x =
     (val (quantity x) - covered_units val x) * (val (list_unit_price x) * keep_rate val (discounts x))"

definition covered_value :: "('d \<Rightarrow> rat) \<Rightarrow> 'd pricing_inputs \<Rightarrow> rat" where
  "covered_value val x = covered_units val x * committed_rate val x"

text \<open>What \<open>compute\<close> accepts.\<close>

definition valid_inputs :: "'d decimal_ops \<Rightarrow> ('d \<Rightarrow> rat) \<Rightarrow> 'd pricing_inputs \<Rightarrow> bool" where
  "valid_inputs D val x \<longleftrightarrow>
     \<not> is_sign_negative D (quantity x) \<and> \<not> is_sign_negative D (list_unit_price x) \<and>
     (\<forall>d\<in>set (discounts x). 0 \<le> val (discount_rate d) \<and> val (discount_rate d) \<le> 1) \<and>
     (\<forall>c. commitment x = Some c \<longrightarrow> \<not> is_sign_negative D (covered_quantity c))"

text \<open>
  Inputs whose products are representable: prices with \<open>p\<close> decimals up to \<open>P\<close> units,
  quantities with \<open>q\<close> decimals up to \<open>Q\<close> units, rates with \<open>r\<close> decimals.
\<close>

definition priced_within :: "nat \<Rightarrow> int \<Rightarrow> nat \<Rightarrow> int \<Rightarrow> nat \<Rightarrow> ('d \<Rightarrow> rat) \<Rightarrow> 'd pricing_inputs \<Rightarrow> bool" where
  "priced_within p P q Q r val x \<longleftrightarrow>
     on_grid p P (val (list_unit_price x)) \<and> on_grid q Q (val (quantity x)) \<and>
     (\<forall>d\<in>set (discounts x). on_grid r (10 ^ r) (val (discount_rate d))) \<and>
     (\<forall>c. commitment x = Some c \<longrightarrow>
        on_grid q Q (val (covered_quantity c)) \<and> on_grid p P (val (committed_unit_price c))) \<and>
     1 \<le> P \<and> 1 \<le> Q \<and> p + q + r * length (discounts x) \<le> 28 \<and>
     2 * (P * Q * 10 ^ (r * length (discounts x))) \<le> max_mantissa"

context decimal_laws
begin

lemma check_rates_Ok:
  "check_rates D ds = Ok () \<longleftrightarrow> (\<forall>d\<in>set ds. 0 \<le> val (discount_rate d) \<and> val (discount_rate d) \<le> 1)"
  by (induction ds) (auto simp: not_less)

lemma check_rates_cases: "check_rates D ds = Ok () \<or>
    (\<exists>d\<in>set ds. check_rates D ds = Err (DiscountRateOutOfRange (discount_rate d)))"
  by (induction ds) auto

lemma pow10_max: "n \<le> 28 \<Longrightarrow> (10::int) ^ n \<le> max_mantissa"
  using power_increasing [of n 28 "10::int"] by (simp add: max_mantissa_def)

lemma retained_from:
  assumes "\<forall>d\<in>set ds. on_grid r (10 ^ r) (val (discount_rate d)) \<and>
      0 \<le> val (discount_rate d) \<and> val (discount_rate d) \<le> 1"
    "on_grid a (10 ^ a) (val acc)" "a + r * length ds \<le> 28"
  shows "\<exists>c. res_fold (\<lambda>d acc. res_bind (dec_sub D (dec_one D) (discount_rate d)) (\<lambda>k. dec_mul D acc k))
      ds acc = (Ok c :: ('e, 'd) res) \<and> val c = val acc * keep_rate val ds \<and>
    on_grid (a + r * length ds) (10 ^ (a + r * length ds)) (val c)"
  using assms
proof (induction ds arbitrary: a acc)
  case Nil
  then show ?case by (simp add: keep_rate_def)
next
  case (Cons d ds)
  from Cons.prems(1) have d: "on_grid r (10 ^ r) (val (discount_rate d))"
    "0 \<le> val (discount_rate d)" "val (discount_rate d) \<le> 1" by auto
  have one: "on_grid r (10 ^ r) (val (dec_one D))"
    using on_grid_lift [of 0 1 1 r] by (simp add: on_grid_def)
  have g: "on_grid r (10 ^ r + 10 ^ r) (1 - val (discount_rate d))"
    using on_grid_diff [OF one d(1)] by simp
  have g1: "on_grid r (10 ^ r) (1 - val (discount_rate d))"
    using on_grid_between [OF g, of "10 ^ r" 1] one d by simp
  have le: "r \<le> 28" "10 ^ r \<le> max_mantissa" using Cons.prems(3) by (auto intro: pow10_max)
  have "representable (1 - val (discount_rate d))"
    by (rule on_grid_representable [OF g1 le])
  then obtain k where k: "dec_sub D (dec_one D) (discount_rate d) = (Ok k :: ('e, 'd) res)"
    "val k = 1 - val (discount_rate d)"
    using sub_exact [of "dec_one D" "discount_rate d"] by (auto simp: dec_sub_def)
  have m: "a + r \<le> 28" "10 ^ a * 10 ^ r \<le> max_mantissa"
    using Cons.prems(3) pow10_max [of "a + r"] by (auto simp: power_add)
  obtain acc' where acc': "dec_mul D acc k = (Ok acc' :: ('e, 'd) res)" "val acc' = val acc * val k"
    "on_grid (a + r) (10 ^ a * 10 ^ r) (val acc')"
    using dec_mul_grid [OF Cons.prems(2), of r "10 ^ r" k] g1 m k by metis
  have "on_grid (a + r) (10 ^ (a + r)) (val acc')" "a + r + r * length ds \<le> 28"
    using acc'(3) Cons.prems(3) by (simp_all add: power_add)
  with Cons.IH [of "a + r" acc'] Cons.prems(1) obtain c where
    c: "res_fold (\<lambda>d acc. res_bind (dec_sub D (dec_one D) (discount_rate d)) (\<lambda>k. dec_mul D acc k))
      ds acc' = (Ok c :: ('e, 'd) res)" "val c = val acc' * keep_rate val ds"
    "on_grid (a + r + r * length ds) (10 ^ (a + r + r * length ds)) (val c)" by auto
  have "val c = val acc * keep_rate val (d # ds)"
    by (simp add: c(2) acc'(2) k(2) keep_rate_def)
  with c acc'(1) k(1) show ?case by (simp add: add.assoc)
qed

lemma retained_value:
  assumes "\<forall>d\<in>set ds. on_grid r (10 ^ r) (val (discount_rate d)) \<and>
      0 \<le> val (discount_rate d) \<and> val (discount_rate d) \<le> 1" "r * length ds \<le> 28"
  obtains c where "retained D ds = (Ok c :: ('e, 'd) res)" "val c = keep_rate val ds"
    "on_grid (r * length ds) (10 ^ (r * length ds)) (val c)"
proof -
  have "on_grid 0 (10 ^ 0) (val (dec_one D))" by (simp add: on_grid_def)
  from retained_from [OF assms(1) this] assms(2) that show ?thesis
    by (auto simp: retained_def)
qed

lemma coverage_value:
  assumes "valid_inputs D val x" "priced_within p P q Q r val x"
  obtains cq cp where "coverage D x = Ok (cq, cp, prepaid_cover x)" "val cq = covered_units val x"
    "val cp = committed_rate val x" "on_grid q Q (val cq)" "on_grid p P (val cp)"
    "0 \<le> val cq" "val cq \<le> val (quantity x)"
proof (cases "commitment x")
  case None
  have "0 \<le> val (quantity x)" using assms(1) by (simp add: valid_inputs_def not_sign_negative)
  with that [of "dec_zero D" "dec_zero D"] None assms(2) show ?thesis
    by (simp add: coverage_def prepaid_cover_def covered_units_def committed_rate_def priced_within_def)
next
  case (Some c)
  have n: "0 \<le> val (quantity x)" "0 \<le> val (covered_quantity c)"
    using assms(1) Some by (auto simp: valid_inputs_def not_sign_negative)
  with that [of "dec_min D (covered_quantity c) (quantity x)" "committed_unit_price c"] Some assms
  show ?thesis
    by (auto simp: coverage_def prepaid_cover_def covered_units_def committed_rate_def priced_within_def
        valid_inputs_def min_def)
qed

text \<open>The closed formula for the three measures.\<close>

text \<open>The grids of the intermediate products fit the decimal.\<close>

lemma within_bounds:
  assumes "priced_within p P q Q r val x"
  shows "on_grid p P (val (list_unit_price x))" "on_grid q Q (val (quantity x))"
    "r * length (discounts x) \<le> 28" "p + r * length (discounts x) \<le> 28"
    "P * 10 ^ (r * length (discounts x)) \<le> max_mantissa" "p + q \<le> 28" "P * Q \<le> max_mantissa"
    "q + (p + r * length (discounts x)) \<le> 28" "Q * (P * 10 ^ (r * length (discounts x))) \<le> max_mantissa"
    "q + p \<le> 28" "Q * P \<le> max_mantissa" "q \<le> 28" "Q \<le> max_mantissa"
    "Q * P * 10 ^ (r * length (discounts x)) + Q * P * 10 ^ (r * length (discounts x)) \<le> max_mantissa"
proof -
  let ?n = "r * length (discounts x)"
  let ?B = "P * Q * 10 ^ ?n"
  have PQ: "1 \<le> P" "1 \<le> Q" "p + q + ?n \<le> 28" "2 * ?B \<le> max_mantissa"
    using assms by (auto simp: priced_within_def)
  have one: "1 \<le> (10::int) ^ ?n" by simp
  have "P * 10 ^ ?n \<le> ?B" using mult_right_mono [of 1 Q "P * 10 ^ ?n"] PQ one by (simp add: mult.commute mult.left_commute)
  moreover have "P * Q \<le> ?B" using mult_left_mono [OF one, of "P * Q"] PQ by simp
  moreover have "0 \<le> ?B" using PQ(1,2) by simp
  moreover have "Q \<le> P * Q" using PQ mult_right_mono [of 1 P Q] by simp
  ultimately have b: "P * 10 ^ ?n \<le> max_mantissa" "P * Q \<le> max_mantissa" "?B \<le> max_mantissa" "Q \<le> max_mantissa"
    using PQ(4) by linarith+
  show "on_grid p P (val (list_unit_price x))" "on_grid q Q (val (quantity x))"
    using assms by (auto simp: priced_within_def)
  show "?n \<le> 28" "p + ?n \<le> 28" "p + q \<le> 28" "q + (p + ?n) \<le> 28" "q + p \<le> 28" "q \<le> 28" using PQ(3) by simp_all
  show "P * 10 ^ ?n \<le> max_mantissa" "P * Q \<le> max_mantissa" "Q \<le> max_mantissa" by (fact b)+
  show "Q * (P * 10 ^ ?n) \<le> max_mantissa" "Q * P \<le> max_mantissa" using b(2,3) by (simp_all add: ac_simps)
  show "Q * P * 10 ^ ?n + Q * P * 10 ^ ?n \<le> max_mantissa" using PQ(4) by (simp add: ac_simps)
qed

lemma compute_formula:
  assumes v: "valid_inputs D val x" and g: "priced_within p P q Q r val x"
  obtains a where "compute D x = Ok a"
    "val (amount (list_cost a)) = val (list_unit_price x) * val (quantity x)"
    "val (amount (effective_cost a)) = on_demand_value val x + covered_value val x"
    "val (amount (billed_cost a)) = on_demand_value val x + (if prepaid_cover x then 0 else covered_value val x)"
    "currency (list_cost a) = inputs_currency x" "currency (billed_cost a) = inputs_currency x"
    "currency (effective_cost a) = inputs_currency x"
proof -
  let ?n = "r * length (discounts x)"
  have ds: "\<forall>d\<in>set (discounts x). on_grid r (10 ^ r) (val (discount_rate d)) \<and>
      0 \<le> val (discount_rate d) \<and> val (discount_rate d) \<le> 1"
    using v g by (auto simp: valid_inputs_def priced_within_def)
  note w = within_bounds [OF g]
  from retained_value [OF ds w(3), where 'e = "'d pricing_error"] obtain keep where
    keep: "retained D (discounts x) = (Ok keep :: ('d pricing_error, 'd) res)"
      "val keep = keep_rate val (discounts x)" "on_grid ?n (10 ^ ?n) (val keep)" by blast
  obtain dp where dp: "dec_mul D (list_unit_price x) keep = (Ok dp :: ('d pricing_error, 'd) res)"
    "val dp = val (list_unit_price x) * val keep" "on_grid (p + ?n) (P * 10 ^ ?n) (val dp)"
    using dec_mul_grid [OF w(1) keep(3) w(4,5)] by blast
  obtain cq cp where cov: "coverage D x = Ok (cq, cp, prepaid_cover x)" "val cq = covered_units val x"
    "val cp = committed_rate val x" "on_grid q Q (val cq)" "on_grid p P (val cp)"
    "0 \<le> val cq" "val cq \<le> val (quantity x)"
    using coverage_value [OF v g] .
  have "on_grid q (Q + Q) (val (quantity x) - val cq)" by (rule on_grid_diff [OF w(2) cov(4)])
  from on_grid_between [OF this w(2)] cov(6,7) have go: "on_grid q Q (val (quantity x) - val cq)" by simp
  obtain od where od: "dec_sub D (quantity x) cq = (Ok od :: ('d pricing_error, 'd) res)"
    "val od = val (quantity x) - val cq"
    using sub_exact [OF on_grid_representable [OF go w(12,13)]] by (auto simp: dec_sub_def)
  obtain l where l: "dec_mul D (list_unit_price x) (quantity x) = (Ok l :: ('d pricing_error, 'd) res)"
    "val l = val (list_unit_price x) * val (quantity x)"
    using dec_mul_grid [OF w(1,2,6,7)] by blast
  have go': "on_grid q Q (val od)" using go od(2) by simp
  obtain o' where o': "dec_mul D od dp = (Ok o' :: ('d pricing_error, 'd) res)"
    "val o' = val od * val dp" "on_grid (q + (p + ?n)) (Q * (P * 10 ^ ?n)) (val o')"
    using dec_mul_grid [OF go' dp(3) w(8,9)] by blast
  obtain c where c: "dec_mul D cq cp = (Ok c :: ('d pricing_error, 'd) res)"
    "val c = val cq * val cp" "on_grid (q + p) (Q * P) (val c)"
    using dec_mul_grid [OF cov(4,5) w(10,11)] by blast
  have gc: "on_grid (q + p + ?n) (Q * P * 10 ^ ?n) (val c)" by (rule on_grid_lift [OF c(3)])
  have go2: "on_grid (q + p + ?n) (Q * P * 10 ^ ?n) (val o')" using o'(3) by (simp add: algebra_simps)
  have b28: "q + p + ?n \<le> 28" using w(8) by simp
  obtain e where e: "dec_add D o' c = (Ok e :: (currency_mismatch, 'd) res)" "val e = val o' + val c"
    using dec_add_grid [OF go2 gc b28 w(14)] by blast
  have s: "\<not> is_sign_negative D (quantity x)" "\<not> is_sign_negative D (list_unit_price x)"
    "check_rates D (discounts x) = Ok ()"
    using v ds by (auto simp: valid_inputs_def check_rates_Ok)
  let ?c = "inputs_currency x"
  let ?a = "\<lparr>list_cost = money_new l ?c,
      billed_cost = (if prepaid_cover x then money_new o' ?c else money_new e ?c),
      effective_cost = money_new e ?c\<rparr>"
  have "compute D x = Ok ?a"
    using s keep(1) dp(1) cov(1) od(1) l(1) o'(1) c(1) e(1)
    by (simp add: compute_def money_add_same)
  moreover have "val o' = on_demand_value val x" "val c = covered_value val x"
    by (simp_all add: o' c od dp keep cov on_demand_value_def covered_value_def)
  ultimately show ?thesis using that [of ?a] l(2) e(2) by simp
qed

lemma keep_rate_bounds:
  "\<forall>d\<in>set ds. 0 \<le> val (discount_rate d) \<and> val (discount_rate d) \<le> 1 \<Longrightarrow>
   0 \<le> keep_rate val ds \<and> keep_rate val ds \<le> 1"
  by (induction ds) (auto simp: keep_rate_def intro: mult_le_one)

lemma covered_units_bounds:
  "valid_inputs D val x \<Longrightarrow> 0 \<le> covered_units val x \<and> covered_units val x \<le> val (quantity x)"
  by (auto simp: valid_inputs_def covered_units_def not_sign_negative split: option.splits)

lemma value_bounds:
  assumes v: "valid_inputs D val x" and c: "0 \<le> committed_rate val x" "committed_rate val x \<le> val (list_unit_price x)"
  shows "0 \<le> on_demand_value val x" "0 \<le> covered_value val x"
    "on_demand_value val x + covered_value val x \<le> val (list_unit_price x) * val (quantity x)"
proof -
  have k: "0 \<le> keep_rate val (discounts x)" "keep_rate val (discounts x) \<le> 1"
    using keep_rate_bounds [of "discounts x"] v by (auto simp: valid_inputs_def)
  have u: "0 \<le> covered_units val x" "covered_units val x \<le> val (quantity x)"
    using covered_units_bounds [OF v] by auto
  have p: "0 \<le> val (list_unit_price x)" using v by (simp add: valid_inputs_def not_sign_negative)
  show "0 \<le> on_demand_value val x" "0 \<le> covered_value val x"
    using k u p c by (simp_all add: on_demand_value_def covered_value_def)
  have "on_demand_value val x \<le> (val (quantity x) - covered_units val x) * (val (list_unit_price x) * 1)"
    unfolding on_demand_value_def using k u p by (intro mult_left_mono) auto
  moreover have "covered_value val x \<le> covered_units val x * val (list_unit_price x)"
    unfolding covered_value_def using u c by (intro mult_left_mono) auto
  ultimately show "on_demand_value val x + covered_value val x \<le> val (list_unit_price x) * val (quantity x)"
    by (simp add: algebra_simps)
qed

end

end
