(* ===== verification/Apportion_Proofs.thy ===== *)
theory Apportion_Proofs
  imports Pricing_Proofs
begin

text \<open>
  \<open>apportion\<close>: nothing is lost or invented, and on a non-negative total each share is
  within one minor unit of its exact value. The quotients of the third-party decimal are
  not assumed exact: they have to be representable and within \<open>delta\<close> of the true share.
\<close>

section \<open>Helpers on lists\<close>

lemma sum_list_upd:
  "i < length xs \<Longrightarrow> (\<Sum>x\<leftarrow>xs[i := y]. f x) = (\<Sum>x\<leftarrow>xs. f x) - f (xs ! i) + (f y :: rat)"
proof (induction xs arbitrary: i)
  case (Cons x xs)
  then show ?case by (cases i) auto
qed simp

lemma sum_list_abs_bound:
  "(\<And>x. x \<in> set xs \<Longrightarrow> \<bar>f x\<bar> \<le> (M::rat)) \<Longrightarrow> (\<Sum>x\<leftarrow>xs. \<bar>f x\<bar>) \<le> of_nat (length xs) * M"
  by (induction xs) (auto simp: algebra_simps intro: add_mono)

lemma dec_sum_retype:
  "dec_sum D xs = (Ok w :: ('e, 'd) res) \<longleftrightarrow> dec_sum D xs = (Ok w :: ('f, 'd) res)"
proof -
  have "res_fold (\<lambda>x acc. dec_add D acc x) xs a = (Ok w :: ('e, 'd) res) \<longleftrightarrow>
      res_fold (\<lambda>x acc. dec_add D acc x) xs a = (Ok w :: ('f, 'd) res)" for a
    by (induction xs arbitrary: a) (auto simp: dec_add_def)
  then show ?thesis by (simp add: dec_sum_def)
qed

section \<open>The quotients\<close>

definition share_is :: "'d decimal_ops \<Rightarrow> 'd \<Rightarrow> 'd \<Rightarrow> 'd \<Rightarrow> 'd \<Rightarrow> bool" where
  "share_is D a w t e \<longleftrightarrow> (\<exists>p. checked_mul D a w = Some p \<and> checked_div D p t = Some e)"

definition shares_close :: "'d decimal_ops \<Rightarrow> ('d \<Rightarrow> rat) \<Rightarrow> rat \<Rightarrow> 'd \<Rightarrow> 'd list \<Rightarrow> bool" where
  "shares_close D val \<delta> a ws \<longleftrightarrow>
     (\<forall>t. dec_sum D ws = (Ok t :: (unit, 'd) res) \<longrightarrow> (\<forall>w\<in>set ws. \<exists>e. share_is D a w t e \<and>
        representable (val e) \<and> \<bar>val e - val a * val w / val t\<bar> \<le> \<delta>))"

definition minor_unit :: "nat \<Rightarrow> rat" where
  "minor_unit dp = 1 / 10 ^ dp"

lemma minor_unit_pos [simp]: "0 < minor_unit dp"
  by (simp add: minor_unit_def)

lemma minor_unit_nonneg [simp]: "0 \<le> minor_unit dp" "\<not> minor_unit dp < 0" "minor_unit dp \<noteq> 0"
  by (simp_all add: minor_unit_def)

lemma multiple_unit [simp]: "multiple dp (minor_unit dp)"
  unfolding multiple_def minor_unit_def by (rule exI [of _ 1]) simp

lemma multiple_lift: "multiple j q \<Longrightarrow> j \<le> k \<Longrightarrow> multiple k q"
proof -
  assume "multiple j q" "j \<le> k"
  then obtain m where "q = of_int m / 10 ^ j" by (auto simp: multiple_def)
  moreover have "(10::rat) ^ k = 10 ^ j * 10 ^ (k - j)"
    using \<open>j \<le> k\<close> by (simp flip: power_add)
  ultimately have "q = of_int (m * 10 ^ (k - j)) / 10 ^ k" by simp
  then show ?thesis unfolding multiple_def by blast
qed

lemma multiple_round: "multiple dp (round_rat st dp q)"
  by (auto simp: multiple_def round_rat_def)

lemma round_ToZero_dist:
  "\<bar>q - round_rat ToZero dp q\<bar> < minor_unit dp" "\<bar>round_rat ToZero dp q\<bar> \<le> \<bar>q\<bar>"
  "\<bar>q - round_rat ToZero dp q\<bar> \<le> \<bar>q\<bar>"
proof -
  have "\<bar>q - round_rat ToZero dp q\<bar> < minor_unit dp \<and> \<bar>round_rat ToZero dp q\<bar> \<le> \<bar>q\<bar> \<and>
      \<bar>q - round_rat ToZero dp q\<bar> \<le> \<bar>q\<bar>"
  proof (cases "0 \<le> q")
    case True
    with round_rat_ToZero_bounds [OF True, of dp] show ?thesis by (simp add: minor_unit_def)
  next
    case False
    then have "0 \<le> - q" by simp
    from round_rat_ToZero_bounds [OF this, of dp] False show ?thesis
      by (simp add: minor_unit_def round_rat_ToZero_neg)
  qed
  then show "\<bar>q - round_rat ToZero dp q\<bar> < minor_unit dp" "\<bar>round_rat ToZero dp q\<bar> \<le> \<bar>q\<bar>"
    "\<bar>q - round_rat ToZero dp q\<bar> \<le> \<bar>q\<bar>" by auto
qed

lemma representable_cut:
  assumes "representable q"
  shows "representable (q - round_rat ToZero dp q)"
proof -
  from assms obtain k m where k: "k \<le> 28" "q = of_int m / 10 ^ k" "\<bar>m\<bar> \<le> max_mantissa"
    by (auto simp: representable_def on_grid_def)
  show ?thesis
  proof (cases "dp \<le> k")
    case True
    have mq: "multiple k q" using k(2) by (auto simp: multiple_def)
    have "multiple k (round_rat ToZero dp q)" by (rule multiple_lift [OF multiple_round True])
    with mq have "multiple k (q - round_rat ToZero dp q)" by simp
    then obtain l where l: "q - round_rat ToZero dp q = of_int l / 10 ^ k" by (auto simp: multiple_def)
    have "\<bar>of_int l / 10 ^ k :: rat\<bar> \<le> \<bar>of_int m / 10 ^ k\<bar>"
      using round_ToZero_dist(3) [of q dp] l k(2) by simp
    then have "\<bar>l\<bar> \<le> \<bar>m\<bar>" by (simp add: abs_divide divide_le_cancel)
    with l k show ?thesis unfolding representable_def on_grid_def by auto
  next
    case False
    then have "(10::rat) ^ dp = 10 ^ k * 10 ^ (dp - k)" by (simp flip: power_add)
    then have "q * 10 ^ dp = of_int (m * 10 ^ (dp - k))" using k(2) by simp
    then have "round_rat ToZero dp q = q"
      by (simp add: round_rat_def divide_eq_eq)
    then show ?thesis by (simp add: representable_def) (use on_grid_zero [of max_mantissa 0] in \<open>auto simp: max_mantissa_def\<close>)
  qed
qed

text \<open>
  What truncation leaves of a non-negative whole number of units: a whole number of units,
  at most one for each part, when the quotients' errors add up to less than a unit.
\<close>

lemma truncated_near:
  assumes "\<bar>e - x\<bar> \<le> \<delta>" "0 \<le> (x :: rat)"
  shows "x - \<delta> - minor_unit dp < round_rat ToZero dp e" "round_rat ToZero dp e \<le> x + \<delta>" "0 \<le> \<delta>"
proof -
  have "round_rat ToZero dp e \<le> max e 0"
  proof (cases "0 \<le> e")
    case True
    with round_rat_ToZero_bounds(2) show ?thesis by simp
  next
    case False
    then show ?thesis using round_rat_ToZero_bounds(1) [of "- e" dp] round_rat_ToZero_neg [of dp e] by simp
  qed
  with round_ToZero_dist(1) [of e dp] assms
  show "x - \<delta> - minor_unit dp < round_rat ToZero dp e" "round_rat ToZero dp e \<le> x + \<delta>" "0 \<le> \<delta>"
    unfolding max_def by (cases "e \<le> 0"; simp; linarith)+
qed

lemma truncated_leftover:
  fixes x f :: "nat \<Rightarrow> rat"
  assumes "\<forall>i<n. 0 \<le> x i" "\<forall>i<n. \<exists>e. \<bar>e - x i\<bar> \<le> \<delta> \<and> f i = round_rat ToZero dp e" "0 < n"
    "multiple dp (\<Sum>i<n. x i)" "of_nat n * \<delta> < minor_unit dp"
  obtains j where "j \<le> n" "(\<Sum>i<n. x i) - (\<Sum>i<n. f i) = of_nat j * minor_unit dp"
proof -
  let ?u = "minor_unit dp" and ?A = "\<Sum>i<n. x i" and ?F = "\<Sum>i<n. f i"
  have near: "x i - \<delta> - ?u < f i \<and> f i \<le> x i + \<delta>" if "i < n" for i
    using assms(1,2) truncated_near that by metis
  have "?F \<le> (\<Sum>i<n. x i + \<delta>)" by (rule sum_mono) (use near in auto)
  then have lo: "- (of_nat n * \<delta>) \<le> ?A - ?F" by (simp add: sum.distrib)
  have "(\<Sum>i<n. x i - \<delta> - ?u) < ?F" by (rule sum_strict_mono) (use near assms(3) in auto)
  then have hi: "?A - ?F < of_nat n * \<delta> + of_nat n * ?u" by (simp add: sum.distrib sum_subtractf)
  have "multiple dp (f i)" if "i < n" for i using assms(2) multiple_round that by metis
  then have "multiple dp ?F" by (induction n) auto
  with assms(4) have "multiple dp (?A - ?F)" by simp
  then obtain m where m: "?A - ?F = of_int m * ?u" by (auto simp: multiple_def minor_unit_def)
  have "- 1 * ?u < of_int m * ?u" "of_int m * ?u < (of_nat n + 1) * ?u"
    using lo hi assms(5) unfolding m by (simp_all add: distrib_right)
  then have "- 1 < (of_int m :: rat)" "(of_int m :: rat) < of_nat n + 1"
    by (simp_all only: mult_less_cancel_right_pos minor_unit_pos)
  then have "0 \<le> m" "m \<le> int n" by linarith+
  with that [of "nat m"] m show ?thesis by auto
qed

text \<open>Weights that are accepted, and whose sum is exact.\<close>

definition weights_ok :: "'d decimal_ops \<Rightarrow> ('d \<Rightarrow> rat) \<Rightarrow> nat \<Rightarrow> 'd list \<Rightarrow> bool" where
  "weights_ok D val k ws \<longleftrightarrow> ws \<noteq> [] \<and> (\<forall>w\<in>set ws. \<not> is_sign_negative D w \<and> multiple k (val w)) \<and>
     0 < (\<Sum>w\<leftarrow>ws. val w) \<and> fits_gross k (\<Sum>w\<leftarrow>ws. val w)"

context decimal_laws
begin

lemma floor_share_value:
  assumes "share_is D a w t e" "representable (val e)"
  obtains d r where "floor_share D a t dp w = (Ok (d, r) :: ('e, 'd \<times> 'd) res)"
    "val d = round_rat ToZero dp (val e)" "val r = val e - val d"
proof -
  have "exact_share D a w t = (Ok e :: ('e, 'd) res)"
    using assms(1) by (auto simp: share_is_def exact_share_def dec_mul_def dec_div_def)
  moreover obtain r where "checked_sub D e (round_dp_with_strategy D dp ToZero e) = Some r"
    "val r = val e - round_rat ToZero dp (val e)"
    using sub_exact [of e "round_dp_with_strategy D dp ToZero e"] representable_cut [OF assms(2)] by auto
  ultimately show ?thesis
    using that [of "round_dp_with_strategy D dp ToZero e" r]
    by (simp add: floor_share_def Let_def dec_sub_def)
qed

text \<open>One handed-out unit at a time: what the loop keeps, and when it uses up the leftover.\<close>

lemma top_up_step:
  assumes "val step = u" "0 < u" "multiple k u" "u \<le> val left"
    "\<forall>x\<in>set fl. multiple k (val x)" "multiple k (val left)" "\<forall>x\<in>set fl. \<bar>val x\<bar> \<le> M + u"
    "t < length fl" "\<bar>val (fl ! t)\<bar> \<le> M" "fits_gross k (M + u + \<bar>val left\<bar>)"
  obtains x l where "dec_add D (fl ! t) step = (Ok x :: ('e, 'd) res)" "val x = val (fl ! t) + u"
    "dec_sub D left step = (Ok l :: ('e, 'd) res)" "val l = val left - u" "multiple k (val l)"
    "\<forall>y\<in>set (fl[t := x]). multiple k (val y)" "\<forall>y\<in>set (fl[t := x]). \<bar>val y\<bar> \<le> M + u"
    "fits_gross k (M + u + \<bar>val l\<bar>)"
proof -
  have M: "0 \<le> M" using assms(9) by linarith
  have fx: "fits_gross k \<bar>val (fl ! t) + val step\<bar>"
    by (rule fits_gross_mono [OF assms(10)]) (use assms(1,2,9) in linarith)
  have fl: "fits_gross k \<bar>val left - val step\<bar>"
    by (rule fits_gross_mono [OF assms(10)]) (use M assms(1,2,4) in linarith)
  have mt: "multiple k (val (fl ! t))" "multiple k (val step)" using assms(1,3,5,8) by auto
  obtain x where x: "dec_add D (fl ! t) step = (Ok x :: ('e, 'd) res)" "val x = val (fl ! t) + u"
    using dec_add_gross [OF mt fx] assms(1) by metis
  have "representable (val left - val step)"
    using fl assms(6) mt by (intro multiple_representable [of k]) auto
  then obtain l where l: "dec_sub D left step = (Ok l :: ('e, 'd) res)" "val l = val left - u"
    using sub_exact assms(1) by (auto simp: dec_sub_def)
  have "multiple k (val x)" "\<bar>val x\<bar> \<le> M + u" using x mt assms(1-3,9) by auto
  then have "\<forall>y\<in>set (fl[t := x]). multiple k (val y)" "\<forall>y\<in>set (fl[t := x]). \<bar>val y\<bar> \<le> M + u"
    using assms(5,7) set_update_subset_insert [of fl t x] by blast+
  moreover have "multiple k (val l)" using l assms(3,6) by simp
  moreover have "fits_gross k (M + u + \<bar>val l\<bar>)"
    by (rule fits_gross_mono [OF assms(10)]) (use l assms(2,4) in linarith)
  ultimately show ?thesis using that x l by blast
qed

lemma top_up_keeps:
  assumes "val step = u" "0 < u" "multiple k u"
    "\<forall>x\<in>set fl. multiple k (val x)" "multiple k (val left)"
    "\<forall>(t, r)\<in>set rs. t < length fl \<and> \<bar>val (fl ! t)\<bar> \<le> M" "distinct (map fst rs)"
    "\<forall>x\<in>set fl. \<bar>val x\<bar> \<le> M + u"
    "fits_gross k (M + u + \<bar>val left\<bar>)"
  shows "\<exists>l' fl'. top_up D step rs left fl = (Ok (l', fl') :: ('e, 'd \<times> 'd list) res) \<and>
    length fl' = length fl \<and> (\<forall>x\<in>set fl'. multiple k (val x)) \<and> multiple k (val l') \<and>
    (\<forall>x\<in>set fl'. \<bar>val x\<bar> \<le> M + u) \<and> \<bar>val l'\<bar> \<le> \<bar>val left\<bar> \<and>
    (\<Sum>x\<leftarrow>fl'. val x) + val l' = (\<Sum>x\<leftarrow>fl. val x) + val left \<and>
    (\<forall>i<length fl. val (fl' ! i) \<in> {val (fl ! i), val (fl ! i) + u}) \<and>
    (\<forall>i<length fl. i \<notin> fst ` set rs \<longrightarrow> val (fl' ! i) = val (fl ! i)) \<and>
    (\<forall>j. val left = of_nat j * u \<and> j \<le> length rs \<longrightarrow> val l' = 0)"
  using assms(4-)
proof (induction rs arbitrary: left fl)
  case Nil
  then show ?case by auto
next
  case (Cons tr rs)
  obtain t r where tr: "tr = (t, r)" by (cases tr)
  have t: "t < length fl" "\<bar>val (fl ! t)\<bar> \<le> M" "t \<notin> fst ` set rs"
    using Cons.prems(3,4) tr by auto
  show ?case
  proof (cases "u \<le> val left")
    case False
    then have "j = 0" if "val left = of_nat j * u" for j
      using that assms(2) by (cases j) (auto simp: algebra_simps)
    with False Cons.prems assms(1) tr show ?thesis by auto
  next
    case True
    obtain x l where x: "dec_add D (fl ! t) step = (Ok x :: ('e, 'd) res)" "val x = val (fl ! t) + u"
      and l: "dec_sub D left step = (Ok l :: ('e, 'd) res)" "val l = val left - u" "multiple k (val l)"
      and keep: "\<forall>y\<in>set (fl[t := x]). multiple k (val y)" "\<forall>y\<in>set (fl[t := x]). \<bar>val y\<bar> \<le> M + u"
        "fits_gross k (M + u + \<bar>val l\<bar>)"
      by (rule top_up_step [OF assms(1-3) True Cons.prems(1,2,5) t(1,2) Cons.prems(6)])
    let ?fl = "fl[t := x]"
    have rest: "\<forall>(t', r)\<in>set rs. t' < length ?fl \<and> \<bar>val (?fl ! t')\<bar> \<le> M"
    proof (clarify)
      fix t' r' assume m: "(t', r') \<in> set rs"
      then have "t' \<in> fst ` set rs" by (metis fst_conv image_eqI)
      with t(3) have "t' \<noteq> t" by metis
      with m Cons.prems(3) show "t' < length ?fl \<and> \<bar>val (?fl ! t')\<bar> \<le> M" by auto
    qed
    have dist: "distinct (map fst rs)" using Cons.prems(4) by simp
    note IH = keep(1) l(3) rest dist keep(2,3)
    from Cons.IH [OF IH] obtain l' fl' where r: "top_up D step rs l ?fl = (Ok (l', fl') :: ('e, 'd \<times> 'd list) res)"
      "length fl' = length ?fl" "\<forall>x\<in>set fl'. multiple k (val x)" "multiple k (val l')"
      "\<forall>x\<in>set fl'. \<bar>val x\<bar> \<le> M + u" "\<bar>val l'\<bar> \<le> \<bar>val l\<bar>"
      "(\<Sum>x\<leftarrow>fl'. val x) + val l' = (\<Sum>x\<leftarrow>?fl. val x) + val l"
      "\<forall>i<length ?fl. val (fl' ! i) \<in> {val (?fl ! i), val (?fl ! i) + u}"
      "\<forall>i<length ?fl. i \<notin> fst ` set rs \<longrightarrow> val (fl' ! i) = val (?fl ! i)"
      "\<forall>j. val l = of_nat j * u \<and> j \<le> length rs \<longrightarrow> val l' = 0" by blast
    have "top_up D step (tr # rs) left fl = (Ok (l', fl') :: ('e, 'd \<times> 'd list) res)"
      using True x(1) l(1) r(1) assms(1) tr t(1) by simp
    moreover have "(\<Sum>x\<leftarrow>fl'. val x) + val l' = (\<Sum>x\<leftarrow>fl. val x) + val left"
      using r(7) x(2) l(2) sum_list_upd [OF t(1), of val x] by simp
    moreover have "\<bar>val l'\<bar> \<le> \<bar>val left\<bar>" using r(6) l(2) True assms(2) by linarith
    moreover have "\<forall>i<length fl. val (fl' ! i) \<in> {val (fl ! i), val (fl ! i) + u}"
      using r(8,9) t x(2) by (auto simp: nth_list_update split: if_splits)
    moreover have "\<forall>i<length fl. i \<notin> fst ` set (tr # rs) \<longrightarrow> val (fl' ! i) = val (fl ! i)"
      using r(9) tr by auto
    moreover have "val l' = 0" if "val left = of_nat j * u" "j \<le> length (tr # rs)" for j
    proof (cases j)
      case 0
      with that True assms(2) show ?thesis by simp
    next
      case (Suc i)
      then have "val l = of_nat i * u" "i \<le> length rs" using that l(2) by (auto simp: algebra_simps)
      with r(10) show ?thesis by blast
    qed
    ultimately show ?thesis using r(2-5) by auto
  qed
qed

text \<open>The flooring loop as a whole.\<close>

lemma floor_shares:
  assumes "\<forall>w\<in>set ws. \<exists>e. share_is D a w t e \<and> representable (val e) \<and> \<bar>val e - val a * val w / val t\<bar> \<le> \<delta>"
  shows "\<exists>drs. res_mapM (floor_share D a t dp) ws = (Ok drs :: ('e, ('d \<times> 'd) list) res) \<and>
    length drs = length ws \<and>
    (\<forall>i<length ws. \<exists>e. \<bar>val e - val a * val (ws ! i) / val t\<bar> \<le> \<delta> \<and>
       val (fst (drs ! i)) = round_rat ToZero dp (val e))"
  using assms
proof (induction ws)
  case (Cons w ws)
  from Cons.prems obtain e where e: "share_is D a w t e" "representable (val e)"
    "\<bar>val e - val a * val w / val t\<bar> \<le> \<delta>" by auto
  obtain d r where "floor_share D a t dp w = (Ok (d, r) :: ('e, 'd \<times> 'd) res)"
    "val d = round_rat ToZero dp (val e)" using floor_share_value [OF e(1,2)] by metis
  moreover from Cons obtain drs where "res_mapM (floor_share D a t dp) ws = (Ok drs :: ('e, ('d \<times> 'd) list) res)"
    "length drs = length ws"
    "\<forall>i<length ws. \<exists>e. \<bar>val e - val a * val (ws ! i) / val t\<bar> \<le> \<delta> \<and>
       val (fst (drs ! i)) = round_rat ToZero dp (val e)" by auto
  ultimately show ?case using e(3)
    by (intro exI [of _ "(d, r) # drs"]) (auto simp: nth_Cons split: nat.splits)
qed simp

lemma weights_sum:
  assumes "weights_ok D val k ws"
  obtains t where "dec_sum D ws = (Ok t :: ('e, 'd) res)" "val t = (\<Sum>w\<leftarrow>ws. val w)" "0 < val t"
    "\<forall>w\<in>set ws. 0 \<le> val w \<and> val w \<le> val t"
proof -
  have n: "\<forall>w\<in>set ws. 0 \<le> val w" using assms not_sign_negative by (auto simp: weights_ok_def)
  have abs: "(\<Sum>w\<leftarrow>ws. \<bar>val w\<bar>) = (\<Sum>w\<leftarrow>ws. val w)"
    using n by (intro arg_cong [where f = sum_list]) auto
  obtain t where t: "dec_sum D ws = (Ok t :: ('e, 'd) res)" "val t = (\<Sum>w\<leftarrow>ws. val w)"
    using dec_sum_gross [of ws k] assms by (auto simp: weights_ok_def abs)
  have "val w \<le> val t" if "w \<in> set ws" for w
    unfolding t(2) by (rule member_le_sum_list) (use n that in auto)
  with that t n assms show ?thesis by (auto simp: weights_ok_def)
qed

lemma share_value_bound:
  assumes "\<bar>e - a * w / t\<bar> \<le> \<delta>" "0 \<le> w" "w \<le> t" "0 < t"
  shows "\<bar>e :: rat\<bar> \<le> \<bar>a\<bar> + \<delta>"
proof -
  have "\<bar>a * w / t\<bar> = \<bar>a\<bar> * (w / t)" using assms by (simp add: abs_mult)
  moreover have "w / t \<le> 1" using assms by simp
  ultimately have "\<bar>a * w / t\<bar> \<le> \<bar>a\<bar>" by (metis abs_ge_zero mult_left_le)
  with assms(1) show ?thesis by linarith
qed

lemma step_value:
  assumes "dp \<le> 19"
  obtains n st where "pow10_u64 chk dp = (Ok n :: ('e, int) res)"
    "dec_div D (dec_one D) (dec_from_int D n) = (Ok st :: ('e, 'd) res)" "val st = minor_unit dp"
proof -
  have "(10::int) ^ dp \<le> 10 ^ 19" by (rule power_increasing) (use assms in auto)
  then have lt: "(10::int) ^ dp < 2 ^ 64" by simp
  then have v: "val (dec_from_int D (10 ^ dp)) = 10 ^ dp" using from_int_val [of "10 ^ dp"] by simp
  have "on_grid dp 1 (minor_unit dp)" unfolding on_grid_def minor_unit_def by (rule exI [of _ 1]) simp
  then have "representable (minor_unit dp)"
    by (rule on_grid_representable) (use assms in \<open>auto simp: max_mantissa_def\<close>)
  then obtain st where "checked_div D (dec_one D) (dec_from_int D (10 ^ dp)) = Some st" "val st = minor_unit dp"
    using div_exact [of "dec_from_int D (10 ^ dp)" "dec_one D"] v by (auto simp: minor_unit_def)
  with lt that [of "10 ^ dp" st] show ?thesis by (simp add: pow10_u64_def dec_div_def)
qed

text \<open>The order of the remainders is a permutation of the shares.\<close>

lemma sorted_enumerate:
  "distinct (map fst (sort_by le (enumerate 0 xs)))" "set (map fst (sort_by le (enumerate 0 xs))) = {0..<length xs}"
  "length (sort_by le (enumerate 0 xs)) = length xs"
proof -
  have "mset (map fst (sort_by le (enumerate 0 xs))) = image_mset fst (mset (enumerate 0 xs))" by simp
  also have "\<dots> = mset (map fst (enumerate 0 xs))" by (rule mset_map [symmetric])
  finally have perm: "mset (map fst (sort_by le (enumerate 0 xs))) = mset [0..<length xs]"
    by (simp only: map_fst_enumerate add_0)
  show "distinct (map fst (sort_by le (enumerate 0 xs)))" using perm by (metis distinct_upt mset_eq_imp_distinct_iff)
  show "set (map fst (sort_by le (enumerate 0 xs))) = {0..<length xs}" using perm by (metis set_mset_mset set_upt)
  show "length (sort_by le (enumerate 0 xs)) = length xs" by simp
qed

text \<open>What the floored shares leave over.\<close>

lemma leftover_value:
  assumes "\<forall>x\<in>set fs. multiple k (val x) \<and> \<bar>val x\<bar> \<le> M" "0 \<le> M" "multiple k (val a)"
    "fits_gross k (of_nat (length fs) * M + \<bar>val a\<bar>)"
  obtains ds lo where "dec_sum D fs = (Ok ds :: ('e, 'd) res)" "dec_sub D a ds = (Ok lo :: ('e, 'd) res)"
    "val lo = val a - (\<Sum>x\<leftarrow>fs. val x)" "multiple k (val lo)" "\<bar>val lo\<bar> \<le> of_nat (length fs) * M + \<bar>val a\<bar>"
proof -
  have gs: "(\<Sum>x\<leftarrow>fs. \<bar>val x\<bar>) \<le> of_nat (length fs) * M" using sum_list_abs_bound [of fs val M] assms(1) by auto
  have "fits_gross k (\<Sum>x\<leftarrow>fs. \<bar>val x\<bar>)" by (rule fits_gross_mono [OF assms(4)]) (use gs in linarith)
  then obtain ds where ds: "dec_sum D fs = (Ok ds :: ('e, 'd) res)" "val ds = (\<Sum>x\<leftarrow>fs. val x)"
    using dec_sum_gross [of fs k] assms(1) by auto
  have lb: "\<bar>val a - val ds\<bar> \<le> of_nat (length fs) * M + \<bar>val a\<bar>"
    using gs sum_list_abs [of "map val fs"] ds(2) by (simp add: comp_def)
  have mds: "multiple k (val ds)" unfolding ds(2) by (rule multiple_sum_list) (use assms(1) in auto)
  have "representable (val a - val ds)"
    by (rule multiple_representable [of k]) (use assms(3) mds fits_gross_mono [OF assms(4) lb] in auto)
  then obtain lo where "dec_sub D a ds = (Ok lo :: ('e, 'd) res)" "val lo = val a - val ds"
    using sub_exact by (auto simp: dec_sub_def)
  with that ds lb assms(3) mds show ?thesis by simp
qed

lemma residue_settled:
  assumes "i < length fl" "multiple k (val (fl ! i))" "multiple k (val l)" "fits_gross k \<bar>val (fl ! i) + val l\<bar>"
  shows "\<exists>parts. settle_residue D i l fl = (Ok parts :: ('e, 'd list) res) \<and> length parts = length fl \<and>
    (\<Sum>x\<leftarrow>parts. val x) = (\<Sum>x\<leftarrow>fl. val x) + val l \<and> (val l = 0 \<longrightarrow> parts = fl)"
proof (cases "val l = 0")
  case False
  obtain x where "dec_add D (fl ! i) l = (Ok x :: ('e, 'd) res)" "val x = val (fl ! i) + val l"
    using dec_add_gross [OF assms(2,3,4)] by metis
  with False assms(1) show ?thesis by (simp add: settle_residue_def sum_list_upd [OF assms(1)])
qed (simp add: settle_residue_def)

text \<open>The floored shares together.\<close>

lemma floored_shares:
  assumes "\<forall>w\<in>set ws. \<exists>e. share_is D a w t e \<and> representable (val e) \<and> \<bar>val e - val a * val w / val t\<bar> \<le> \<delta>"
    "\<forall>w\<in>set ws. 0 \<le> val w \<and> val w \<le> val t" "0 < val t" "dp \<le> k"
  obtains drs where "res_mapM (floor_share D a t dp) ws = (Ok drs :: ('e, ('d \<times> 'd) list) res)" "length drs = length ws"
    "\<forall>i<length ws. \<exists>e. \<bar>e - val a * val (ws ! i) / val t\<bar> \<le> \<delta> \<and> val (map fst drs ! i) = round_rat ToZero dp e"
    "\<forall>x\<in>set (map fst drs). multiple k (val x) \<and> \<bar>val x\<bar> \<le> \<bar>val a\<bar> + \<delta>"
proof -
  obtain drs where drs: "res_mapM (floor_share D a t dp) ws = (Ok drs :: ('e, ('d \<times> 'd) list) res)"
    "length drs = length ws" "\<forall>i<length ws. \<exists>e. \<bar>val e - val a * val (ws ! i) / val t\<bar> \<le> \<delta> \<and>
       val (fst (drs ! i)) = round_rat ToZero dp (val e)" using floor_shares [OF assms(1)] by blast
  have v: "\<exists>e. \<bar>e - val a * val (ws ! i) / val t\<bar> \<le> \<delta> \<and> val (map fst drs ! i) = round_rat ToZero dp e"
    if i: "i < length ws" for i using drs(2,3) i by auto
  have "multiple k (val (map fst drs ! i)) \<and> \<bar>val (map fst drs ! i)\<bar> \<le> \<bar>val a\<bar> + \<delta>" if i: "i < length ws" for i
  proof -
    from v [OF i] obtain e where e: "\<bar>e - val a * val (ws ! i) / val t\<bar> \<le> \<delta>"
      "val (map fst drs ! i) = round_rat ToZero dp e" by blast
    have "\<bar>e\<bar> \<le> \<bar>val a\<bar> + \<delta>" by (rule share_value_bound [OF e(1)]) (use assms(2,3) i in auto)
    with e(2) round_ToZero_dist(2) [of dp e] multiple_lift [OF multiple_round assms(4)] show ?thesis by auto
  qed
  then have "\<forall>x\<in>set (map fst drs). multiple k (val x) \<and> \<bar>val x\<bar> \<le> \<bar>val a\<bar> + \<delta>"
    using drs(2) by (metis in_set_conv_nth length_map)
  with that [OF drs(1,2)] v show ?thesis by blast
qed

text \<open>The hand-out and the residue, from the floored shares on.\<close>

lemma settled_parts:
  assumes "val st = minor_unit dp" "dp \<le> k" "\<forall>x\<in>set fs. multiple k (val x) \<and> \<bar>val x\<bar> \<le> M" "fs \<noteq> []"
    "multiple k (val lo)" "distinct (map fst rs)" "set (map fst rs) = {0..<length fs}" "length rs = length fs"
    "fits_gross k (M + minor_unit dp + \<bar>val lo\<bar>)"
  shows "\<exists>l' fl parts. top_up D st rs lo fs = (Ok (l', fl) :: ('d pricing_error, 'd \<times> 'd list) res) \<and>
    settle_residue D (fst (rs ! 0)) l' fl = (Ok parts :: ('d pricing_error, 'd list) res) \<and>
    length parts = length fs \<and> (\<Sum>x\<leftarrow>parts. val x) = (\<Sum>x\<leftarrow>fs. val x) + val lo \<and>
    (\<forall>j. val lo = of_nat j * minor_unit dp \<longrightarrow> j \<le> length fs \<longrightarrow>
       (\<forall>i<length fs. val (parts ! i) \<in> {val (fs ! i), val (fs ! i) + minor_unit dp}))"
proof -
  let ?u = "minor_unit dp" and ?tg = "fst (rs ! 0)"
  note up = minor_unit_pos [of dp]
  have r1: "\<forall>(i, r)\<in>set rs. i < length fs \<and> \<bar>val (fs ! i)\<bar> \<le> M"
  proof (clarify)
    fix i r assume "(i, r) \<in> set rs"
    then have "i \<in> set (map fst rs)" by force
    with assms(3,7) show "i < length fs \<and> \<bar>val (fs ! i)\<bar> \<le> M" by simp
  qed
  have r2: "\<forall>x\<in>set fs. multiple k (val x)" "\<forall>x\<in>set fs. \<bar>val x\<bar> \<le> M + ?u"
    using assms(3) add_increasing2 [OF less_imp_le [OF up]] by blast+
  obtain l' fl where tu: "top_up D st rs lo fs = (Ok (l', fl) :: ('d pricing_error, 'd \<times> 'd list) res)"
    "length fl = length fs" "\<forall>x\<in>set fl. multiple k (val x)" "multiple k (val l')"
    "\<forall>x\<in>set fl. \<bar>val x\<bar> \<le> M + ?u" "\<bar>val l'\<bar> \<le> \<bar>val lo\<bar>"
    "(\<Sum>x\<leftarrow>fl. val x) + val l' = (\<Sum>x\<leftarrow>fs. val x) + val lo"
    "\<forall>i<length fs. val (fl ! i) \<in> {val (fs ! i), val (fs ! i) + ?u}"
    "\<forall>j. val lo = of_nat j * ?u \<and> j \<le> length rs \<longrightarrow> val l' = 0"
    using top_up_keeps [OF assms(1) up multiple_lift [OF multiple_unit assms(2)] r2(1) assms(5) r1 assms(6) r2(2) assms(9)]
    by blast
  have tg: "?tg < length fl" using r1 assms(4,8) tu(2) nth_mem [of 0 rs] by (cases "rs ! 0") force
  have "fits_gross k \<bar>val (fl ! ?tg) + val l'\<bar>"
    by (rule fits_gross_mono [OF assms(9)]) (use tu(6) bspec [OF tu(5) nth_mem [OF tg]] in linarith)
  with residue_settled [OF tg bspec [OF tu(3) nth_mem [OF tg]] tu(4)] obtain parts
    where parts: "settle_residue D ?tg l' fl = (Ok parts :: ('d pricing_error, 'd list) res)"
    "length parts = length fs" "(\<Sum>x\<leftarrow>parts. val x) = (\<Sum>x\<leftarrow>fs. val x) + val lo" "val l' = 0 \<Longrightarrow> parts = fl"
    using tu(2,7) by auto
  have "val (parts ! i) \<in> {val (fs ! i), val (fs ! i) + ?u}"
    if "val lo = of_nat j * ?u" "j \<le> length fs" "i < length fs" for i j
    using tu(8,9) that parts(4) assms(8) by auto
  with tu(1) parts(1-3) show ?thesis by blast
qed

lemma apportion_result:
  assumes w: "weights_ok D val kw ws" and dp: "dp \<le> 19" "dp \<le> k" and m: "multiple k (val (amount a))"
    and close: "shares_close D val \<delta> (amount a) ws"
    and fit: "fits_gross k (of_nat (length ws) * (\<bar>val (amount a)\<bar> + \<delta>) + 2 * \<bar>val (amount a)\<bar> + \<delta> + minor_unit dp)"
  obtains parts fs where "apportion D chk a ws dp = Ok parts" "length parts = length ws" "length fs = length ws"
    "\<forall>p\<in>set parts. currency p = currency a" "(\<Sum>p\<leftarrow>parts. val (amount p)) = val (amount a)"
    "\<forall>i<length ws. \<exists>e. \<bar>e - val (amount a) * val (ws ! i) / (\<Sum>w\<leftarrow>ws. val w)\<bar> \<le> \<delta> \<and>
       val (fs ! i) = round_rat ToZero dp e"
    "\<And>j. val (amount a) - (\<Sum>x\<leftarrow>fs. val x) = of_nat j * minor_unit dp \<Longrightarrow> j \<le> length ws \<Longrightarrow>
       \<forall>i<length ws. val (amount (parts ! i)) \<in> {val (fs ! i), val (fs ! i) + minor_unit dp}"
proof -
  let ?n = "length ws" and ?u = "minor_unit dp" and ?A = "amount a"
  define M where "M = \<bar>val ?A\<bar> + \<delta>"
  obtain t where t: "dec_sum D ws = (Ok t :: (unit, 'd) res)" "val t = (\<Sum>w\<leftarrow>ws. val w)" "0 < val t"
    "\<forall>w\<in>set ws. 0 \<le> val w \<and> val w \<le> val t" using weights_sum [OF w] by blast
  have tp: "dec_sum D ws = (Ok t :: ('d pricing_error, 'd) res)" by (rule iffD1 [OF dec_sum_retype t(1)])
  have sh: "\<forall>w\<in>set ws. \<exists>e. share_is D ?A w t e \<and> representable (val e) \<and> \<bar>val e - val ?A * val w / val t\<bar> \<le> \<delta>"
    using close t(1) by (simp add: shares_close_def)
  obtain drs where drs: "res_mapM (floor_share D ?A t dp) ws = (Ok drs :: ('d pricing_error, ('d \<times> 'd) list) res)"
    "length drs = ?n" "\<forall>i<?n. \<exists>e. \<bar>e - val ?A * val (ws ! i) / val t\<bar> \<le> \<delta> \<and> val (map fst drs ! i) = round_rat ToZero dp e"
    "\<forall>x\<in>set (map fst drs). multiple k (val x) \<and> \<bar>val x\<bar> \<le> M"
    using floored_shares [OF sh t(4,3) dp(2)] unfolding M_def by blast
  define fs where "fs = map fst drs"
  have lf: "length fs = ?n" by (simp add: fs_def drs)
  have fset: "\<forall>x\<in>set fs. multiple k (val x) \<and> \<bar>val x\<bar> \<le> M" using drs(4) by (simp add: fs_def)
  have n1: "0 < ?n" "ws \<noteq> []" using w by (auto simp: weights_ok_def)
  have M0: "0 \<le> M" using fset lf n1 by (cases fs) force+
  note up = minor_unit_pos [of dp]
  have fit': "fits_gross k (of_nat ?n * M + \<bar>val ?A\<bar> + M + ?u)" using fit by (simp add: M_def algebra_simps)
  have fl0: "fits_gross k (of_nat (length fs) * M + \<bar>val ?A\<bar>)"
    by (rule fits_gross_mono [OF fit']) (use M0 up lf in simp)
  obtain ds lo where ds: "dec_sum D fs = (Ok ds :: ('d pricing_error, 'd) res)"
    and lo: "dec_sub D ?A ds = (Ok lo :: ('d pricing_error, 'd) res)" "val lo = val ?A - (\<Sum>x\<leftarrow>fs. val x)"
      "multiple k (val lo)" "\<bar>val lo\<bar> \<le> of_nat (length fs) * M + \<bar>val ?A\<bar>"
    by (rule leftover_value [OF fset M0 m fl0])
  obtain pn st where st: "pow10_u64 chk dp = (Ok pn :: ('d pricing_error, int) res)"
    "dec_div D (dec_one D) (dec_from_int D pn) = (Ok st :: ('d pricing_error, 'd) res)" "val st = ?u"
    using step_value [OF dp(1)] by blast
  define rs where "rs = sort_by (remainder_le D) (enumerate 0 (map snd drs))"
  have rs: "distinct (map fst rs)" "set (map fst rs) = {0..<length fs}" "length rs = length fs"
    using sorted_enumerate [of "remainder_le D" "map snd drs"] by (simp_all add: rs_def drs(2) lf)
  have ne: "fs \<noteq> []" using n1 lf by auto
  have fg: "fits_gross k (M + ?u + \<bar>val lo\<bar>)" by (rule fits_gross_mono [OF fit']) (use lo(4) lf in simp)
  obtain l' fl parts where tu: "top_up D st rs lo fs = (Ok (l', fl) :: ('d pricing_error, 'd \<times> 'd list) res)"
    and parts: "settle_residue D (fst (rs ! 0)) l' fl = (Ok parts :: ('d pricing_error, 'd list) res)"
      "length parts = length fs" "(\<Sum>x\<leftarrow>parts. val x) = (\<Sum>x\<leftarrow>fs. val x) + val lo"
      "\<And>j. val lo = of_nat j * ?u \<Longrightarrow> j \<le> length fs \<Longrightarrow>
        \<forall>i<length fs. val (parts ! i) \<in> {val (fs ! i), val (fs ! i) + ?u}"
    using settled_parts [OF st(3) dp(2) fset ne lo(3) rs fg] by blast
  have neg: "\<not> list_ex (is_sign_negative D) ws" using w by (auto simp: weights_ok_def list_ex_iff)
  have pos: "\<not> dec_le D t (dec_zero D)" using t(3) by simp
  have "apportion D chk a ws dp = Ok (map (\<lambda>x. money_new x (currency a)) parts)"
    unfolding apportion_def Let_def
    using neg n1(2) pos tp st(1,2) drs(1) ds lo(1) tu parts(1) by (simp add: fs_def rs_def)
  then show ?thesis
  proof (rule that [of _ fs])
    show "\<forall>i<length ws. \<exists>e. \<bar>e - val (amount a) * val (ws ! i) / (\<Sum>w\<leftarrow>ws. val w)\<bar> \<le> \<delta> \<and>
       val (fs ! i) = round_rat ToZero dp e"
      using drs(3) by (simp add: fs_def t(2))
    show "\<forall>i<length ws. val (amount (map (\<lambda>x. money_new x (currency a)) parts ! i)) \<in>
        {val (fs ! i), val (fs ! i) + minor_unit dp}"
      if "val (amount a) - (\<Sum>x\<leftarrow>fs. val x) = of_nat j * minor_unit dp" "j \<le> length ws" for j
      using parts(4) [of j] that parts(2) lo(2) lf by simp
  qed (use parts lo(2) lf in \<open>auto simp: comp_def\<close>)
qed

end

end
