(* ===== verification/Pricing_Properties.thy ===== *)
theory Pricing_Properties
  imports Apportion_Proofs Decimal_Ref
begin

text \<open>
  The properties of \<open>crates/cost-spine/src/pricing.rs\<close>, with witnesses on the reference
  decimals.
\<close>

section \<open>Cost measures\<close>

text \<open>
  C13: inputs are priced exactly when they are valid (no negative quantity, list price or
  coverage, rates within 0 and 1), and then the three measures are the closed formulas:
  list price times quantity; the uncovered quantity at the discounted price, plus the
  covered quantity at the committed price, which the bill omits when it was prepaid.
\<close>

theorem compute_measures:
  assumes "decimal_laws D val" "priced_within p P q Q r val x"
  shows "((\<exists>a. compute D x = Ok a) \<longleftrightarrow> valid_inputs D val x) \<and>
    (valid_inputs D val x \<longrightarrow> (\<exists>a. compute D x = Ok a \<and>
       val (amount (list_cost a)) = val (list_unit_price x) * val (quantity x) \<and>
       val (amount (effective_cost a)) = on_demand_value val x + covered_value val x \<and>
       val (amount (billed_cost a)) =
         on_demand_value val x + (if prepaid_cover x then 0 else covered_value val x) \<and>
       currency (list_cost a) = inputs_currency x \<and> currency (billed_cost a) = inputs_currency x \<and>
       currency (effective_cost a) = inputs_currency x))"
proof -
  have "valid_inputs D val x" if "compute D x = Ok a" for a
  proof -
    from that have "check_rates D (discounts x) = Ok ()" "\<exists>c. coverage D x = Ok c"
      "\<not> is_sign_negative D (quantity x)" "\<not> is_sign_negative D (list_unit_price x)"
      by (auto simp: compute_def split: if_splits)
    then show ?thesis
      using decimal_laws.check_rates_Ok [OF assms(1)]
      by (auto simp: valid_inputs_def coverage_def split: if_splits option.splits)
  qed
  with decimal_laws.compute_formula [OF assms(1) _ assms(2)] show ?thesis by metis
qed

definition demo_inputs :: "refdec pricing_inputs" where
  "demo_inputs = \<lparr>list_unit_price = Dec 3277 2, quantity = Dec 100 0, inputs_currency = Usd,
     discounts = [Negotiated (Dec 10 2)],
     commitment = Some \<lparr>covered_quantity = Dec 60 0, committed_unit_price = Dec 20 0, prepaid = True\<rparr>\<rparr>"

lemma ref_on_grid: "s \<le> k \<Longrightarrow> \<bar>m\<bar> * 10 ^ (k - s) \<le> B \<Longrightarrow> on_grid k B (ref_val (Dec m s))"
proof -
  assume a: "s \<le> k" "\<bar>m\<bar> * 10 ^ (k - s) \<le> B"
  then have "(10::rat) ^ k = 10 ^ s * 10 ^ (k - s)" by (simp flip: power_add)
  then have "ref_val (Dec m s) = of_int (m * 10 ^ (k - s)) / 10 ^ k" by (simp add: ref_val_def)
  with a(2) show ?thesis unfolding on_grid_def by (intro exI [of _ "m * 10 ^ (k - s)"]) (simp add: abs_mult)
qed

lemma demo_within: "priced_within 2 10000 0 1000 2 ref_val demo_inputs"
  by (simp add: priced_within_def demo_inputs_def max_mantissa_def ref_on_grid)

lemma demo_valid: "valid_inputs ref_ops ref_val demo_inputs"
  by (simp add: valid_inputs_def demo_inputs_def ref_eval ref_val_def)

theorem compute_measures_witness:
  "\<exists>a. compute ref_ops demo_inputs = Ok a \<and> ref_val (amount (effective_cost a)) = 237972 / 100"
proof -
  from compute_measures [OF ref_laws demo_within] demo_valid obtain a where
    "compute ref_ops demo_inputs = Ok a" "ref_val (amount (effective_cost a)) =
       on_demand_value ref_val demo_inputs + covered_value ref_val demo_inputs" by blast
  then show ?thesis
    by (simp add: on_demand_value_def covered_value_def covered_units_def committed_rate_def keep_rate_def
        demo_inputs_def ref_val_def min_def)
qed

text \<open>
  With a committed price between zero and the list price, the effective cost is at
  least zero, at least the billed cost and at most the list cost; and without prepaid
  coverage the billed and the effective cost agree.
\<close>

theorem compute_bounds:
  assumes "decimal_laws D val" "priced_within p P q Q r val x" "valid_inputs D val x"
    "0 \<le> committed_rate val x" "committed_rate val x \<le> val (list_unit_price x)"
  shows "\<exists>a. compute D x = Ok a \<and> 0 \<le> val (amount (billed_cost a)) \<and>
    val (amount (billed_cost a)) \<le> val (amount (effective_cost a)) \<and>
    val (amount (effective_cost a)) \<le> val (amount (list_cost a)) \<and>
    (\<not> prepaid_cover x \<longrightarrow> val (amount (billed_cost a)) = val (amount (effective_cost a)))"
proof -
  obtain a where "compute D x = Ok a"
    "val (amount (list_cost a)) = val (list_unit_price x) * val (quantity x)"
    "val (amount (effective_cost a)) = on_demand_value val x + covered_value val x"
    "val (amount (billed_cost a)) = on_demand_value val x + (if prepaid_cover x then 0 else covered_value val x)"
    using decimal_laws.compute_formula [OF assms(1,3,2)] by metis
  with decimal_laws.value_bounds [OF assms(1,3-5)] show ?thesis by auto
qed

theorem compute_bounds_witness:
  "\<exists>a. compute ref_ops demo_inputs = Ok a \<and>
     ref_val (amount (billed_cost a)) \<le> ref_val (amount (effective_cost a))"
proof -
  have "0 \<le> committed_rate ref_val demo_inputs"
    "committed_rate ref_val demo_inputs \<le> ref_val (list_unit_price demo_inputs)"
    by (simp_all add: committed_rate_def demo_inputs_def ref_val_def)
  from compute_bounds [OF ref_laws demo_within demo_valid this] show ?thesis by blast
qed

text \<open>
  The order in which discounts are listed cannot change any of the three measures.
\<close>

theorem discount_order_irrelevant:
  assumes "decimal_laws D val" "priced_within p P q Q r val x" "valid_inputs D val x"
    "mset ds = mset (discounts x)"
  shows "\<exists>a b. compute D x = Ok a \<and> compute D (x\<lparr>discounts := ds\<rparr>) = Ok b \<and>
    val (amount (list_cost a)) = val (amount (list_cost b)) \<and>
    val (amount (billed_cost a)) = val (amount (billed_cost b)) \<and>
    val (amount (effective_cost a)) = val (amount (effective_cost b))"
proof -
  let ?y = "x\<lparr>discounts := ds\<rparr>"
  have s: "set ds = set (discounts x)" "length ds = length (discounts x)"
    using assms(4) by (auto dest: mset_eq_setD mset_eq_length)
  have k: "keep_rate val ds = keep_rate val (discounts x)"
    unfolding keep_rate_def prod_mset_prod_list [symmetric] mset_map assms(4) ..
  have y: "priced_within p P q Q r val ?y" "valid_inputs D val ?y"
    using assms(2,3) s by (simp_all add: priced_within_def valid_inputs_def)
  have same: "on_demand_value val ?y = on_demand_value val x" "covered_value val ?y = covered_value val x"
    "prepaid_cover ?y = prepaid_cover x"
    by (simp_all add: on_demand_value_def covered_value_def covered_units_def committed_rate_def
        prepaid_cover_def k split: option.splits)
  note f = decimal_laws.compute_formula [OF assms(1)]
  from f [OF assms(3,2)] obtain a where "compute D x = Ok a"
    "val (amount (list_cost a)) = val (list_unit_price x) * val (quantity x)"
    "val (amount (effective_cost a)) = on_demand_value val x + covered_value val x"
    "val (amount (billed_cost a)) = on_demand_value val x + (if prepaid_cover x then 0 else covered_value val x)"
    by blast
  moreover from f [OF y(2,1)] obtain b where "compute D ?y = Ok b"
    "val (amount (list_cost b)) = val (list_unit_price ?y) * val (quantity ?y)"
    "val (amount (effective_cost b)) = on_demand_value val ?y + covered_value val ?y"
    "val (amount (billed_cost b)) = on_demand_value val ?y + (if prepaid_cover ?y then 0 else covered_value val ?y)"
    by blast
  ultimately show ?thesis by (simp add: same)
qed

theorem discount_order_irrelevant_witness:
  "\<exists>a b. compute ref_ops (demo_inputs\<lparr>discounts := [Negotiated (Dec 10 2), Volume (Dec 25 2)]\<rparr>) = Ok a \<and>
     compute ref_ops (demo_inputs\<lparr>discounts := [Volume (Dec 25 2), Negotiated (Dec 10 2)]\<rparr>) = Ok b \<and>
     ref_val (amount (effective_cost a)) = ref_val (amount (effective_cost b))"
proof -
  let ?x = "demo_inputs\<lparr>discounts := [Negotiated (Dec 10 2), Volume (Dec 25 2)]\<rparr>"
  have "priced_within 2 10000 0 1000 2 ref_val ?x" "valid_inputs ref_ops ref_val ?x"
    "mset [Volume (Dec 25 2), Negotiated (Dec 10 2)] = mset (discounts ?x)"
    subgoal by (simp add: priced_within_def demo_inputs_def max_mantissa_def ref_on_grid)
    subgoal by (simp add: valid_inputs_def demo_inputs_def ref_eval ref_val_def)
    by (simp add: demo_inputs_def)
  from discount_order_irrelevant [OF ref_laws this] show ?thesis by force
qed

section \<open>Apportionment\<close>

text \<open>
  C8: apportionment conserves the total exactly, for any sign and any precision of the
  total, and returns one share per weight in the total's currency.
\<close>

theorem apportion_conserves:
  assumes "decimal_laws D val" "weights_ok D val kw ws" "dp \<le> 19" "dp \<le> k" "multiple k (val (amount a))"
    "shares_close D val \<delta> (amount a) ws"
    "fits_gross k (of_nat (length ws) * (\<bar>val (amount a)\<bar> + \<delta>) + 2 * \<bar>val (amount a)\<bar> + \<delta> + minor_unit dp)"
  shows "\<exists>parts. apportion D chk a ws dp = Ok parts \<and> length parts = length ws \<and>
    (\<forall>p\<in>set parts. currency p = currency a) \<and> (\<Sum>p\<leftarrow>parts. val (amount p)) = val (amount a)"
  using decimal_laws.apportion_result [OF assms] by metis

definition node_cost :: "refdec money" where
  "node_cost = money_new (Dec 10000 2) Usd"

definition three_weights :: "refdec list" where
  "three_weights = [Dec 1 0, Dec 1 0, Dec 1 0]"

lemma node_weights: "weights_ok ref_ops ref_val 0 three_weights"
  by (simp add: weights_ok_def three_weights_def ref_eval ref_val_def multiple_def fits_gross_def max_mantissa_def)

lemma node_third: "share_is ref_ops (Dec 10000 2) (Dec 1 0) (Dec 3 0) (Dec 33333333333333333333333333333 27)"
  by (simp add: share_is_def ref_eval Let_def)

lemma node_shares: "shares_close ref_ops ref_val (1 / 10 ^ 20) (amount node_cost) three_weights"
proof -
  have t: "dec_sum ref_ops three_weights = (Ok (Dec 3 0) :: (unit, refdec) res)"
    by (simp add: three_weights_def dec_sum_def dec_add_def ref_eval)
  have "representable (ref_val (Dec 33333333333333333333333333333 27))"
    unfolding representable_def
    by (intro exI [of _ 27] conjI ref_on_grid) (simp_all add: max_mantissa_def)
  moreover have "\<bar>ref_val (Dec 33333333333333333333333333333 27) - 100 / 3\<bar> \<le> 1 / 10 ^ 20"
    by (simp add: ref_val_def)
  moreover have "ref_val (Dec 10000 2) = 100" "ref_val (Dec 1 0) = 1" "ref_val (Dec 3 0) = 3"
    by (simp_all add: ref_val_def)
  moreover have "set three_weights = {Dec 1 0}" "amount node_cost = Dec 10000 2"
    by (simp_all add: three_weights_def node_cost_def)
  ultimately show ?thesis using node_third unfolding shares_close_def t
    by (intro allI impI ballI exI [of _ "Dec 33333333333333333333333333333 27"]) auto
qed

lemma node_fits: "multiple 2 (ref_val (amount node_cost))"
  "fits_gross 2 (of_nat (length three_weights) * (\<bar>ref_val (amount node_cost)\<bar> + 1 / 10 ^ 20) +
     2 * \<bar>ref_val (amount node_cost)\<bar> + 1 / 10 ^ 20 + minor_unit 2)"
  by (auto simp: node_cost_def three_weights_def multiple_def ref_val_def fits_gross_def max_mantissa_def minor_unit_def)

theorem apportion_conserves_witness:
  "\<exists>parts. apportion ref_ops True node_cost three_weights 2 = Ok parts \<and>
     (\<Sum>p\<leftarrow>parts. ref_val (amount p)) = ref_val (amount node_cost)"
  using apportion_conserves [OF ref_laws node_weights _ _ node_fits(1) node_shares node_fits(2)] by auto

text \<open>
  C9: on a non-negative total that is a whole number of minor units, every share is within
  one minor unit (and the quotient's own error) of its exact proportion.
\<close>

theorem apportion_quota:
  assumes "decimal_laws D val" "weights_ok D val kw ws" "dp \<le> 19" "dp \<le> k" "multiple dp (val (amount a))"
    "shares_close D val \<delta> (amount a) ws"
    "fits_gross k (of_nat (length ws) * (\<bar>val (amount a)\<bar> + \<delta>) + 2 * \<bar>val (amount a)\<bar> + \<delta> + minor_unit dp)"
    "0 \<le> val (amount a)" "of_nat (length ws) * \<delta> < minor_unit dp"
  shows "\<exists>parts. apportion D chk a ws dp = Ok parts \<and> length parts = length ws \<and>
    (\<forall>i<length ws. \<bar>val (amount (parts ! i)) - val (amount a) * val (ws ! i) / (\<Sum>w\<leftarrow>ws. val w)\<bar>
       \<le> minor_unit dp + \<delta>)"
proof -
  let ?n = "length ws" and ?u = "minor_unit dp" and ?A = "val (amount a)" and ?W = "\<Sum>w\<leftarrow>ws. val w"
  define x where "x = (\<lambda>i. ?A * val (ws ! i) / ?W)"
  obtain parts fs where p: "apportion D chk a ws dp = Ok parts" "length parts = ?n" "length fs = ?n"
    "\<forall>i<?n. \<exists>e. \<bar>e - x i\<bar> \<le> \<delta> \<and> val (fs ! i) = round_rat ToZero dp e"
    and units: "\<And>j. ?A - (\<Sum>x\<leftarrow>fs. val x) = of_nat j * ?u \<Longrightarrow> j \<le> ?n \<Longrightarrow>
       \<forall>i<?n. val (amount (parts ! i)) \<in> {val (fs ! i), val (fs ! i) + ?u}"
    using decimal_laws.apportion_result [OF assms(1-4) multiple_lift [OF assms(5,4)] assms(6,7)]
    unfolding x_def by metis
  have W: "0 < ?W" and n1: "0 < ?n" using assms(2) by (auto simp: weights_ok_def)
  have x0: "0 \<le> x i" if "i < ?n" for i
    using assms(2,8) W that decimal_laws.not_sign_negative [OF assms(1)] by (auto simp: x_def weights_ok_def)
  have sx: "(\<Sum>i<?n. x i) = ?A"
  proof -
    have "(\<Sum>i<?n. x i) = ?A * (\<Sum>i<?n. val (ws ! i)) / ?W"
      by (simp add: x_def sum_distrib_left sum_divide_distrib)
    with W show ?thesis by (simp add: sum_list_sum_nth atLeast0LessThan)
  qed
  have sf: "(\<Sum>y\<leftarrow>fs. val y) = (\<Sum>i<?n. val (fs ! i))"
    by (simp add: sum_list_sum_nth p(3) atLeast0LessThan)
  have "\<forall>i<?n. 0 \<le> x i" using x0 by blast
  from truncated_leftover [OF this p(4) n1 _ assms(9)] obtain j where
    "j \<le> ?n" "?A - (\<Sum>y\<leftarrow>fs. val y) = of_nat j * ?u"
    unfolding sx sf using assms(5) by blast
  from this(2,1)
  have handed: "\<forall>i<?n. val (amount (parts ! i)) \<in> {val (fs ! i), val (fs ! i) + ?u}" by (rule units)
  have near: "x i - \<delta> - ?u < val (fs ! i) \<and> val (fs ! i) \<le> x i + \<delta>" if "i < ?n" for i
    using p(4) truncated_near x0 that by metis
  have "\<bar>val (amount (parts ! i)) - x i\<bar> \<le> ?u + \<delta>" if i: "i < ?n" for i
  proof -
    from handed i consider "val (amount (parts ! i)) = val (fs ! i)" | "val (amount (parts ! i)) = val (fs ! i) + ?u"
      by auto
    then show ?thesis using near [OF i] minor_unit_pos [of dp] by cases linarith+
  qed
  with p(1,2) show ?thesis unfolding x_def by blast
qed

theorem apportion_quota_witness:
  "\<exists>parts. apportion ref_ops False node_cost three_weights 2 = Ok parts \<and>
     \<bar>ref_val (amount (parts ! 0)) - 100 / 3\<bar> \<le> minor_unit 2 + 1 / 10 ^ 20"
proof -
  have "0 \<le> ref_val (amount node_cost)" "of_nat (length three_weights) * (1 / 10 ^ 20) < minor_unit 2"
    by (simp_all add: node_cost_def ref_val_def three_weights_def minor_unit_def)
  from apportion_quota [OF ref_laws node_weights _ _ node_fits(1) node_shares node_fits(2) this, of False]
  show ?thesis
    by (auto simp: node_cost_def three_weights_def ref_val_def)
qed

text \<open>
  What the loop does with a negative total. No minor unit is handed out, because the
  loop runs only while the leftover is at least one positive unit; the whole leftover goes
  to the first of the sorted shares. The witness splits \<open>-10.00\<close> over six equal weights:
  the first share is \<open>-1.70\<close>, four units from its floor, where one unit at a time would give \<open>-1.67\<close>.
\<close>

theorem negative_leftover_unspread:
  assumes "decimal_laws D val" "0 < val step" "val left < 0" "rs \<noteq> []" "t < length fl"
  shows "top_up D step rs left fl = (Ok (left, fl) :: ('e, 'd \<times> 'd list) res) \<and>
    settle_residue D t left fl = (res_map (\<lambda>x. fl[t := x]) (dec_add D (fl ! t) left) :: ('e, 'd list) res)"
  using assms decimal_laws.dec_le_val [OF assms(1)] decimal_laws.is_zero_val [OF assms(1)]
  by (cases rs; cases "dec_add D (fl ! t) left :: ('e, 'd) res") (auto simp: settle_residue_def)

lemma sixth:
  "floor_share ref_ops (Dec (- 1000) 2) (Dec 6 0) 2 (Dec 1 0) =
     (Ok (Dec (- 166) 2, Dec (- 66666666666666666666666667) 28) :: ('e, _) res)"
  by (simp add: floor_share_def exact_share_def dec_mul_def dec_div_def dec_sub_def ref_eval Let_def)

lemma rep6: "replicate 6 x = [x, x, x, x, x, x]"
  by (simp add: numeral_eq_Suc)

lemma sixths_sorted:
  "sort_by (remainder_le ref_ops) (enumerate 0 (replicate 6 (Dec m 28))) = enumerate 0 (replicate 6 (Dec m 28))"
  by (simp add: sort_by_def remainder_le_def ref_eval rep6)

lemma six_way_split:
  "apportion ref_ops True (money_new (Dec (- 1000) 2) Usd) (replicate 6 (Dec 1 0)) 2 =
     Ok (map (\<lambda>m. money_new (Dec m 2) Usd) [- 170, - 166, - 166, - 166, - 166, - 166])"
proof -
  let ?r = "Dec (- 66666666666666666666666667) 28"
  have w: "dec_sum ref_ops (replicate 6 (Dec 1 0)) = (Ok (Dec 6 0) :: ('e, _) res)"
    by (simp add: dec_sum_def dec_add_def ref_eval rep6)
  have st: "dec_div ref_ops (dec_one ref_ops) (dec_from_int ref_ops 100) = (Ok (Dec 100000000000000000000000000 28) :: ('e, _) res)"
    by (simp add: dec_div_def ref_eval Let_def)
  have sh: "res_mapM (floor_share ref_ops (Dec (- 1000) 2) (Dec 6 0) 2) (replicate 6 (Dec 1 0)) =
      (Ok (replicate 6 (Dec (- 166) 2, ?r)) :: ('e, _) res)"
    by (simp add: sixth rep6)
  have ds: "dec_sum ref_ops (replicate 6 (Dec (- 166) 2)) = (Ok (Dec (- 996) 2) :: ('e, _) res)"
    by (simp add: dec_sum_def dec_add_def ref_eval rep6)
  have lo: "dec_sub ref_ops (Dec (- 1000) 2) (Dec (- 996) 2) = (Ok (Dec (- 4) 2) :: ('e, _) res)"
    by (simp add: dec_sub_def ref_eval rep6)
  have tu: "top_up ref_ops (Dec 100000000000000000000000000 28) (enumerate 0 (replicate 6 ?r)) (Dec (- 4) 2) fl =
      (Ok (Dec (- 4) 2, fl) :: ('e, _) res)" for fl
    by (simp add: dec_le_def ref_eval rep6)
  have se: "settle_residue ref_ops 0 (Dec (- 4) 2) (replicate 6 (Dec (- 166) 2)) =
      (Ok [Dec (- 170) 2, Dec (- 166) 2, Dec (- 166) 2, Dec (- 166) 2, Dec (- 166) 2, Dec (- 166) 2] :: ('e, _) res)"
    by (simp add: settle_residue_def dec_add_def ref_eval rep6)
  have "\<not> list_ex (is_sign_negative ref_ops) (replicate 6 (Dec 1 0))" "\<not> dec_le ref_ops (Dec 6 0) (dec_zero ref_ops)"
    by (simp_all add: list_ex_iff dec_le_def ref_eval rep6)
  then show ?thesis
    by (simp add: apportion_def w st sh ds lo sixths_sorted tu pow10_u64_def)
      (simp add: enumerate_replicate_eq se [unfolded rep6] rep6)
qed

theorem negative_leftover_unspread_witness:
  "top_up ref_ops (Dec 1 2) [(0, Dec 0 0)] (Dec (- 4) 2) [Dec (- 166) 2] = (Ok (Dec (- 4) 2, [Dec (- 166) 2]) :: (unit, _) res) \<and>
   apportion ref_ops True (money_new (Dec (- 1000) 2) Usd) (replicate 6 (Dec 1 0)) 2 =
     Ok (map (\<lambda>m. money_new (Dec m 2) Usd) [- 170, - 166, - 166, - 166, - 166, - 166])"
proof -
  have "0 < ref_val (Dec 1 2)" "ref_val (Dec (- 4) 2) < 0" by (simp_all add: ref_val_def)
  from negative_leftover_unspread [OF ref_laws this, of "[(0, Dec 0 0)]" 0 "[Dec (- 166) 2]"]
  have "top_up ref_ops (Dec 1 2) [(0, Dec 0 0)] (Dec (- 4) 2) [Dec (- 166) 2] =
      (Ok (Dec (- 4) 2, [Dec (- 166) 2]) :: (unit, _) res)" by blast
  with six_way_split show ?thesis by blast
qed

end
