(* ===== verification/Json.thy ===== *)
theory Json
  imports BTree Rust_String
begin

text \<open>
  \<open>serde_json::Value\<close>. Without the \<open>preserve_order\<close> feature, which this workspace does
  not enable, an object is a \<open>BTreeMap<String, Value>\<close>. A number is kept as its literal.
  Parsing and printing JSON text are third-party and are arguments of the definitions
  that use them.
\<close>

datatype json =
    JNull
  | JBool bool
  | JNumber string
  | JString string
  | JArray "json list"
  | JObject "(string, json) btree"

fun as_object :: "json \<Rightarrow> (string, json) btree option" where
  "as_object (JObject m) = Some m"
| "as_object _ = None"

fun as_str :: "json \<Rightarrow> string option" where
  "as_str (JString s) = Some s"
| "as_str _ = None"

text \<open>\<open>Value::get\<close> with a string index.\<close>

definition json_get :: "json \<Rightarrow> string \<Rightarrow> json option" where
  "json_get v k = Option.bind (as_object v) (\<lambda>m. bt_get m k)"

text \<open>\<open>Map::extend\<close>.\<close>

definition bt_extend :: "('k::linorder, 'v) btree \<Rightarrow> ('k \<times> 'v) list \<Rightarrow> ('k, 'v) btree" where
  "bt_extend m kvs = fold (\<lambda>(k, v) a. bt_insert k v a) kvs m"

definition json_is_string :: "json \<Rightarrow> bool" where
  "json_is_string v \<longleftrightarrow> as_str v \<noteq> None"

lemma as_object_Some [simp]: "as_object v = Some m \<longleftrightarrow> v = JObject m"
  by (cases v) auto

lemma as_str_Some [simp]: "as_str v = Some s \<longleftrightarrow> v = JString s"
  by (cases v) auto

lemma bt_extend_wf [simp]: "bt_wf m \<Longrightarrow> bt_wf (bt_extend m kvs)"
  unfolding bt_extend_def by (induction kvs arbitrary: m) auto

lemma bt_extend_get: "bt_wf m \<Longrightarrow> bt_get (bt_extend m kvs) k =
    (case map_of (rev kvs) k of Some v \<Rightarrow> Some v | None \<Rightarrow> bt_get m k)"
  unfolding bt_extend_def
  by (induction kvs arbitrary: m) (auto simp: map_add_def split: option.splits)

end
