(* ===== verification/Cost_Event.thy ===== *)
theory Cost_Event
  imports Money Json
begin

text \<open>
  \<open>crates/cost-spine/src/event.rs\<close>: the FOCUS-shaped cost record, its enumerations and the
  checks of its constructor. The fresh identifier of a new record is an argument.
\<close>

section \<open>Enumerations\<close>

datatype ProviderKind = Aws | Gcp | Azure | CoreWeave | Oci | Internal

fun provider_as_str :: "ProviderKind \<Rightarrow> string" where
  "provider_as_str Aws = ''aws''"
| "provider_as_str Gcp = ''gcp''"
| "provider_as_str Azure = ''azure''"
| "provider_as_str CoreWeave = ''coreweave''"
| "provider_as_str Oci = ''oci''"
| "provider_as_str Internal = ''internal''"

definition provider_from_stored :: "string \<Rightarrow> ProviderKind option" where
  "provider_from_stored s = (let k = to_ascii_lowercase (trim s) in
     if k = ''aws'' then Some Aws
     else if k = ''gcp'' then Some Gcp
     else if k = ''azure'' then Some Azure
     else if k = ''coreweave'' then Some CoreWeave
     else if k = ''oci'' then Some Oci
     else if k = ''internal'' then Some Internal
     else None)"

datatype ChargeCategory = Usage | Purchase | Tax | Credit | Adjustment

definition creates_commitment :: "ChargeCategory \<Rightarrow> bool" where
  "creates_commitment c \<longleftrightarrow> c = Purchase"

fun charge_as_str :: "ChargeCategory \<Rightarrow> string" where
  "charge_as_str Usage = ''usage''"
| "charge_as_str Purchase = ''purchase''"
| "charge_as_str Tax = ''tax''"
| "charge_as_str Credit = ''credit''"
| "charge_as_str Adjustment = ''adjustment''"

definition charge_from_stored :: "string \<Rightarrow> ChargeCategory option" where
  "charge_from_stored s = (let k = to_ascii_lowercase (trim s) in
     if k = ''usage'' then Some Usage
     else if k = ''purchase'' then Some Purchase
     else if k = ''tax'' then Some Tax
     else if k = ''credit'' then Some Credit
     else if k = ''adjustment'' then Some Adjustment
     else None)"

datatype ServiceCategory =
    AiAndMachineLearning | Analytics | BusinessApplications | Compute | Databases | DeveloperTools
  | Identity | Integration | InternetOfThings | ManagementAndGovernance | Media | Migration | Mobile
  | Multicloud | Networking | Security | Storage | Web | Other

fun service_as_str :: "ServiceCategory \<Rightarrow> string" where
  "service_as_str AiAndMachineLearning = ''ai_and_machine_learning''"
| "service_as_str Analytics = ''analytics''"
| "service_as_str BusinessApplications = ''business_applications''"
| "service_as_str Compute = ''compute''"
| "service_as_str Databases = ''databases''"
| "service_as_str DeveloperTools = ''developer_tools''"
| "service_as_str Identity = ''identity''"
| "service_as_str Integration = ''integration''"
| "service_as_str InternetOfThings = ''internet_of_things''"
| "service_as_str ManagementAndGovernance = ''management_and_governance''"
| "service_as_str Media = ''media''"
| "service_as_str Migration = ''migration''"
| "service_as_str Mobile = ''mobile''"
| "service_as_str Multicloud = ''multicloud''"
| "service_as_str Networking = ''networking''"
| "service_as_str Security = ''security''"
| "service_as_str Storage = ''storage''"
| "service_as_str Web = ''web''"
| "service_as_str Other = ''other''"

definition service_candidates :: "ServiceCategory list" where
  "service_candidates =
     [AiAndMachineLearning, Analytics, BusinessApplications, Compute, Databases, DeveloperTools,
      Identity, Integration, InternetOfThings, ManagementAndGovernance, Media, Migration, Mobile,
      Multicloud, Networking, Security, Storage, Web, Other]"

definition service_from_stored :: "string \<Rightarrow> ServiceCategory option" where
  "service_from_stored s = (let k = trim s in find (\<lambda>c. service_as_str c = k) service_candidates)"

definition service_from_focus_value :: "string \<Rightarrow> ServiceCategory" where
  "service_from_focus_value v = (let k = to_ascii_lowercase (trim v) in
     if k = ''ai and machine learning'' then AiAndMachineLearning
     else if k = ''analytics'' then Analytics
     else if k = ''business applications'' then BusinessApplications
     else if k = ''compute'' then Compute
     else if k = ''databases'' then Databases
     else if k = ''developer tools'' then DeveloperTools
     else if k = ''identity'' then Identity
     else if k = ''integration'' then Integration
     else if k = ''internet of things'' then InternetOfThings
     else if k = ''management and governance'' then ManagementAndGovernance
     else if k = ''media'' then Media
     else if k = ''migration'' then Migration
     else if k = ''mobile'' then Mobile
     else if k = ''multicloud'' then Multicloud
     else if k = ''networking'' then Networking
     else if k = ''security'' then Security
     else if k = ''storage'' then Storage
     else if k = ''web'' then Web
     else Other)"

interpretation provk: stored_name provider_as_str provider_from_stored to_ascii_lowercase
proof
  show "provider_from_stored s = Some x \<longleftrightarrow> to_ascii_lowercase (trim s) = provider_as_str x" for s x
    by (cases x) (auto simp: provider_from_stored_def Let_def)
  show "to_ascii_lowercase (trim (provider_as_str x)) = provider_as_str x" for x
    by (induction x; code_simp)
qed

interpretation chargec: stored_name charge_as_str charge_from_stored to_ascii_lowercase
proof
  show "charge_from_stored s = Some x \<longleftrightarrow> to_ascii_lowercase (trim s) = charge_as_str x" for s x
    by (cases x) (auto simp: charge_from_stored_def Let_def)
  show "to_ascii_lowercase (trim (charge_as_str x)) = charge_as_str x" for x
    by (induction x; code_simp)
qed

lemma service_from_stored_iff: "service_from_stored s = Some x \<longleftrightarrow> trim s = service_as_str x"
proof -
  have "service_from_stored s = Some y \<Longrightarrow> trim s = service_as_str y" for y
    by (auto simp: service_from_stored_def Let_def find_Some_iff)
  moreover have "trim s = service_as_str x \<Longrightarrow> service_from_stored s = Some x"
    by (cases x) (simp_all add: service_from_stored_def service_candidates_def)
  ultimately show ?thesis by blast
qed

interpretation servc: stored_name service_as_str service_from_stored "\<lambda>s. s"
proof
  show "service_from_stored s = Some x \<longleftrightarrow> trim s = service_as_str x" for s x
    by (rule service_from_stored_iff)
  show "trim (service_as_str x) = service_as_str x" for x
    by (induction x; code_simp)
qed

section \<open>The record\<close>

record source_ref =
  ref_provider :: ProviderKind
  external_id :: string
  export_ref :: string
  billing_period :: string
  content_hash :: string
  ingested_at :: datetime

record 'd cost_event =
  event_id :: CostEventId
  billing_account_id :: string
  charge_period_start :: datetime
  charge_period_end :: datetime
  event_billed_cost :: "'d money"
  event_effective_cost :: "'d money"
  event_list_cost :: "'d money"
  service_name :: string
  service_category :: ServiceCategory
  charge_category :: ChargeCategory
  resource_id :: "string option"
  region_id :: "string option"
  event_tags :: json
  event_dims :: dimensions
  event_source :: source_ref

datatype cost_event_error =
    MixedCurrency Currency Currency Currency
  | InvalidChargePeriod datetime datetime

definition cost_event_new ::
  "CostEventId \<Rightarrow> string \<Rightarrow> datetime \<Rightarrow> datetime \<Rightarrow> 'd money \<Rightarrow> 'd money \<Rightarrow> 'd money \<Rightarrow> string
     \<Rightarrow> ServiceCategory \<Rightarrow> ChargeCategory \<Rightarrow> string option \<Rightarrow> string option \<Rightarrow> json \<Rightarrow> dimensions
     \<Rightarrow> source_ref \<Rightarrow> (cost_event_error, 'd cost_event) res" where
  "cost_event_new fresh account start end' billed effective list_c name service charge resource region
     tags dims source =
     (if currency effective \<noteq> currency billed \<or> currency list_c \<noteq> currency billed
      then Err (MixedCurrency (currency billed) (currency effective) (currency list_c))
      else if end' \<le> start then Err (InvalidChargePeriod start end')
      else Ok \<lparr>event_id = fresh, billing_account_id = account, charge_period_start = start,
        charge_period_end = end', event_billed_cost = billed, event_effective_cost = effective,
        event_list_cost = list_c, service_name = name, service_category = service,
        charge_category = charge, resource_id = resource, region_id = region, event_tags = tags,
        event_dims = dims, event_source = source\<rparr>)"

definition event_currency :: "'d cost_event \<Rightarrow> Currency" where
  "event_currency e = currency (event_billed_cost e)"

definition idempotency_key :: "'d cost_event \<Rightarrow> string \<times> ProviderKind" where
  "idempotency_key e = (external_id (event_source e), ref_provider (event_source e))"

text \<open>What the constructor establishes, and what every later stage may rely on.\<close>

definition event_ok :: "'d cost_event \<Rightarrow> bool" where
  "event_ok e \<longleftrightarrow> currency (event_effective_cost e) = event_currency e \<and>
     currency (event_list_cost e) = event_currency e \<and> charge_period_start e < charge_period_end e"

lemma cost_event_new_ok:
  "cost_event_new i a s t b e l n sc cc r g tags d src = Ok ev \<Longrightarrow>
   event_ok ev \<and> event_id ev = i \<and> event_source ev = src \<and> event_dims ev = d \<and> event_tags ev = tags \<and>
   event_effective_cost ev = e \<and> event_billed_cost ev = b \<and> event_list_cost ev = l"
  by (auto simp: cost_event_new_def event_ok_def event_currency_def split: if_splits)

lemma cost_event_new_not_Panic [simp]: "cost_event_new i a s t b e l n sc cc r g tags d src \<noteq> Panic"
  by (simp add: cost_event_new_def)

end
