(* ===== verification/Attribution.thy ===== *)
theory Attribution
  imports Json Money
begin

text \<open>
  \<open>crates/cost-spine/src/attribution\<close>: placing a cost record on the dimensional spine from
  its tags, and the telemetry tier, which is an interface with two implementations that
  never return shares. \<open>Uuid::parse_str\<close> is the argument \<open>parse_uuid\<close>.
\<close>

section \<open>Data\<close>

datatype attribution_error =
    MissingRequiredDimension string
  | UnparseableTag string string string
  | TagsNotAnObject
  | TelemetryUnavailable

record tag_rules =
  project_keys :: "string list"
  run_keys :: "string list"
  team_keys :: "string list"
  customer_keys :: "string list"
  model_keys :: "string list"
  dataset_keys :: "string list"
  commitment_keys :: "string list"
  workload_keys :: "string list"

definition tag_rules_default :: tag_rules where
  "tag_rules_default = \<lparr>
     project_keys = [''falkr:project'', ''project'', ''project_id''],
     run_keys = [''falkr:run'', ''run'', ''run_id'', ''wandb_run_id'', ''mlflow_run_id''],
     team_keys = [''falkr:team'', ''team'', ''team_id'', ''cost-center''],
     customer_keys = [''falkr:customer'', ''customer'', ''customer_id''],
     model_keys = [''falkr:model'', ''model'', ''model_id''],
     dataset_keys = [''falkr:dataset'', ''dataset'', ''dataset_id''],
     commitment_keys = [''falkr:commitment'', ''commitment_id''],
     workload_keys = [''falkr:workload'', ''workload'', ''workload_type'', ''purpose'']\<rparr>"

record attribution_context =
  ctx_tenant :: TenantId
  ctx_provider :: ProviderId
  default_project :: "ProjectId option"
  default_team :: "TeamId option"

section \<open>Tags\<close>

definition function_code_for :: "string option \<Rightarrow> bool \<Rightarrow> FunctionCode" where
  "function_code_for workload run_attributed =
     (let w = map_option (\<lambda>s. to_ascii_lowercase (trim s)) workload in
      if w \<in> Some ` set [''inference'', ''serving'', ''production'', ''prod'', ''api''] then Cogs
      else if w \<in> Some ` set [''training'', ''train'', ''experiment'', ''eval'', ''finetune'', ''fine-tune''] then RnD
      else if w \<in> Some ` set [''internal'', ''tooling'', ''platform'', ''ci''] then OpEx
      else if run_attributed then RnD else OpEx)"

text \<open>The closure \<open>lookup\<close>: the first key whose value is a string that is not blank.\<close>

fun lookup_tag :: "(string, json) btree \<Rightarrow> string list \<Rightarrow> (string \<times> string) option" where
  "lookup_tag m [] = None"
| "lookup_tag m (k # ks) =
     (case map_option trim (Option.bind (bt_get m k) as_str) of
        None \<Rightarrow> lookup_tag m ks
      | Some v \<Rightarrow> if v = [] then lookup_tag m ks else Some (k, v))"

text \<open>The closure \<open>parse_id\<close>.\<close>

fun parse_id ::
  "(string \<Rightarrow> uuid option) \<Rightarrow> (string \<times> string) option \<Rightarrow> string \<Rightarrow> (attribution_error, uuid option) res" where
  "parse_id parse_uuid None what = Ok None"
| "parse_id parse_uuid (Some (key, v)) what =
     (case parse_uuid v of Some u \<Rightarrow> Ok (Some u) | None \<Rightarrow> Err (UnparseableTag key v what))"

text \<open>\<open>.map(..).or(default).ok_or(..)\<close>.\<close>

definition or_default :: "'a option \<Rightarrow> 'a option \<Rightarrow> string \<Rightarrow> (attribution_error, 'a) res" where
  "or_default found dflt what =
     ok_or (case found of Some x \<Rightarrow> Some x | None \<Rightarrow> dflt) (MissingRequiredDimension what)"

text \<open>The tail of \<open>attribute\<close>: the optional dimensions that were found.\<close>

definition fill_dims ::
  "uuid option \<Rightarrow> uuid option \<Rightarrow> uuid option \<Rightarrow> uuid option \<Rightarrow> uuid option \<Rightarrow> dimensions \<Rightarrow> dimensions" where
  "fill_dims run customer model dataset commitment dims =
     (let dims = (case run of Some i \<Rightarrow> with_run (RunId i) dims | None \<Rightarrow> dims);
          dims = (case customer of Some i \<Rightarrow> with_customer (CustomerId i) dims | None \<Rightarrow> dims);
          dims = (case model of Some i \<Rightarrow> with_model (ModelId i) dims | None \<Rightarrow> dims);
          dims = (case dataset of Some i \<Rightarrow> with_dataset (DatasetId i) dims | None \<Rightarrow> dims)
      in case commitment of Some i \<Rightarrow> with_commitment (CommitmentId i) dims | None \<Rightarrow> dims)"

definition attribute ::
  "(string \<Rightarrow> uuid option) \<Rightarrow> json \<Rightarrow> tag_rules \<Rightarrow> attribution_context
     \<Rightarrow> (attribution_error, dimensions) res" where
  "attribute parse_uuid tags rules ctx =
     res_bind (ok_or (as_object tags) TagsNotAnObject) (\<lambda>m.
     let parse = (\<lambda>keys what. parse_id parse_uuid (lookup_tag m keys) what) in
     res_bind (parse (project_keys rules) ''project id'') (\<lambda>p.
     res_bind (or_default (map_option ProjectId p) (default_project ctx) ''project_id'') (\<lambda>project.
     res_bind (parse (team_keys rules) ''team id'') (\<lambda>t.
     res_bind (or_default (map_option TeamId t) (default_team ctx) ''team_id'') (\<lambda>team.
     res_bind (parse (run_keys rules) ''run id'') (\<lambda>run.
     res_bind (parse (customer_keys rules) ''customer id'') (\<lambda>customer.
     res_bind (parse (model_keys rules) ''model id'') (\<lambda>model.
     res_bind (parse (dataset_keys rules) ''dataset id'') (\<lambda>dataset.
     res_bind (parse (commitment_keys rules) ''commitment id'') (\<lambda>commitment.
     let workload = map_option snd (lookup_tag m (workload_keys rules));
         fc = function_code_for workload (run \<noteq> None)
     in Ok (fill_dims run customer model dataset commitment
              (dimensions_new (ctx_tenant ctx) project team (ctx_provider ctx) fc))))))))))))"

section \<open>Telemetry\<close>

record 'd attributed_share =
  share_run :: RunId
  share_weight :: 'd
  share_cost :: "'d money"

record charge_window =
  window_start :: datetime
  window_end :: datetime

record dcgm_attributor =
  prometheus_url :: string
  scrape_interval_seconds :: "32 word"

definition dcgm_new :: "string \<Rightarrow> 32 word \<Rightarrow> dcgm_attributor" where
  "dcgm_new url interval = \<lparr>prometheus_url = url, scrape_interval_seconds = interval\<rparr>"

text \<open>The body of the first is \<open>todo!()\<close>, a panic; the second refuses.\<close>

definition dcgm_apportion_node_cost ::
  "dcgm_attributor \<Rightarrow> string \<Rightarrow> charge_window \<Rightarrow> 'd money
     \<Rightarrow> (attribution_error, 'd attributed_share list) res" where
  "dcgm_apportion_node_cost self node window whole = Panic"

definition unavailable_apportion_node_cost ::
  "string \<Rightarrow> charge_window \<Rightarrow> 'd money \<Rightarrow> (attribution_error, 'd attributed_share list) res" where
  "unavailable_apportion_node_cost node window whole = Err TelemetryUnavailable"

section \<open>What attribution means\<close>

text \<open>One dimension read from the tags: \<open>None\<close> when the tag is there and is not a UUID.\<close>

definition tag_dim :: "(string \<Rightarrow> uuid option) \<Rightarrow> (string, json) btree \<Rightarrow> string list \<Rightarrow> uuid option option" where
  "tag_dim parse_uuid m keys =
     (case lookup_tag m keys of None \<Rightarrow> Some None | Some (k, v) \<Rightarrow> map_option Some (parse_uuid v))"

definition first_of :: "'a option \<Rightarrow> 'a option \<Rightarrow> 'a option" where
  "first_of a b = (case a of Some x \<Rightarrow> Some x | None \<Rightarrow> b)"

lemma parse_id_Ok [simp]:
  "parse_id f (lookup_tag m ks) what = Ok u \<longleftrightarrow> tag_dim f m ks = Some u"
  by (auto simp: tag_dim_def split: option.splits)

lemma or_default_Ok [simp]: "or_default a b what = Ok x \<longleftrightarrow> first_of a b = Some x"
  by (simp add: or_default_def first_of_def)

lemma fill_dims_new:
  "fill_dims run customer model dataset commitment (dimensions_new tenant project team provider fc) =
    \<lparr>tenant_id = tenant, project_id = project, run_id = map_option RunId run, team_id = team,
     customer_id = map_option CustomerId customer, model_id = map_option ModelId model,
     dataset_id = map_option DatasetId dataset, provider_id = provider, function_code = fc,
     commitment_id = map_option CommitmentId commitment\<rparr>"
  by (cases run; cases customer; cases model; cases dataset; cases commitment)
     (simp_all add: fill_dims_def dimensions_builders)

text \<open>Exactly when a row is attributed, and to what.\<close>

lemma attribute_Ok_iff:
  "attribute f tags rules ctx = Ok d \<longleftrightarrow>
    (\<exists>m p t. tags = JObject m \<and> tag_dim f m (project_keys rules) = Some p \<and>
      tag_dim f m (team_keys rules) = Some t \<and>
      first_of (map_option ProjectId p) (default_project ctx) = Some (project_id d) \<and>
      first_of (map_option TeamId t) (default_team ctx) = Some (team_id d) \<and>
      map_option (map_option RunId) (tag_dim f m (run_keys rules)) = Some (run_id d) \<and>
      map_option (map_option CustomerId) (tag_dim f m (customer_keys rules)) = Some (customer_id d) \<and>
      map_option (map_option ModelId) (tag_dim f m (model_keys rules)) = Some (model_id d) \<and>
      map_option (map_option DatasetId) (tag_dim f m (dataset_keys rules)) = Some (dataset_id d) \<and>
      map_option (map_option CommitmentId) (tag_dim f m (commitment_keys rules)) = Some (commitment_id d) \<and>
      tenant_id d = ctx_tenant ctx \<and> provider_id d = ctx_provider ctx \<and>
      function_code d =
        function_code_for (map_option snd (lookup_tag m (workload_keys rules))) (run_id d \<noteq> None))"
  (is "?L \<longleftrightarrow> ?R")
proof
  assume ?L
  then obtain m p project t team run customer model dataset commitment where
    "tags = JObject m" "tag_dim f m (project_keys rules) = Some p"
    "first_of (map_option ProjectId p) (default_project ctx) = Some project"
    "tag_dim f m (team_keys rules) = Some t"
    "first_of (map_option TeamId t) (default_team ctx) = Some team"
    "tag_dim f m (run_keys rules) = Some run" "tag_dim f m (customer_keys rules) = Some customer"
    "tag_dim f m (model_keys rules) = Some model" "tag_dim f m (dataset_keys rules) = Some dataset"
    "tag_dim f m (commitment_keys rules) = Some commitment" and
    "d = \<lparr>tenant_id = ctx_tenant ctx, project_id = project, run_id = map_option RunId run, team_id = team,
      customer_id = map_option CustomerId customer, model_id = map_option ModelId model,
      dataset_id = map_option DatasetId dataset, provider_id = ctx_provider ctx,
      function_code = function_code_for (map_option snd (lookup_tag m (workload_keys rules))) (run \<noteq> None),
      commitment_id = map_option CommitmentId commitment\<rparr>"
    by (auto simp: attribute_def Let_def fill_dims_new)
  then show ?R by auto
next
  assume ?R
  then obtain m p t run customer model dataset commitment where
    eqs: "tags = JObject m" "tag_dim f m (project_keys rules) = Some p" "tag_dim f m (team_keys rules) = Some t"
      "first_of (map_option ProjectId p) (default_project ctx) = Some (project_id d)"
      "first_of (map_option TeamId t) (default_team ctx) = Some (team_id d)"
      "tag_dim f m (run_keys rules) = Some run" "run_id d = map_option RunId run"
      "tag_dim f m (customer_keys rules) = Some customer" "customer_id d = map_option CustomerId customer"
      "tag_dim f m (model_keys rules) = Some model" "model_id d = map_option ModelId model"
      "tag_dim f m (dataset_keys rules) = Some dataset" "dataset_id d = map_option DatasetId dataset"
      "tag_dim f m (commitment_keys rules) = Some commitment" "commitment_id d = map_option CommitmentId commitment"
      "tenant_id d = ctx_tenant ctx" "provider_id d = ctx_provider ctx"
      "function_code d = function_code_for (map_option snd (lookup_tag m (workload_keys rules))) (run_id d \<noteq> None)"
    by auto
  then show ?L
    by (auto simp: attribute_def Let_def fill_dims_new intro!: dimensions.equality)
qed

lemma attribute_not_Panic [simp]: "attribute f tags rules ctx \<noteq> Panic"
proof -
  have p: "parse_id f x what \<noteq> Panic" for x what
    by (cases x) (auto split: option.splits)
  show ?thesis by (auto simp: attribute_def Let_def or_default_def p)
qed

lemma lookup_tag_append:
  "lookup_tag m (ks @ ks') = (case lookup_tag m ks of Some x \<Rightarrow> Some x | None \<Rightarrow> lookup_tag m ks')"
  by (induction ks) (auto split: option.splits)

lemma lookup_tag_sound:
  "lookup_tag m ks = Some (k, v) \<Longrightarrow> \<exists>s. k \<in> set ks \<and> bt_get m k = Some (JString s) \<and> v = trim s \<and> v \<noteq> []"
  by (induction ks) (auto split: option.splits if_splits simp: bind_eq_Some_conv)

end
