(* ===== verification/Aws_Focus.thy ===== *)
theory Aws_Focus
  imports Cost_Event Attribution
begin

text \<open>
  \<open>crates/cost-spine/src/connector.rs\<close> and \<open>providers/aws.rs\<close>: reading FOCUS exports and
  normalizing their rows. SHA-256, JSON and CSV text, UUID and RFC 3339 parsing are
  third-party: they are the fields of \<open>externs\<close>. The clock and the fresh record
  identifier are arguments of \<open>normalize\<close>.
\<close>

section \<open>The connector boundary\<close>

record externs =
  sha256_hex :: "string \<Rightarrow> string"
  json_print :: "json \<Rightarrow> string option"
  json_parse :: "string \<Rightarrow> json option"
  uuid_parse :: "string \<Rightarrow> uuid option"
  rfc3339_parse :: "string \<Rightarrow> datetime option"
  csv_headers :: "string \<Rightarrow> (string, string list) res"
  csv_records :: "string \<Rightarrow> (string, string list) res list"

record cursor =
  last_charge_period_end :: "datetime option"
  last_export_ref :: "string option"

definition cursor_beginning :: cursor where
  "cursor_beginning = \<lparr>last_charge_period_end = None, last_export_ref = None\<rparr>"

record raw_cost_record =
  raw_provider :: ProviderKind
  raw_export_ref :: string
  raw_billing_period :: string
  raw_row :: json

datatype connector_error =
    Transport string
  | MalformedExport string string
  | Unauthorized ProviderKind

datatype normalize_error =
    MissingColumn string
  | UnparseableValue string string
  | NormAttribution attribution_error
  | NormCostEvent cost_event_error

section \<open>Export sources\<close>

record aws_export =
  export_key :: string
  export_period :: string

type_synonym memory_source = "(aws_export \<times> string) list"

definition memory_source_new :: memory_source where
  "memory_source_new = []"

definition with_export :: "string \<Rightarrow> string \<Rightarrow> string \<Rightarrow> memory_source \<Rightarrow> memory_source" where
  "with_export k period csv src = src @ [(\<lparr>export_key = k, export_period = period\<rparr>, csv)]"

text \<open>\<open>iter().position(p)\<close>.\<close>

fun position :: "('a \<Rightarrow> bool) \<Rightarrow> 'a list \<Rightarrow> nat option" where
  "position p [] = None"
| "position p (x # xs) = (if p x then Some 0 else map_option Suc (position p xs))"

definition memory_list_exports :: "memory_source \<Rightarrow> cursor \<Rightarrow> (connector_error, aws_export list) res" where
  "memory_list_exports src c =
     (let start = (case last_export_ref c of
                     None \<Rightarrow> 0
                   | Some key \<Rightarrow> (case position (\<lambda>(e, _). export_key e = key) src of
                       Some i \<Rightarrow> i | None \<Rightarrow> 0))
      in Ok (map fst (drop start src)))"

definition memory_read_export :: "memory_source \<Rightarrow> aws_export \<Rightarrow> (connector_error, string) res" where
  "memory_read_export src e =
     ok_or (map_option snd (find (\<lambda>(x, _). export_key x = export_key e) src))
       (MalformedExport (export_key e) ''export not found'')"

section \<open>Columns\<close>

definition user_tag_prefix :: string where
  "user_tag_prefix = ''resourceTags/user:''"

definition row_field :: "json \<Rightarrow> string \<Rightarrow> (normalize_error, string) res" where
  "row_field row name = ok_or (Option.bind (json_get row name) as_str) (MissingColumn name)"

definition optional_field :: "json \<Rightarrow> string \<Rightarrow> string option" where
  "optional_field row name =
     (case map_option trim (Option.bind (json_get row name) as_str) of
        Some s \<Rightarrow> if s = [] then None else Some s
      | None \<Rightarrow> None)"

definition parse_decimal :: "'d decimal_ops \<Rightarrow> string \<Rightarrow> string \<Rightarrow> (normalize_error, 'd) res" where
  "parse_decimal D v column = ok_or (dec_parse D (trim v)) (UnparseableValue column v)"

definition parse_timestamp :: "externs \<Rightarrow> string \<Rightarrow> string \<Rightarrow> (normalize_error, datetime) res" where
  "parse_timestamp X v column = ok_or (rfc3339_parse X (trim v)) (UnparseableValue column v)"

definition parse_currency :: "string option \<Rightarrow> Currency \<Rightarrow> Currency" where
  "parse_currency code fallback =
     (case map_option (\<lambda>s. to_ascii_uppercase (trim s)) code of
        None \<Rightarrow> fallback
      | Some k \<Rightarrow>
          if k = ''USD'' then Usd
          else if k = ''EUR'' then Eur
          else if k = ''GBP'' then Gbp
          else if k = ''JPY'' then Jpy
          else if k = ''CHF'' then Chf
          else if k = ''CAD'' then Cad
          else if k = ''AUD'' then Aud
          else if k = ''SEK'' then Sek
          else if k = ''NOK'' then Nok
          else if k = ''DKK'' then Dkk
          else if k = ''SGD'' then Sgd
          else if k = ''INR'' then Inr
          else fallback)"

definition parse_charge_category :: "string \<Rightarrow> (normalize_error, ChargeCategory) res" where
  "parse_charge_category v = (let k = to_ascii_lowercase (trim v) in
     if k = ''usage'' then Ok Usage
     else if k = ''purchase'' then Ok Purchase
     else if k = ''tax'' then Ok Tax
     else if k = ''credit'' then Ok Credit
     else if k = ''adjustment'' then Ok Adjustment
     else Err (UnparseableValue ''ChargeCategory'' v))"

section \<open>Tags of a row\<close>

definition tags_column :: "externs \<Rightarrow> json \<Rightarrow> (string, json) btree" where
  "tags_column X row =
     (case json_get row ''Tags'' of
        Some (JObject m) \<Rightarrow> m
      | Some (JString s) \<Rightarrow>
          if trim s \<noteq> [] then (case json_parse X s of Some (JObject m) \<Rightarrow> m | _ \<Rightarrow> []) else []
      | _ \<Rightarrow> [])"

definition flat_tag :: "string \<times> json \<Rightarrow> (string, json) btree \<Rightarrow> (string, json) btree" where
  "flat_tag kv out =
     (case kv of (k, v) \<Rightarrow>
       (case strip_prefix user_tag_prefix k of
          Some stripped \<Rightarrow>
            (case as_str v of
               Some s \<Rightarrow> if trim s \<noteq> [] then bt_insert stripped v out else out
             | None \<Rightarrow> out)
        | None \<Rightarrow> out))"

definition collect_tags :: "externs \<Rightarrow> json \<Rightarrow> json" where
  "collect_tags X row =
     (let out = bt_extend [] (tags_column X row)
      in JObject (case as_object row of Some m \<Rightarrow> fold flat_tag m out | None \<Rightarrow> out))"

section \<open>Identity and content of a row\<close>

definition identity_columns :: "string list" where
  "identity_columns = [''BillingAccountId'', ''ChargePeriodStart'', ''ChargePeriodEnd'', ''ServiceName'',
     ''ChargeCategory'', ''ResourceId'', ''RegionId'']"

definition identity_text :: "json \<Rightarrow> string \<Rightarrow> string" where
  "identity_text row period =
     period @ concat (map (\<lambda>name. [CHR 0x1F] @
       (case optional_field row name of Some s \<Rightarrow> s | None \<Rightarrow> [])) identity_columns)"

definition derive_external_id :: "externs \<Rightarrow> json \<Rightarrow> string \<Rightarrow> string" where
  "derive_external_id X row period = sha256_hex X (identity_text row period)"

definition row_hash :: "externs \<Rightarrow> json \<Rightarrow> string" where
  "row_hash X row = sha256_hex X (case json_print X row of Some s \<Rightarrow> s | None \<Rightarrow> [])"

section \<open>The AWS connector\<close>

record aws_connector =
  aws_rules :: tag_rules
  aws_ctx :: attribution_context
  aws_default_currency :: Currency

definition csv_row :: "string list \<Rightarrow> string list \<Rightarrow> json" where
  "csv_row headers record =
     JObject (fold (\<lambda>(h, v) m. bt_insert h (JString v) m) (zip headers record) [])"

definition export_records ::
  "externs \<Rightarrow> aws_export \<Rightarrow> string \<Rightarrow> (connector_error, raw_cost_record list) res" where
  "export_records X e bytes =
     res_bind (res_map_err (MalformedExport (export_key e)) (csv_headers X bytes)) (\<lambda>headers.
     res_mapM (\<lambda>result.
       res_bind (res_map_err (MalformedExport (export_key e)) result) (\<lambda>record.
       Ok \<lparr>raw_provider = Aws, raw_export_ref = export_key e, raw_billing_period = export_period e,
           raw_row = csv_row headers record\<rparr>)) (csv_records X bytes))"

text \<open>\<open>fetch_since\<close>, over any implementation of the export-source trait.\<close>

definition fetch_since ::
  "externs \<Rightarrow> (cursor \<Rightarrow> (connector_error, aws_export list) res)
     \<Rightarrow> (aws_export \<Rightarrow> (connector_error, string) res) \<Rightarrow> cursor
     \<Rightarrow> (connector_error, raw_cost_record list) res" where
  "fetch_since X list_exports read_export c =
     res_bind (list_exports c) (\<lambda>exports.
     res_fold (\<lambda>e records.
       res_bind (read_export e) (\<lambda>bytes.
       res_bind (export_records X e bytes) (\<lambda>rs. Ok (records @ rs)))) exports [])"

definition normalize ::
  "'d decimal_ops \<Rightarrow> externs \<Rightarrow> aws_connector \<Rightarrow> datetime \<Rightarrow> CostEventId \<Rightarrow> raw_cost_record
     \<Rightarrow> (normalize_error, 'd cost_event) res" where
  "normalize D X self now fresh raw =
     (let row = raw_row raw;
          ccy = parse_currency (optional_field row ''BillingCurrency'') (aws_default_currency self);
          money = (\<lambda>name. res_bind (row_field row name) (\<lambda>f.
                     res_bind (parse_decimal D f name) (\<lambda>a. Ok (money_new a ccy))));
          tags = collect_tags X row
      in
      res_bind (res_map_err NormAttribution (attribute (uuid_parse X) tags (aws_rules self) (aws_ctx self))) (\<lambda>dims.
      let source = \<lparr>ref_provider = Aws, external_id = derive_external_id X row (raw_billing_period raw),
            export_ref = raw_export_ref raw, billing_period = raw_billing_period raw,
            content_hash = row_hash X row, ingested_at = now\<rparr>
      in
      res_bind (row_field row ''BillingAccountId'') (\<lambda>billing_account.
      res_bind (row_field row ''ChargePeriodStart'') (\<lambda>ps.
      res_bind (parse_timestamp X ps ''ChargePeriodStart'') (\<lambda>start.
      res_bind (row_field row ''ChargePeriodEnd'') (\<lambda>pe.
      res_bind (parse_timestamp X pe ''ChargePeriodEnd'') (\<lambda>end'.
      res_bind (money ''BilledCost'') (\<lambda>billed.
      res_bind (money ''EffectiveCost'') (\<lambda>effective.
      res_bind (money ''ListCost'') (\<lambda>list_c.
      res_bind (row_field row ''ServiceName'') (\<lambda>name.
      res_bind (row_field row ''ChargeCategory'') (\<lambda>cc.
      res_bind (parse_charge_category cc) (\<lambda>charge.
      res_map_err NormCostEvent
        (cost_event_new fresh billing_account start end' billed effective list_c name
          (service_from_focus_value (case optional_field row ''ServiceCategory'' of Some s \<Rightarrow> s | None \<Rightarrow> ''Other''))
          charge (optional_field row ''ResourceId'') (optional_field row ''RegionId'') tags dims source))))))))))))))"

end
