(* ===== verification/Cost_Properties.thy ===== *)
theory Cost_Properties
  imports Aws_Focus Decimal_Ref
begin

text \<open>
  The properties of the money type, the stored names, attribution and the AWS connector.
\<close>

section \<open>Money and stored names\<close>

text \<open>
  The batch sum is a value of the requested currency, refuses any other currency, and is
  the exact sum whenever the absolute amounts fit a mantissa.
\<close>

theorem try_sum_exact:
  assumes "decimal_laws D val" "\<forall>m\<in>set ms. multiple k (val (amount m))"
    "fits_gross k (\<Sum>m\<leftarrow>ms. \<bar>val (amount m)\<bar>)"
  shows "if \<forall>m\<in>set ms. currency m = c
    then \<exists>t. try_sum D ms c = Ok t \<and> currency t = c \<and> val (amount t) = (\<Sum>m\<leftarrow>ms. val (amount m))
    else \<exists>m\<in>set ms. try_sum D ms c = Err (CurrencyMismatch c (currency m)) \<and> currency m \<noteq> c"
proof -
  have gen: "if \<forall>m\<in>set ms. currency m = currency acc
    then \<exists>t. res_fold (\<lambda>item acc. money_add D acc item) ms acc = Ok t \<and> currency t = currency acc \<and>
      val (amount t) = val (amount acc) + (\<Sum>m\<leftarrow>ms. val (amount m))
    else \<exists>m\<in>set ms. res_fold (\<lambda>item acc. money_add D acc item) ms acc =
        Err (CurrencyMismatch (currency acc) (currency m)) \<and> currency m \<noteq> currency acc"
    if "\<forall>m\<in>set ms. multiple k (val (amount m))" "multiple k (val (amount acc))"
      "fits_gross k (\<bar>val (amount acc)\<bar> + (\<Sum>m\<leftarrow>ms. \<bar>val (amount m)\<bar>))" for acc :: "'a money"
    using that
  proof (induction ms arbitrary: acc)
    case (Cons m ms)
    have n: "0 \<le> (\<Sum>m\<leftarrow>ms. \<bar>val (amount m)\<bar>)" by (rule sum_list_nonneg) auto
    have fg: "fits_gross k \<bar>val (amount acc) + val (amount m)\<bar>"
      by (rule fits_gross_mono [OF Cons.prems(3)]) (use n in auto)
    show ?case
    proof (cases "currency m = currency acc")
      case False
      then have "money_add D acc m = Err (CurrencyMismatch (currency acc) (currency m))"
        by (simp add: money_add_mismatch)
      with False show ?thesis by auto
    next
      case True
      obtain x where x: "dec_add D (amount acc) (amount m) = (Ok x :: (currency_mismatch, 'a) res)"
        "val x = val (amount acc) + val (amount m)"
        using decimal_laws.dec_add_gross [OF assms(1) Cons.prems(2) _ fg] Cons.prems(1)
        by (metis list.set_intros(1))
      let ?t = "money_new x (currency acc)"
      have t: "money_add D acc m = Ok ?t" using True x(1) by (simp add: money_add_same)
      have "fits_gross k (\<bar>val x\<bar> + (\<Sum>m\<leftarrow>ms. \<bar>val (amount m)\<bar>))"
        by (rule fits_gross_mono [OF Cons.prems(3)]) (use x in auto)
      with Cons.IH [of ?t] Cons.prems x True t show ?thesis by (auto split: if_splits)
    qed
  qed auto
  show ?thesis
    using gen [of "money_zero D c"] assms(2,3)
    unfolding money_sel decimal_laws.val_zero [OF assms(1)] try_sum_def abs_zero add_0 by (metis multiple_zero)
qed

theorem try_sum_exact_witness:
  "\<exists>t. try_sum ref_ops [money_new (Dec 1050 2) Eur, money_new (Dec (- 50) 2) Eur] Eur = Ok t \<and>
     ref_val (amount t) = 10"
proof -
  let ?ms = "[money_new (Dec 1050 2) Eur, money_new (Dec (- 50) 2) Eur]"
  have "\<forall>m\<in>set ?ms. multiple 2 (ref_val (amount m))" "fits_gross 2 (\<Sum>m\<leftarrow>?ms. \<bar>ref_val (amount m)\<bar>)"
    by (auto simp: multiple_def ref_val_def fits_gross_def max_mantissa_def)
      (auto intro: exI [of _ "- 50"] exI [of _ 1050])
  from try_sum_exact [OF ref_laws this, of Eur] show ?thesis
    by (auto simp: ref_val_def split: if_splits)
qed

text \<open>
  Every stored enumeration reads back what it writes, and two values never share a
  stored name: currencies, function codes, capitalization statuses, providers, charge
  categories and service categories.
\<close>

theorem stored_names_round_trip:
  "currency_from_code (currency_code c) = Some c \<and>
   function_code_from_stored (function_code_as_str fc) = Some fc \<and>
   capitalization_from_stored (capitalization_as_str cs) = Some cs \<and>
   provider_from_stored (provider_as_str p) = Some p \<and>
   charge_from_stored (charge_as_str cc) = Some cc \<and>
   service_from_stored (service_as_str sc) = Some sc \<and>
   (currency_code c = currency_code c' \<longleftrightarrow> c = c') \<and> (service_as_str sc = service_as_str sc' \<longleftrightarrow> sc = sc')"
  by (simp add: ccode.round_trip fcode.round_trip capst.round_trip provk.round_trip chargec.round_trip
      servc.round_trip ccode.as_str_inj servc.as_str_inj)

section \<open>Attribution\<close>

text \<open>
  What a row's tags say of a dimension, read off the tags: the value of the first of its
  candidate keys that holds a string with something besides white space, without the white
  space around it.
\<close>

definition tagged :: "(string, json) btree \<Rightarrow> string list \<Rightarrow> string \<Rightarrow> bool" where
  "tagged m ks v \<longleftrightarrow> v \<noteq> '''' \<and> (\<exists>before k after s. ks = before @ k # after \<and> bt_get m k = Some (JString s) \<and>
     v = trim s \<and> (\<forall>k'\<in>set before. \<forall>s'. bt_get m k' = Some (JString s') \<longrightarrow> trim s' = ''''))"

definition says :: "(string \<Rightarrow> uuid option) \<Rightarrow> (string, json) btree \<Rightarrow> string list \<Rightarrow> uuid option \<Rightarrow> bool" where
  "says f m ks u \<longleftrightarrow> (case u of Some i \<Rightarrow> \<exists>v. tagged m ks v \<and> f v = Some i | None \<Rightarrow> \<forall>v. \<not> tagged m ks v)"

text \<open>The function code of each purpose a workload tag may name, and of the rest.\<close>

definition purposes :: "(string \<times> FunctionCode) list" where
  "purposes = [(''inference'', Cogs), (''serving'', Cogs), (''production'', Cogs), (''prod'', Cogs), (''api'', Cogs),
     (''training'', RnD), (''train'', RnD), (''experiment'', RnD), (''eval'', RnD), (''finetune'', RnD), (''fine-tune'', RnD),
     (''internal'', OpEx), (''tooling'', OpEx), (''platform'', OpEx), (''ci'', OpEx)]"

definition purpose_code :: "(string, json) btree \<Rightarrow> string list \<Rightarrow> RunId option \<Rightarrow> FunctionCode \<Rightarrow> bool" where
  "purpose_code m ks run c \<longleftrightarrow>
     (\<exists>w. tagged m ks w \<and> map_of purposes (to_ascii_lowercase w) = Some c) \<or>
     (\<forall>w. tagged m ks w \<longrightarrow> map_of purposes (to_ascii_lowercase w) = None) \<and> c = (if run = None then OpEx else RnD)"

lemma lookup_None: "lookup_tag m ks = None \<longleftrightarrow> (\<forall>k\<in>set ks. \<forall>s. bt_get m k = Some (JString s) \<longrightarrow> trim s = '''')"
  by (induction ks) (auto split: option.splits if_splits simp: bind_eq_Some_conv bind_eq_None_conv)

lemma lookup_split:
  "lookup_tag m ks = Some (k, v) \<Longrightarrow> \<exists>before after. ks = before @ k # after \<and> lookup_tag m before = None"
proof (induction ks)
  case (Cons x ks)
  show ?case
  proof (cases "lookup_tag m [x]")
    case None
    with Cons.prems have "lookup_tag m ks = Some (k, v)" using lookup_tag_append [of m "[x]" ks] by simp
    with Cons.IH obtain before after where b: "ks = before @ k # after" "lookup_tag m before = None" by blast
    have "lookup_tag m (x # before) = None" using None b(2) lookup_tag_append [of m "[x]" before] by simp
    with b(1) show ?thesis by (metis append_Cons)
  next
    case (Some y)
    with Cons.prems have "x = k" using lookup_tag_append [of m "[x]" ks]
      by (auto split: option.splits if_splits)
    then show ?thesis by (metis append_Nil lookup_tag.simps(1))
  qed
qed simp

lemma lookup_tagged: "(\<exists>k. lookup_tag m ks = Some (k, v)) \<longleftrightarrow> tagged m ks v"
proof
  assume "\<exists>k. lookup_tag m ks = Some (k, v)"
  then obtain k where k: "lookup_tag m ks = Some (k, v)" ..
  with lookup_split [OF k] lookup_tag_sound [OF k] show "tagged m ks v"
    unfolding tagged_def by (auto simp: lookup_None)
next
  assume "tagged m ks v"
  then obtain before k after s where t: "ks = before @ k # after" "bt_get m k = Some (JString s)" "v = trim s" "v \<noteq> ''''"
    "lookup_tag m before = None" by (auto simp: tagged_def lookup_None)
  then show "\<exists>k. lookup_tag m ks = Some (k, v)" by (auto simp: lookup_tag_append)
qed

lemma untagged: "lookup_tag m ks = None \<longleftrightarrow> (\<forall>v. \<not> tagged m ks v)"
  by (metis lookup_tagged not_Some_eq old.prod.exhaust option.distinct(1))

lemma tag_dim_says: "tag_dim f m ks = Some u \<longleftrightarrow> says f m ks u"
proof (cases "lookup_tag m ks")
  case None
  then show ?thesis using untagged [of m ks] by (auto simp: tag_dim_def says_def split: option.splits)
next
  case (Some kv)
  then obtain k v where kv: "lookup_tag m ks = Some (k, v)" by (cases kv) auto
  then have "tagged m ks w \<longleftrightarrow> w = v" for w using lookup_tagged [of m ks w] by auto
  with kv show ?thesis by (auto simp: tag_dim_def says_def split: option.splits)
qed

lemma function_code_purpose:
  "function_code_for (map_option snd (lookup_tag m ks)) (run \<noteq> None) = c \<longleftrightarrow> purpose_code m ks run c"
proof (cases "lookup_tag m ks")
  case None
  then show ?thesis using untagged [of m ks] by (auto simp: purpose_code_def function_code_for_def)
next
  case (Some kv)
  then obtain k v where kv: "lookup_tag m ks = Some (k, v)" by (cases kv) auto
  then have t: "tagged m ks w \<longleftrightarrow> w = v" for w using lookup_tagged [of m ks w] by auto
  obtain s where "v = trim s" using lookup_tag_sound [OF kv] by blast
  then have v: "trim v = v" by simp
  show ?thesis unfolding purpose_code_def t
    by (simp add: kv function_code_for_def Let_def v purposes_def eq_commute [of c])
qed

text \<open>
  C17: a row is attributed exactly when its tags are an object, every identifier the tags give
  parses, and a project and a team are tagged or configured. Each dimension is then what the
  first of its candidate keys with a value says, the function code is that of the purpose
  the workload tag names (or, without a known purpose, RnD for a run and OpEx otherwise), and
  the tenant and the provider come from the connector and never from a tag.
\<close>

theorem attribution_exact:
  "attribute f tags rules ctx = Ok d \<longleftrightarrow>
    (\<exists>m. tags = JObject m \<and> tenant_id d = ctx_tenant ctx \<and> provider_id d = ctx_provider ctx \<and>
      (\<exists>p. says f m (project_keys rules) p \<and> first_of (map_option ProjectId p) (default_project ctx) = Some (project_id d)) \<and>
      (\<exists>t. says f m (team_keys rules) t \<and> first_of (map_option TeamId t) (default_team ctx) = Some (team_id d)) \<and>
      says f m (run_keys rules) (map_option run_as_uuid (run_id d)) \<and>
      says f m (customer_keys rules) (map_option customer_as_uuid (customer_id d)) \<and>
      says f m (model_keys rules) (map_option model_as_uuid (model_id d)) \<and>
      says f m (dataset_keys rules) (map_option dataset_as_uuid (dataset_id d)) \<and>
      says f m (commitment_keys rules) (map_option commitment_as_uuid (commitment_id d)) \<and>
      purpose_code m (workload_keys rules) (run_id d) (function_code d))"
proof -
  have i: "map_option (map_option RunId) x = Some r \<longleftrightarrow> x = Some (map_option run_as_uuid r)"
    "map_option (map_option CustomerId) x = Some c \<longleftrightarrow> x = Some (map_option customer_as_uuid c)"
    "map_option (map_option ModelId) x = Some mo \<longleftrightarrow> x = Some (map_option model_as_uuid mo)"
    "map_option (map_option DatasetId) x = Some ds \<longleftrightarrow> x = Some (map_option dataset_as_uuid ds)"
    "map_option (map_option CommitmentId) x = Some co \<longleftrightarrow> x = Some (map_option commitment_as_uuid co)"
    for x r c mo ds co
    by (auto simp: option.map_comp comp_def option.map_ident)
  show ?thesis
    unfolding attribute_Ok_iff i tag_dim_says function_code_purpose [symmetric] eq_commute [of "function_code d"]
    by (rule iffI; elim exE conjE; intro exI conjI; assumption)
qed

text \<open>
  A row whose first project tag is blank, whose second carries an identifier between spaces,
  and whose workload is written in capitals.
\<close>

theorem attribution_exact_witness:
  "attribute (\<lambda>v. if v = ''p1'' then Some 5 else None)
     (JObject [(''falkr:project'', JString '' ''), (''project'', JString '' p1 ''), (''purpose'', JString ''CI '')])
     tag_rules_default \<lparr>ctx_tenant = TenantId 1, ctx_provider = ProviderId 2, default_project = None, default_team = Some (TeamId 4)\<rparr> =
   Ok (dimensions_new (TenantId 1) (ProjectId 5) (TeamId 4) (ProviderId 2) OpEx)"
proof -
  have t: "trim '' '' = ''''" "trim '' p1 '' = ''p1''" "trim ''CI '' = ''CI''" "trim ''CI'' = ''CI''" by code_simp+
  have l: "to_ascii_lowercase ''CI'' = ''ci''"
    by (simp add: to_ascii_lowercase_def char_to_ascii_lowercase_def Let_def char_of_def bit_numeral_rec of_char_def bit_Suc_0_iff)
  show ?thesis
    unfolding attribution_exact tag_dim_says [symmetric] function_code_purpose [symmetric]
    by (simp add: tag_dim_def tag_rules_default_def dimensions_new_def first_of_def function_code_for_def t l)
qed

text \<open>
  Keys can be migrated without a flag day: putting new candidate keys in front of the
  project keys changes nothing for a row on which none of the new keys has a value.
\<close>

theorem key_migration:
  assumes "lookup_tag m new = None"
  shows "attribute f (JObject m) (rules\<lparr>project_keys := new @ project_keys rules\<rparr>) ctx =
    attribute f (JObject m) rules ctx"
  using assms by (simp add: attribute_def lookup_tag_append)

theorem key_migration_witness:
  "attribute (\<lambda>_. Some 5) (JObject [(''project'', JString ''x'')])
      (tag_rules_default\<lparr>project_keys := [''falkr:new''] @ project_keys tag_rules_default\<rparr>) ctx =
   attribute (\<lambda>_. Some 5) (JObject [(''project'', JString ''x'')]) tag_rules_default ctx"
  by (rule key_migration) simp

section \<open>The AWS connector\<close>

text \<open>
  The connector's two private parsers agree with the shared ones: a billing currency is
  what \<open>Currency::from_code\<close> reads, with the account default both for an absent and for an
  unrecognized code, and a charge category is what \<open>ChargeCategory::from_stored\<close> reads.
\<close>

theorem aws_parsers_agree:
  "parse_currency code fb = (case Option.bind code currency_from_code of Some c \<Rightarrow> c | None \<Rightarrow> fb) \<and>
   parse_charge_category v =
     (case charge_from_stored v of Some c \<Rightarrow> Ok c | None \<Rightarrow> Err (UnparseableValue ''ChargeCategory'' v))"
  by (simp add: parse_currency_def currency_from_code_def parse_charge_category_def charge_from_stored_def Let_def
      split: option.split)

text \<open>
  The tags of a row are the members of its \<open>Tags\<close> column overridden by the non-blank
  flattened columns, whose \<open>resourceTags/user:\<close> prefix is removed.
\<close>

theorem collect_tags_get:
  assumes "bt_wf m" "bt_wf (tags_column X (JObject m))"
  shows "\<exists>out. collect_tags X (JObject m) = JObject out \<and> bt_wf out \<and>
    bt_get out k =
      (case bt_get m (user_tag_prefix @ k) of
         Some (JString s) \<Rightarrow> if trim s \<noteq> [] then Some (JString s) else bt_get (tags_column X (JObject m)) k
       | _ \<Rightarrow> bt_get (tags_column X (JObject m)) k)"
proof -
  have flat: "bt_wf (fold flat_tag kvs out) \<and> bt_get (fold flat_tag kvs out) k =
      (case map_of kvs (user_tag_prefix @ k) of
         Some (JString s) \<Rightarrow> if trim s \<noteq> [] then Some (JString s) else bt_get out k
       | _ \<Rightarrow> bt_get out k)"
    if "distinct (map fst kvs)" "bt_wf out" for kvs out
    using that
  proof (induction kvs arbitrary: out)
    case (Cons kv kvs)
    obtain n v where kv: "kv = (n, v)" by (cases kv)
    have wf: "bt_wf (flat_tag kv out)"
      using Cons.prems(2) by (auto simp: flat_tag_def kv split: option.split)
    have one: "bt_get (flat_tag kv out) k = (case v of
        JString s \<Rightarrow> if n = user_tag_prefix @ k \<and> trim s \<noteq> [] then Some v else bt_get out k
      | _ \<Rightarrow> bt_get out k)"
      using Cons.prems(2) by (cases v) (auto simp: flat_tag_def kv split: option.split)
    have fresh: "map_of kvs n = None" using Cons.prems(1) kv by (simp add: map_of_eq_None_iff)
    show ?case
    proof (cases "n = user_tag_prefix @ k")
      case True
      with Cons.IH [OF _ wf] Cons.prems(1) one fresh kv show ?thesis by (auto split: json.splits)
    next
      case False
      with Cons.IH [OF _ wf] Cons.prems(1) one kv show ?thesis by (auto split: json.splits option.splits)
    qed
  qed simp
  let ?t = "tags_column X (JObject m)"
  have e: "bt_get (bt_extend [] ?t) k' = bt_get ?t k'" for k'
    using btm.distinct_keys [OF assms(2)]
    by (simp add: bt_extend_get map_of_rev_distinct split: option.split) (simp add: bt_get_map_of)
  from flat [OF btm.distinct_keys [OF assms(1)], of "bt_extend [] ?t"] show ?thesis
    unfolding e by (simp add: collect_tags_def Let_def) (simp add: bt_get_map_of)
qed

definition demo_row :: json where
  "demo_row = JObject [(''Tags'', JObject [(''team'', JString ''a''), (''zone'', JString ''z'')]),
     (''resourceTags/user:team'', JString ''b'')]"

theorem collect_tags_get_witness:
  "\<exists>out. collect_tags X demo_row = JObject out \<and> bt_get out ''team'' = Some (JString ''b'')"
proof -
  let ?m = "[(''Tags'', JObject [(''team'', JString ''a''), (''zone'', JString ''z'')]),
     (''resourceTags/user:team'', JString ''b'')]"
  have wf: "bt_wf ?m" "bt_wf (tags_column X (JObject ?m))"
    by (simp_all add: bt_wf_def tags_column_def json_get_def)
  have b: "bt_get ?m (user_tag_prefix @ ''team'') = Some (JString ''b'')" "trim ''b'' \<noteq> []"
    by (simp add: user_tag_prefix_def) code_simp
  from collect_tags_get [OF wf, of "''team''"] b show ?thesis unfolding demo_row_def by auto
qed

text \<open>The identity part of the next property, for its neighbours.\<close>

lemma normalize_id:
  "normalize D X self now i raw = Ok ev \<Longrightarrow>
   idempotency_key ev = (derive_external_id X (raw_row raw) (raw_billing_period raw), Aws)"
  by (auto simp: normalize_def Let_def idempotency_key_def dest!: cost_event_new_ok)

text \<open>
  C15: a normalized row is a well-formed cost record: one currency across the three amounts,
  a charge period that ends after it starts, the connector's tenant and provider, and the
  identity and content hash derived from the row; normalizing never panics.
\<close>

theorem normalize_sound:
  "normalize D X self now fresh raw \<noteq> Panic \<and>
   (normalize D X self now fresh raw = Ok ev \<longrightarrow>
     event_ok ev \<and> event_id ev = fresh \<and>
     event_currency ev = parse_currency (optional_field (raw_row raw) ''BillingCurrency'') (aws_default_currency self) \<and>
     tenant_id (event_dims ev) = ctx_tenant (aws_ctx self) \<and>
     provider_id (event_dims ev) = ctx_provider (aws_ctx self) \<and>
     attribute (uuid_parse X) (event_tags ev) (aws_rules self) (aws_ctx self) = Ok (event_dims ev) \<and>
     idempotency_key ev = (derive_external_id X (raw_row raw) (raw_billing_period raw), Aws) \<and>
     content_hash (event_source ev) = row_hash X (raw_row raw))"
proof -
  have pc: "parse_charge_category v \<noteq> Panic" for v
    by (simp add: parse_charge_category_def Let_def)
  have np: "normalize D X self now fresh raw \<noteq> Panic"
    by (simp add: normalize_def Let_def row_field_def parse_decimal_def parse_timestamp_def pc)
  moreover have "event_ok ev \<and> event_id ev = fresh \<and>
     event_currency ev = parse_currency (optional_field (raw_row raw) ''BillingCurrency'') (aws_default_currency self) \<and>
     tenant_id (event_dims ev) = ctx_tenant (aws_ctx self) \<and>
     provider_id (event_dims ev) = ctx_provider (aws_ctx self) \<and>
     attribute (uuid_parse X) (event_tags ev) (aws_rules self) (aws_ctx self) = Ok (event_dims ev) \<and>
     idempotency_key ev = (derive_external_id X (raw_row raw) (raw_billing_period raw), Aws) \<and>
     content_hash (event_source ev) = row_hash X (raw_row raw)"
    if ok: "normalize D X self now fresh raw = Ok ev"
  proof -
    from ok obtain dims ba ps pe billed eff li nm sc cc src where
      n: "cost_event_new fresh ba ps pe billed eff li nm sc cc
          (optional_field (raw_row raw) ''ResourceId'') (optional_field (raw_row raw) ''RegionId'')
          (collect_tags X (raw_row raw)) dims src = Ok ev"
      and a: "attribute (uuid_parse X) (collect_tags X (raw_row raw)) (aws_rules self) (aws_ctx self) = Ok dims"
      and c: "currency billed = parse_currency (optional_field (raw_row raw) ''BillingCurrency'') (aws_default_currency self)"
      and s: "external_id src = derive_external_id X (raw_row raw) (raw_billing_period raw)" "ref_provider src = Aws"
        "content_hash src = row_hash X (raw_row raw)"
      by (auto simp: normalize_def Let_def)
    from cost_event_new_ok [OF n] have e: "event_ok ev" "event_id ev = fresh" "event_source ev = src"
      "event_dims ev = dims" "event_tags ev = collect_tags X (raw_row raw)" "event_billed_cost ev = billed" by auto
    from a have "tenant_id dims = ctx_tenant (aws_ctx self)" "provider_id dims = ctx_provider (aws_ctx self)"
      by (auto simp: attribute_Ok_iff)
    with e a c s show ?thesis by (simp add: event_currency_def idempotency_key_def)
  qed
  ultimately show ?thesis by blast
qed

definition demo_externs :: externs where
  "demo_externs = \<lparr>sha256_hex = (\<lambda>s. s), json_print = (\<lambda>_. Some []),
     json_parse = (\<lambda>_. None), uuid_parse = (\<lambda>_. Some 7), rfc3339_parse = (\<lambda>s. Some (int (length s))),
     csv_headers = (\<lambda>_. Ok []), csv_records = (\<lambda>_. [])\<rparr>"

definition demo_connector :: aws_connector where
  "demo_connector = \<lparr>aws_rules = tag_rules_default,
     aws_ctx = \<lparr>ctx_tenant = TenantId 1, ctx_provider = ProviderId 2, default_project = Some (ProjectId 3),
       default_team = Some (TeamId 4)\<rparr>, aws_default_currency = Usd\<rparr>"

definition demo_raw :: raw_cost_record where
  "demo_raw = \<lparr>raw_provider = Aws, raw_export_ref = ''e1'', raw_billing_period = ''2026-08'',
     raw_row = JObject [(''BilledCost'', JString ''1.50''), (''BillingAccountId'', JString ''acct''),
       (''BillingCurrency'', JString ''XTS''), (''ChargeCategory'', JString ''Usage''),
       (''ChargePeriodEnd'', JString ''22''), (''ChargePeriodStart'', JString ''1''),
       (''EffectiveCost'', JString ''1.50''), (''ListCost'', JString ''2''), (''ServiceName'', JString ''EC2'')]\<rparr>"

fun is_ok :: "('e, 'a) res \<Rightarrow> bool" where
  "is_ok (Ok x) = True"
| "is_ok (Err e) = False"
| "is_ok Panic = False"

lemma demo_normalizes: "is_ok (normalize ref_ops demo_externs demo_connector 0 (CostEventId 9) demo_raw)"
  by code_simp

theorem normalize_sound_witness:
  "\<exists>ev. normalize ref_ops demo_externs demo_connector 0 (CostEventId 9) demo_raw = Ok ev \<and> event_ok ev \<and>
     event_currency ev = parse_currency (optional_field (raw_row demo_raw) ''BillingCurrency'') Usd"
proof -
  obtain ev where "normalize ref_ops demo_externs demo_connector 0 (CostEventId 9) demo_raw = Ok ev"
    using demo_normalizes by (cases "normalize ref_ops demo_externs demo_connector 0 (CostEventId 9) demo_raw") auto
  with normalize_sound [of ref_ops demo_externs demo_connector 0 "CostEventId 9" demo_raw ev]
  show ?thesis by (simp add: demo_connector_def)
qed

text \<open>
  A restated row keeps its identity: changing a column that is not one of the seven
  identity columns, a cost or a tag say, leaves the key the store upserts on unchanged.
\<close>

theorem restated_row_same_key:
  assumes "bt_wf m" "c \<notin> set identity_columns" "raw_row raw = JObject m"
    "normalize D X self now i raw = Ok ev"
    "normalize D X self now' i' (raw\<lparr>raw_row := JObject (bt_insert c v m)\<rparr>) = Ok ev'"
  shows "idempotency_key ev' = idempotency_key ev"
proof -
  have "optional_field (JObject (bt_insert c v m)) n = optional_field (JObject m) n"
    if "n \<in> set identity_columns" for n
    using assms(1,2) that by (auto simp: optional_field_def json_get_def)
  then have "identity_text (JObject (bt_insert c v m)) p = identity_text (JObject m) p" for p
    by (simp add: identity_text_def cong: map_cong)
  with normalize_id [OF assms(4)] normalize_id [OF assms(5)] assms(3) show ?thesis
    by (simp add: derive_external_id_def)
qed

lemma demo_restated: "is_ok (normalize ref_ops demo_externs demo_connector 1 (CostEventId 10)
    (demo_raw\<lparr>raw_row := JObject (bt_insert ''BilledCost'' (JString ''1.75'') (the (as_object (raw_row demo_raw))))\<rparr>))"
  by code_simp

theorem restated_row_same_key_witness:
  "\<exists>ev ev'. normalize ref_ops demo_externs demo_connector 0 (CostEventId 9) demo_raw = Ok ev \<and>
     normalize ref_ops demo_externs demo_connector 1 (CostEventId 10)
       (demo_raw\<lparr>raw_row := JObject (bt_insert ''BilledCost'' (JString ''1.75'') (the (as_object (raw_row demo_raw))))\<rparr>) = Ok ev' \<and>
     idempotency_key ev' = idempotency_key ev"
proof -
  obtain ev where ev: "normalize ref_ops demo_externs demo_connector 0 (CostEventId 9) demo_raw = Ok ev"
    using demo_normalizes by (cases "normalize ref_ops demo_externs demo_connector 0 (CostEventId 9) demo_raw") auto
  let ?m = "the (as_object (raw_row demo_raw))"
  let ?r = "demo_raw\<lparr>raw_row := JObject (bt_insert ''BilledCost'' (JString ''1.75'') ?m)\<rparr>"
  obtain ev' where ev': "normalize ref_ops demo_externs demo_connector 1 (CostEventId 10) ?r = Ok ev'"
    using demo_restated by (cases "normalize ref_ops demo_externs demo_connector 1 (CostEventId 10) ?r") auto
  have "bt_wf ?m" "''BilledCost'' \<notin> set identity_columns" "raw_row demo_raw = JObject ?m"
    by (simp_all add: demo_raw_def bt_wf_def identity_columns_def)
  from restated_row_same_key [OF this ev ev'] ev ev' show ?thesis by blast
qed

section \<open>Fetching\<close>

text \<open>The records of a list of exports, read from the exports themselves.\<close>

definition fetch_all :: "externs \<Rightarrow> memory_source \<Rightarrow> (connector_error, raw_cost_record list) res" where
  "fetch_all X src = res_fold (\<lambda>(e, csv) records.
     res_bind (export_records X e csv) (\<lambda>rs. Ok (records @ rs))) src []"

lemma position_distinct:
  "distinct (map f xs) \<Longrightarrow> i < length xs \<Longrightarrow> position (\<lambda>x. f x = f (xs ! i)) xs = Some i"
proof (induction xs arbitrary: i)
  case (Cons x xs)
  show ?case
  proof (cases i)
    case (Suc j)
    with Cons.prems have "f (xs ! j) \<in> f ` set xs" "j < length xs" by auto
    with Cons Suc show ?thesis by auto
  qed simp
qed simp

lemma find_distinct:
  "distinct (map f xs) \<Longrightarrow> x \<in> set xs \<Longrightarrow> find (\<lambda>y. f y = f x) xs = Some x"
  by (induction xs) (auto simp: image_iff)

text \<open>
  C16: a poll resumes at the cursor, not after it: with distinct export keys, the records
  fetched are those of the export the cursor names and of every later one, in order.
\<close>

theorem fetch_resumes_at_cursor:
  assumes "distinct (map (\<lambda>(e, _). export_key e) src)" "i < length src"
    "last_export_ref c = Some (export_key (fst (src ! i)))"
  shows "fetch_since X (memory_list_exports src) (memory_read_export src) c = fetch_all X (drop i src)"
proof -
  have d: "distinct (map (\<lambda>x. export_key (fst x)) src)" using assms(1) by (simp add: case_prod_unfold)
  have l: "memory_list_exports src c = Ok (map fst (drop i src))"
    using position_distinct [OF d assms(2)] by (simp add: memory_list_exports_def assms(3) case_prod_unfold)
  have r: "memory_read_export src e = Ok csv" if "(e, csv) \<in> set src" for e csv
    using find_distinct [OF d that] by (simp add: memory_read_export_def case_prod_unfold)
  have "res_fold (\<lambda>e records. res_bind (memory_read_export src e) (\<lambda>bytes.
      res_bind (export_records X e bytes) (\<lambda>rs. Ok (records @ rs)))) (map fst ys) acc =
    res_fold (\<lambda>(e, csv) records. res_bind (export_records X e csv) (\<lambda>rs. Ok (records @ rs))) ys acc"
    if "set ys \<subseteq> set src" for ys acc
    using that
  proof (induction ys arbitrary: acc)
    case (Cons y ys)
    obtain e csv where y: "y = (e, csv)" by (cases y)
    with Cons r show ?case by (cases "export_records X e csv") auto
  qed simp
  from this [OF set_drop_subset] l show ?thesis by (simp add: fetch_since_def fetch_all_def)
qed

theorem fetch_resumes_at_cursor_witness:
  "fetch_since demo_externs (memory_list_exports (with_export ''k2'' ''p2'' ''b'' (with_export ''k1'' ''p1'' ''a'' memory_source_new)))
      (memory_read_export (with_export ''k2'' ''p2'' ''b'' (with_export ''k1'' ''p1'' ''a'' memory_source_new)))
      \<lparr>last_charge_period_end = None, last_export_ref = Some ''k2''\<rparr> =
   fetch_all demo_externs [(\<lparr>export_key = ''k2'', export_period = ''p2''\<rparr>, ''b'')]"
  using fetch_resumes_at_cursor
    [of "with_export ''k2'' ''p2'' ''b'' (with_export ''k1'' ''p1'' ''a'' memory_source_new)" 1
      "\<lparr>last_charge_period_end = None, last_export_ref = Some ''k2''\<rparr>" demo_externs]
  by (simp add: with_export_def memory_source_new_def)

end
