(* ===== verification/Db.thy ===== *)
theory Db
  imports Dimensions
begin

text \<open>
  \<open>crates/infra/src/db.rs\<close>: transactions that carry a tenant. The server's answers are
  arguments: whether a transaction begins, what \<open>set_config\<close> reports it applied, and which
  later statement or commit fails. A transaction that does not commit leaves no trace.
\<close>

record pg_session =
  pg_begin_fault :: "string option"
  pg_set_config :: "string \<Rightarrow> string \<Rightarrow> (string, string option) res"
  pg_stmt_fault :: "nat \<Rightarrow> string option"
  pg_commit_fault :: "string option"

definition tenant_guc :: string where
  "tenant_guc = ''falkr.tenant_id''"

datatype db_error =
    Sqlx string
  | Migrate string
  | InvalidUrl string
  | TenantContextRejected string "string option"

text \<open>The messages; a quoted value is printed without the escapes of \<open>Debug\<close>.\<close>

definition show_db_error :: "db_error \<Rightarrow> string" where
  "show_db_error e = (case e of
     Sqlx s \<Rightarrow> ''database error: '' @ s
   | Migrate s \<Rightarrow> ''migration failed: '' @ s
   | InvalidUrl s \<Rightarrow> ''invalid connection string: '' @ s
   | TenantContextRejected expected actual \<Rightarrow>
       ''tenant context did not take effect: asked for '' @ expected @ '', connection reports '' @
       (case actual of None \<Rightarrow> ''None'' | Some v \<Rightarrow> ''Some('' @ [CHR 0x22] @ v @ [CHR 0x22] @ '')'') @
       ''. A transaction pooler is dropping the setting '' @ [CHR 0xE2, CHR 0x80, CHR 0x94] @
       '' see the module docs and the multi-tenancy design.'')"

record pool_config =
  max_connections :: nat
  behind_transaction_pooler :: bool

definition pool_config_default :: pool_config where
  "pool_config_default = \<lparr>max_connections = 10, behind_transaction_pooler = False\<rparr>"

text \<open>
  Opening a pool. What the connection string parses to, and the pool the server hands back,
  are \<open>sqlx\<close>'s: the options are of type \<open>'o\<close> and the pool of type \<open>'p\<close>.
\<close>

record ('o, 'p) sqlx_ops =
  parse_options :: "string \<Rightarrow> (string, 'o) res"
  statement_cache_capacity :: "'o \<Rightarrow> nat \<Rightarrow> 'o"
  pool_connect_with :: "nat \<Rightarrow> 'o \<Rightarrow> (string, 'p) res"
  run_migrations :: "'p \<Rightarrow> (string, unit) res"
  current_setting :: "'p \<Rightarrow> string \<Rightarrow> (string, string option) res"

definition connect_with :: "('o, 'p) sqlx_ops \<Rightarrow> string \<Rightarrow> pool_config \<Rightarrow> (db_error, 'p) res" where
  "connect_with X url config =
     res_bind (res_map_err InvalidUrl (parse_options X url)) (\<lambda>options.
     let options = (if behind_transaction_pooler config then statement_cache_capacity X options 0 else options) in
     res_map_err Sqlx (pool_connect_with X (max_connections config) options))"

definition connect :: "('o, 'p) sqlx_ops \<Rightarrow> string \<Rightarrow> nat \<Rightarrow> (db_error, 'p) res" where
  "connect X url n = connect_with X url (pool_config_default\<lparr>max_connections := n\<rparr>)"

definition migrate :: "('o, 'p) sqlx_ops \<Rightarrow> 'p \<Rightarrow> (db_error, unit) res" where
  "migrate X pool = res_map_err Migrate (run_migrations X pool)"

text \<open>\<open>SELECT NULLIF(current_setting($1, true), '')\<close>: an empty setting is read as none.\<close>

definition current_tenant_context :: "('o, 'p) sqlx_ops \<Rightarrow> 'p \<Rightarrow> (db_error, string option) res" where
  "current_tenant_context X pool =
     res_map_err Sqlx (res_map (\<lambda>v. if v = Some '''' then None else v) (current_setting X pool tenant_guc))"

lemma connect_keeps_the_cache:
  "connect X url n = res_bind (res_map_err InvalidUrl (parse_options X url))
     (\<lambda>options. res_map_err Sqlx (pool_connect_with X n options))"
  by (simp add: connect_def connect_with_def pool_config_default_def)

text \<open>
  \<open>begin_tenant_tx\<close> returns a transaction; what matters of it is the tenant whose rows the
  row-level-security policies let it see.
\<close>

definition begin_tenant_tx ::
  "pg_session \<Rightarrow> (uuid \<Rightarrow> string) \<Rightarrow> TenantId \<Rightarrow> (db_error, TenantId) res" where
  "begin_tenant_tx S show_uuid tenant =
     (case pg_begin_fault S of
        Some e \<Rightarrow> Err (Sqlx e)
      | None \<Rightarrow>
          let expected = show_uuid (tenant_as_uuid tenant) in
          res_bind (res_map_err Sqlx (pg_set_config S tenant_guc expected)) (\<lambda>applied.
          if applied \<noteq> Some expected then Err (TenantContextRejected expected applied)
          else Ok tenant))"

definition pg_check :: "string option \<Rightarrow> (string, unit) res" where
  "pg_check fault = (case fault of None \<Rightarrow> Ok () | Some e \<Rightarrow> Err e)"

lemma pg_check_None [simp]: "pg_check None = Ok ()"
  by (simp add: pg_check_def)

lemma pg_check_Ok [simp]: "pg_check f = Ok u \<longleftrightarrow> f = None"
  by (cases f) (auto simp: pg_check_def)

lemma pg_check_not_Panic [simp]: "pg_check f \<noteq> Panic"
  by (cases f) (auto simp: pg_check_def)

text \<open>A transaction is only ever handed out for the tenant asked for, and confirmed.\<close>

lemma begin_tenant_tx_Ok:
  "begin_tenant_tx S sh t = Ok t' \<Longrightarrow>
   t' = t \<and> pg_begin_fault S = None \<and>
   pg_set_config S tenant_guc (sh (tenant_as_uuid t)) = Ok (Some (sh (tenant_as_uuid t)))"
  by (auto simp: begin_tenant_tx_def Let_def split: option.splits if_splits)

definition healthy :: "pg_session \<Rightarrow> bool" where
  "healthy S \<longleftrightarrow> pg_begin_fault S = None \<and> (\<forall>k v. pg_set_config S k v = Ok (Some v)) \<and>
     (\<forall>n. pg_stmt_fault S n = None) \<and> pg_commit_fault S = None"

lemma begin_healthy [simp]: "healthy S \<Longrightarrow> begin_tenant_tx S sh t = Ok t"
  by (simp add: healthy_def begin_tenant_tx_def Let_def)

end
