(* ===== verification/Cost_Store.thy ===== *)
theory Cost_Store
  imports Db Cost_Event
begin

text \<open>
  \<open>crates/cost-spine/src/store.rs\<close> and \<open>crates/infra/src/cost_events.rs\<close>: the cost-event table
  and the three statements that touch it, under the table's constraints of
  \<open>migrations/0001_cost_events.sql\<close>. How a column type stores a value (\<open>NUMERIC(38,12)\<close>,
  \<open>TIMESTAMPTZ\<close>, \<open>JSONB\<close>) and how a UUID prints is the argument \<open>pg_codec\<close>. The columns
  \<open>created_at\<close> and \<open>updated_at\<close>, which no statement reads, are left out.
\<close>

section \<open>The boundary\<close>

record upsert_outcome =
  inserted :: nat
  restated :: nat
  duplicate :: nat

definition outcome_default :: upsert_outcome where
  "outcome_default = \<lparr>inserted = 0, restated = 0, duplicate = 0\<rparr>"

definition outcome_total :: "upsert_outcome \<Rightarrow> nat" where
  "outcome_total o' = inserted o' + restated o' + duplicate o'"

record Coverage =
  total_events :: int
  run_attributed :: int

definition coverage_fraction :: "'d decimal_ops \<Rightarrow> Coverage \<Rightarrow> ('e, 'd) res" where
  "coverage_fraction D c =
     (if total_events c = 0 then Ok (dec_one D)
      else dec_div D (dec_from_int D (run_attributed c)) (dec_from_int D (total_events c)))"

text \<open>\<open>Decimal::new(8, 1)\<close> panics only beyond scale 28.\<close>

definition below_build_gate :: "'d decimal_ops \<Rightarrow> Coverage \<Rightarrow> ('e, bool) res" where
  "below_build_gate D c =
     res_bind (coverage_fraction D c) (\<lambda>f.
     res_bind (or_panic (dec_new D 8 1)) (\<lambda>g. Ok (dec_less D f g)))"

datatype store_error = Backend string | MissingTenantContext

section \<open>The table\<close>

record 'd pg_codec =
  pg_numeric :: "'d \<Rightarrow> 'd option"
  pg_timestamptz :: "datetime \<Rightarrow> datetime"
  pg_jsonb :: "json \<Rightarrow> json"
  pg_uuid_show :: "uuid \<Rightarrow> string"

record 'd cost_row =
  row_id :: uuid
  row_tenant_id :: uuid
  row_project_id :: uuid
  row_run_id :: "uuid option"
  row_team_id :: uuid
  row_customer_id :: "uuid option"
  row_model_id :: "uuid option"
  row_dataset_id :: "uuid option"
  row_provider_id :: uuid
  row_function_code :: string
  row_commitment_id :: "uuid option"
  row_billing_account_id :: string
  row_charge_period_start :: datetime
  row_charge_period_end :: datetime
  row_currency :: string
  row_billed_cost :: 'd
  row_effective_cost :: 'd
  row_list_cost :: 'd
  row_service_name :: string
  row_service_category :: string
  row_charge_category :: string
  row_resource_id :: "string option"
  row_region_id :: "string option"
  row_tags :: json
  row_source_provider :: string
  row_source_external_id :: string
  row_source_export_ref :: string
  row_source_billing_period :: string
  row_source_content_hash :: string
  row_source_ingested_at :: datetime

type_synonym 'd cost_table = "'d cost_row list"

text \<open>The unique index \<open>cost_events_source_identity\<close>, and the three \<open>CHECK\<close> constraints.\<close>

definition row_key :: "'d cost_row \<Rightarrow> uuid \<times> string \<times> string" where
  "row_key r = (row_tenant_id r, row_source_provider r, row_source_external_id r)"

definition iso4217_code :: "string \<Rightarrow> bool" where
  "iso4217_code s \<longleftrightarrow> length s = 3 \<and> list_all (\<lambda>c. (65::nat) \<le> of_char c \<and> (of_char c :: nat) \<le> 90) s"

definition row_checks :: "'d cost_row \<Rightarrow> bool" where
  "row_checks r \<longleftrightarrow> row_charge_period_start r < row_charge_period_end r \<and>
     iso4217_code (row_currency r) \<and> row_function_code r \<in> {''COGS'', ''RND'', ''OPEX''}"

section \<open>The upsert statement\<close>

definition bind_row :: "'d pg_codec \<Rightarrow> 'd cost_event \<Rightarrow> (string, 'd cost_row) res" where
  "bind_row P e =
     (let d = event_dims e; s = event_source e in
      res_bind (ok_or (pg_numeric P (amount (event_billed_cost e))) ''numeric field overflow'') (\<lambda>billed.
      res_bind (ok_or (pg_numeric P (amount (event_effective_cost e))) ''numeric field overflow'') (\<lambda>effective.
      res_bind (ok_or (pg_numeric P (amount (event_list_cost e))) ''numeric field overflow'') (\<lambda>list_c.
      Ok \<lparr>row_id = cost_event_as_uuid (event_id e), row_tenant_id = tenant_as_uuid (tenant_id d),
        row_project_id = project_as_uuid (project_id d), row_run_id = map_option run_as_uuid (run_id d),
        row_team_id = team_as_uuid (team_id d), row_customer_id = map_option customer_as_uuid (customer_id d),
        row_model_id = map_option model_as_uuid (model_id d),
        row_dataset_id = map_option dataset_as_uuid (dataset_id d),
        row_provider_id = provider_as_uuid (provider_id d),
        row_function_code = function_code_as_str (function_code d),
        row_commitment_id = map_option commitment_as_uuid (commitment_id d),
        row_billing_account_id = billing_account_id e,
        row_charge_period_start = pg_timestamptz P (charge_period_start e),
        row_charge_period_end = pg_timestamptz P (charge_period_end e),
        row_currency = currency_code (event_currency e),
        row_billed_cost = billed, row_effective_cost = effective, row_list_cost = list_c,
        row_service_name = service_name e, row_service_category = service_as_str (service_category e),
        row_charge_category = charge_as_str (charge_category e), row_resource_id = resource_id e,
        row_region_id = region_id e, row_tags = pg_jsonb P (event_tags e),
        row_source_provider = provider_as_str (ref_provider s),
        row_source_external_id = external_id s, row_source_export_ref = export_ref s,
        row_source_billing_period = billing_period s, row_source_content_hash = content_hash s,
        row_source_ingested_at = pg_timestamptz P (ingested_at s)\<rparr>))))"

text \<open>
  \<open>INSERT ... ON CONFLICT (tenant_id, source_provider, source_external_id) DO UPDATE ... WHERE
  source_content_hash IS DISTINCT FROM EXCLUDED.source_content_hash RETURNING (xmax = 0)\<close>. The
  update sets every column but the identifier and the key. No returned row is \<open>None\<close>.
\<close>

definition insert_cost_event ::
  "'d cost_row \<Rightarrow> 'd cost_table \<Rightarrow> (string, bool option \<times> 'd cost_table) res" where
  "insert_cost_event r tbl =
     (if \<not> row_checks r then Err ''check constraint''
      else case find (\<lambda>x. row_key x = row_key r) tbl of
        Some old \<Rightarrow>
          if row_source_content_hash old = row_source_content_hash r then Ok (None, tbl)
          else Ok (Some False, map (\<lambda>x. if row_key x = row_key r then r\<lparr>row_id := row_id x\<rparr> else x) tbl)
      | None \<Rightarrow>
          if list_ex (\<lambda>x. row_id x = row_id r) tbl then Err ''cost_events_pkey''
          else Ok (Some True, tbl @ [r]))"

text \<open>One iteration of the loop of \<open>upsert\<close>.\<close>

definition upsert_one ::
  "'d pg_codec \<Rightarrow> pg_session \<Rightarrow> 'd cost_event \<Rightarrow> nat \<times> upsert_outcome \<times> 'd cost_table
     \<Rightarrow> (store_error, nat \<times> upsert_outcome \<times> 'd cost_table) res" where
  "upsert_one P S e st =
     (case st of (n, outcome, tbl) \<Rightarrow>
      res_bind (res_map_err Backend (pg_check (pg_stmt_fault S n))) (\<lambda>_.
      res_bind (res_map_err Backend (bind_row P e)) (\<lambda>r.
      res_bind (res_map_err Backend (insert_cost_event r tbl)) (\<lambda>(row, tbl').
      Ok (Suc n,
          (case row of
             None \<Rightarrow> outcome\<lparr>duplicate := duplicate outcome + 1\<rparr>
           | Some True \<Rightarrow> outcome\<lparr>inserted := inserted outcome + 1\<rparr>
           | Some False \<Rightarrow> outcome\<lparr>restated := restated outcome + 1\<rparr>),
          tbl')))))"

definition upsert_tx ::
  "'d pg_codec \<Rightarrow> pg_session \<Rightarrow> 'd cost_event list \<Rightarrow> 'd cost_table
     \<Rightarrow> (store_error, upsert_outcome \<times> 'd cost_table) res" where
  "upsert_tx P S events tbl =
     (case events of
        [] \<Rightarrow> Ok (outcome_default, tbl)
      | first # _ \<Rightarrow>
          let tenant = tenant_id (event_dims first) in
          if list_ex (\<lambda>e. tenant_id (event_dims e) \<noteq> tenant) events
          then Err (Backend ''batch spans multiple tenants; upsert one tenant at a time'')
          else
            res_bind (res_map_err (Backend \<circ> show_db_error) (begin_tenant_tx S (pg_uuid_show P) tenant)) (\<lambda>_.
            res_bind (res_fold (upsert_one P S) events (0, outcome_default, tbl)) (\<lambda>(_, outcome, tbl').
            res_bind (res_map_err Backend (pg_check (pg_commit_fault S))) (\<lambda>_.
            Ok (outcome, tbl')))))"

text \<open>The method: what it returns, and the table it leaves; a failure rolls back.\<close>

definition upsert ::
  "'d pg_codec \<Rightarrow> pg_session \<Rightarrow> 'd cost_event list \<Rightarrow> 'd cost_table
     \<Rightarrow> (store_error, upsert_outcome) res \<times> 'd cost_table" where
  "upsert P S events tbl =
     (case upsert_tx P S events tbl of
        Ok (outcome, tbl') \<Rightarrow> (Ok outcome, tbl')
      | Err e \<Rightarrow> (Err e, tbl)
      | Panic \<Rightarrow> (Panic, tbl))"

section \<open>Reading\<close>

definition bad_value :: "string \<Rightarrow> string \<Rightarrow> store_error" where
  "bad_value what v = Backend (''stored '' @ what @ '' is not a recognized value: '' @ v)"

definition decode_event :: "'d cost_row \<Rightarrow> (store_error, 'd cost_event) res" where
  "decode_event r =
     res_bind (ok_or (currency_from_code (row_currency r)) (bad_value ''currency'' (row_currency r))) (\<lambda>ccy.
     res_bind (ok_or (function_code_from_stored (row_function_code r))
       (bad_value ''function_code'' (row_function_code r))) (\<lambda>fc.
     let dims = dimensions_new (TenantId (row_tenant_id r)) (ProjectId (row_project_id r))
           (TeamId (row_team_id r)) (ProviderId (row_provider_id r)) fc;
         dims = (case row_run_id r of Some i \<Rightarrow> with_run (RunId i) dims | None \<Rightarrow> dims);
         dims = (case row_customer_id r of Some i \<Rightarrow> with_customer (CustomerId i) dims | None \<Rightarrow> dims);
         dims = (case row_model_id r of Some i \<Rightarrow> with_model (ModelId i) dims | None \<Rightarrow> dims);
         dims = (case row_dataset_id r of Some i \<Rightarrow> with_dataset (DatasetId i) dims | None \<Rightarrow> dims);
         dims = (case row_commitment_id r of Some i \<Rightarrow> with_commitment (CommitmentId i) dims | None \<Rightarrow> dims)
     in
     res_bind (ok_or (provider_from_stored (row_source_provider r))
       (bad_value ''source_provider'' (row_source_provider r))) (\<lambda>provider.
     res_bind (ok_or (charge_from_stored (row_charge_category r))
       (bad_value ''charge_category'' (row_charge_category r))) (\<lambda>charge.
     res_bind (ok_or (service_from_stored (row_service_category r))
       (bad_value ''service_category'' (row_service_category r))) (\<lambda>service.
     Ok \<lparr>event_id = CostEventId (row_id r), billing_account_id = row_billing_account_id r,
       charge_period_start = row_charge_period_start r, charge_period_end = row_charge_period_end r,
       event_billed_cost = money_new (row_billed_cost r) ccy,
       event_effective_cost = money_new (row_effective_cost r) ccy,
       event_list_cost = money_new (row_list_cost r) ccy, service_name = row_service_name r,
       service_category = service, charge_category = charge, resource_id = row_resource_id r,
       region_id = row_region_id r, event_tags = row_tags r, event_dims = dims,
       event_source = \<lparr>ref_provider = provider, external_id = row_source_external_id r,
         export_ref = row_source_export_ref r, billing_period = row_source_billing_period r,
         content_hash = row_source_content_hash r, ingested_at = row_source_ingested_at r\<rparr>\<rparr>)))))"

text \<open>The rows the row-level-security policy shows to a tenant's transaction.\<close>

definition visible :: "TenantId \<Rightarrow> 'd cost_table \<Rightarrow> 'd cost_table" where
  "visible t tbl = filter (\<lambda>r. row_tenant_id r = tenant_as_uuid t) tbl"

definition find_by_external_id ::
  "'d pg_codec \<Rightarrow> pg_session \<Rightarrow> 'd cost_table \<Rightarrow> TenantId \<Rightarrow> ProviderKind \<Rightarrow> string
     \<Rightarrow> (store_error, 'd cost_event option) res" where
  "find_by_external_id P S tbl tenant provider ext =
     res_bind (res_map_err (Backend \<circ> show_db_error) (begin_tenant_tx S (pg_uuid_show P) tenant)) (\<lambda>_.
     res_bind (res_map_err Backend (pg_check (pg_stmt_fault S 0))) (\<lambda>_.
     let row = find (\<lambda>r. row_source_provider r = provider_as_str provider \<and> row_source_external_id r = ext)
           (visible tenant tbl)
     in res_bind (res_map_err Backend (pg_check (pg_commit_fault S))) (\<lambda>_.
        case row of None \<Rightarrow> Ok None | Some r \<Rightarrow> res_map Some (decode_event r))))"

definition attribution_coverage ::
  "'d pg_codec \<Rightarrow> pg_session \<Rightarrow> 'd cost_table \<Rightarrow> TenantId \<Rightarrow> datetime \<Rightarrow> (store_error, Coverage) res" where
  "attribution_coverage P S tbl tenant since =
     res_bind (res_map_err (Backend \<circ> show_db_error) (begin_tenant_tx S (pg_uuid_show P) tenant)) (\<lambda>_.
     res_bind (res_map_err Backend (pg_check (pg_stmt_fault S 0))) (\<lambda>_.
     let rows = filter (\<lambda>r. pg_timestamptz P since \<le> row_source_ingested_at r) (visible tenant tbl);
         c = \<lparr>total_events = int (length rows),
              run_attributed = int (length (filter (\<lambda>r. row_run_id r \<noteq> None) rows))\<rparr>
     in res_bind (res_map_err Backend (pg_check (pg_commit_fault S))) (\<lambda>_. Ok c)))"

end
