(* ===== verification/Cost_Store_Proofs.thy ===== *)
theory Cost_Store_Proofs
  imports Cost_Store
begin

text \<open>
  The cost-event table as a map from source identity to row: one upsert is one update of
  that map (\<open>merge_row\<close>), and the constraints of the table are an invariant.
\<close>

section \<open>The table as a map\<close>

definition table_ok :: "'d cost_table \<Rightarrow> bool" where
  "table_ok tbl \<longleftrightarrow> distinct (map row_key tbl) \<and> distinct (map row_id tbl) \<and> (\<forall>r\<in>set tbl. row_checks r)"

definition row_at :: "'d cost_table \<Rightarrow> uuid \<times> string \<times> string \<Rightarrow> 'd cost_row option" where
  "row_at tbl k = find (\<lambda>x. row_key x = k) tbl"

definition merge_row :: "'d cost_row option \<Rightarrow> 'd cost_row \<Rightarrow> 'd cost_row" where
  "merge_row old r = (case old of
     None \<Rightarrow> r
   | Some x \<Rightarrow> if row_source_content_hash x = row_source_content_hash r then x else r\<lparr>row_id := row_id x\<rparr>)"

lemma row_at_Some: "row_at tbl k = Some x \<Longrightarrow> x \<in> set tbl \<and> row_key x = k"
  by (auto simp: row_at_def find_Some_iff)

lemma row_at_None: "row_at tbl k = None \<longleftrightarrow> k \<notin> row_key ` set tbl"
  by (auto simp: row_at_def find_None_iff)

lemma row_at_simps [simp]:
  "row_at [] k = None"
  "row_at (x # xs) k = (if row_key x = k then Some x else row_at xs k)"
  by (simp_all add: row_at_def)

lemma row_at_append:
  "row_at (xs @ ys) k = (case row_at xs k of Some x \<Rightarrow> Some x | None \<Rightarrow> row_at ys k)"
  by (induction xs) auto

lemma row_key_upd [simp]: "row_key (r\<lparr>row_id := i\<rparr>) = row_key r"
  by (simp add: row_key_def)

lemma row_checks_upd [simp]: "row_checks (r\<lparr>row_id := i\<rparr>) = row_checks r"
  by (simp add: row_checks_def)

lemma row_at_update:
  "row_at (map (\<lambda>x. if row_key x = row_key r then r\<lparr>row_id := row_id x\<rparr> else x) tbl) k =
    (if k = row_key r then map_option (\<lambda>x. r\<lparr>row_id := row_id x\<rparr>) (row_at tbl k) else row_at tbl k)"
  by (induction tbl) auto

section \<open>One statement\<close>

lemma insert_cases [consumes 1, case_names same changed new]:
  assumes "insert_cost_event r tbl = Ok (b, tbl')"
  obtains x where "row_at tbl (row_key r) = Some x" "row_source_content_hash x = row_source_content_hash r"
      "b = None" "tbl' = tbl" "row_checks r"
  | x where "row_at tbl (row_key r) = Some x" "row_source_content_hash x \<noteq> row_source_content_hash r"
      "b = Some False" "row_checks r"
      "tbl' = map (\<lambda>x. if row_key x = row_key r then r\<lparr>row_id := row_id x\<rparr> else x) tbl"
  | "row_at tbl (row_key r) = None" "\<forall>x\<in>set tbl. row_id x \<noteq> row_id r" "b = Some True" "row_checks r" "tbl' = tbl @ [r]"
  using assms
  by (auto simp: insert_cost_event_def row_at_def list_ex_iff image_iff split: if_splits option.splits)

lemma insert_table:
  assumes "insert_cost_event r tbl = Ok (b, tbl')" "table_ok tbl"
  shows "table_ok tbl' \<and>
    row_at tbl' = (row_at tbl)(row_key r \<mapsto> merge_row (row_at tbl (row_key r)) r) \<and>
    length tbl' = length tbl + (if b = Some True then 1 else 0)"
  using assms(1)
proof (cases rule: insert_cases)
  case (same x)
  with assms(2) show ?thesis by (auto simp: merge_row_def fun_eq_iff)
next
  case (changed x)
  have "map row_key tbl' = map row_key tbl" "map row_id tbl' = map row_id tbl"
    by (auto simp: changed(5))
  with assms(2) changed show ?thesis
    by (auto simp: table_ok_def row_at_update merge_row_def fun_eq_iff simp del: map_map)
next
  case new
  then have "row_key r \<notin> row_key ` set tbl" by (simp add: row_at_None)
  with assms(2) new show ?thesis
    by (auto simp: table_ok_def row_at_append merge_row_def fun_eq_iff split: option.splits)
qed

lemma insert_other_tenant:
  assumes "insert_cost_event r tbl = Ok (b, tbl')" "row_tenant_id r = t"
  shows "filter (\<lambda>x. row_tenant_id x \<noteq> t) tbl' = filter (\<lambda>x. row_tenant_id x \<noteq> t) tbl"
  using assms(1)
proof (cases rule: insert_cases)
  case (changed x)
  show ?thesis unfolding changed(5) using assms(2)
    by (induction tbl) (auto simp: row_key_def)
qed (use assms(2) in auto)

lemma bind_row_Ok:
  assumes "bind_row P e = Ok r"
  shows "row_key r = (tenant_as_uuid (tenant_id (event_dims e)),
      provider_as_str (ref_provider (event_source e)), external_id (event_source e))"
    "row_source_content_hash r = content_hash (event_source e)"
    "row_tenant_id r = tenant_as_uuid (tenant_id (event_dims e))"
  using assms by (auto simp: bind_row_def Let_def row_key_def)

definition event_key :: "'d cost_event \<Rightarrow> uuid \<times> string \<times> string" where
  "event_key e = (tenant_as_uuid (tenant_id (event_dims e)),
     provider_as_str (ref_provider (event_source e)), external_id (event_source e))"

lemma upsert_one_Ok:
  assumes "upsert_one P S e (n, o', tbl) = Ok st"
  obtains r b tbl' o2 where "bind_row P e = Ok r" "insert_cost_event r tbl = Ok (b, tbl')" "st = (Suc n, o2, tbl')"
    "row_key r = event_key e" "row_source_content_hash r = content_hash (event_source e)"
    "outcome_total o2 = Suc (outcome_total o')" "inserted o2 = inserted o' + (if b = Some True then 1 else 0)"
    "duplicate o2 = duplicate o' + (if b = None then 1 else 0)"
proof -
  from assms obtain r b tbl' where a: "bind_row P e = Ok r" "insert_cost_event r tbl = Ok (b, tbl')"
    and st: "st = (Suc n, (case b of None \<Rightarrow> o'\<lparr>duplicate := duplicate o' + 1\<rparr>
        | Some True \<Rightarrow> o'\<lparr>inserted := inserted o' + 1\<rparr> | Some False \<Rightarrow> o'\<lparr>restated := restated o' + 1\<rparr>), tbl')"
    by (auto simp: upsert_one_def)
  from that [OF a st] bind_row_Ok [OF a(1)] show ?thesis
    by (auto simp: event_key_def outcome_total_def split: option.splits bool.splits)
qed

section \<open>A batch\<close>

lemma upsert_fold:
  assumes "res_fold (upsert_one P S) es (n, o', tbl) = Ok (n', o2, tbl')" "table_ok tbl"
    "\<forall>e\<in>set es. tenant_id (event_dims e) = t"
  shows "table_ok tbl' \<and> outcome_total o2 = outcome_total o' + length es \<and>
    length tbl' + inserted o' = length tbl + inserted o2 \<and>
    filter (\<lambda>x. row_tenant_id x \<noteq> tenant_as_uuid t) tbl' = filter (\<lambda>x. row_tenant_id x \<noteq> tenant_as_uuid t) tbl \<and>
    (\<forall>k. k \<notin> event_key ` set es \<longrightarrow> row_at tbl' k = row_at tbl k) \<and>
    (\<forall>k x. row_at tbl k = Some x \<longrightarrow> (\<exists>y. row_at tbl' k = Some y \<and> row_id y = row_id x))"
  using assms
proof (induction es arbitrary: n o' tbl)
  case (Cons e es)
  from Cons.prems(1) obtain st where st: "upsert_one P S e (n, o', tbl) = Ok st"
    "res_fold (upsert_one P S) es st = Ok (n', o2, tbl')" by auto
  from st(1) obtain r b tbl1 o1 where one: "bind_row P e = Ok r" "insert_cost_event r tbl = Ok (b, tbl1)"
    "st = (Suc n, o1, tbl1)" "row_key r = event_key e" "outcome_total o1 = Suc (outcome_total o')"
    "inserted o1 = inserted o' + (if b = Some True then 1 else 0)"
    by (rule upsert_one_Ok)
  from insert_table [OF one(2) Cons.prems(2)] have t1: "table_ok tbl1"
    "row_at tbl1 = (row_at tbl)(row_key r \<mapsto> merge_row (row_at tbl (row_key r)) r)"
    "length tbl1 = length tbl + (if b = Some True then 1 else 0)" by auto
  have f: "filter (\<lambda>x. row_tenant_id x \<noteq> tenant_as_uuid t) tbl1 = filter (\<lambda>x. row_tenant_id x \<noteq> tenant_as_uuid t) tbl"
    by (rule insert_other_tenant [OF one(2)]) (use bind_row_Ok [OF one(1)] Cons.prems(3) in simp)
  have ids: "\<exists>y. row_at tbl1 k = Some y \<and> row_id y = row_id x" if "row_at tbl k = Some x" for k x
    using that by (auto simp: t1(2) merge_row_def)
  from Cons.IH [of "Suc n" o1 tbl1] st(2) one(3) t1(1) Cons.prems(3)
  have IH: "table_ok tbl'" "outcome_total o2 = outcome_total o1 + length es"
    "length tbl' + inserted o1 = length tbl1 + inserted o2"
    "filter (\<lambda>x. row_tenant_id x \<noteq> tenant_as_uuid t) tbl' = filter (\<lambda>x. row_tenant_id x \<noteq> tenant_as_uuid t) tbl1"
    "\<forall>k. k \<notin> event_key ` set es \<longrightarrow> row_at tbl' k = row_at tbl1 k"
    "\<forall>k x. row_at tbl1 k = Some x \<longrightarrow> (\<exists>y. row_at tbl' k = Some y \<and> row_id y = row_id x)" by auto
  have "\<forall>k x. row_at tbl k = Some x \<longrightarrow> (\<exists>y. row_at tbl' k = Some y \<and> row_id y = row_id x)"
    using ids IH(6) by metis
  moreover have "length tbl' + inserted o' = length tbl + inserted o2"
    using IH(3) one(6) t1(3) by (auto split: if_splits)
  ultimately show ?case using IH one(4,5) f by (auto simp: t1(2))
qed auto

text \<open>Batches in which one identity has one content: the batch ends up stored.\<close>

definition consistent :: "'d cost_event list \<Rightarrow> bool" where
  "consistent es \<longleftrightarrow> (\<forall>e\<in>set es. \<forall>e'\<in>set es. event_key e = event_key e' \<longrightarrow>
     content_hash (event_source e) = content_hash (event_source e'))"

definition stored_as :: "'d cost_table \<Rightarrow> 'd cost_event \<Rightarrow> bool" where
  "stored_as tbl e \<longleftrightarrow> (\<exists>x. row_at tbl (event_key e) = Some x \<and>
     row_source_content_hash x = content_hash (event_source e))"

lemma merge_hash [simp]: "row_source_content_hash (merge_row x r) = row_source_content_hash r"
  by (auto simp: merge_row_def split: option.splits)

lemma insert_stores:
  assumes "upsert_one P S e (n, o', tbl) = Ok (n', o2, tbl')" "table_ok tbl"
  shows "stored_as tbl' e \<and> (\<forall>e'. stored_as tbl e' \<and> (event_key e' = event_key e \<longrightarrow>
      content_hash (event_source e') = content_hash (event_source e)) \<longrightarrow> stored_as tbl' e')"
proof -
  from assms(1) obtain r b where r: "insert_cost_event r tbl = Ok (b, tbl')" "row_key r = event_key e"
    "row_source_content_hash r = content_hash (event_source e)"
    by (rule upsert_one_Ok) auto
  from insert_table [OF r(1) assms(2)] r(2,3) show ?thesis by (auto simp: stored_as_def)
qed

lemma fold_stores:
  assumes "res_fold (upsert_one P S) es (n, o', tbl) = Ok (n', o2, tbl')" "table_ok tbl"
    "consistent (ds @ es)" "\<forall>e\<in>set ds. stored_as tbl e"
  shows "\<forall>e\<in>set (ds @ es). stored_as tbl' e"
  using assms
proof (induction es arbitrary: n o' tbl ds)
  case (Cons e es)
  from Cons.prems(1) obtain n1 o1 tbl1 where st: "upsert_one P S e (n, o', tbl) = Ok (n1, o1, tbl1)"
    "res_fold (upsert_one P S) es (n1, o1, tbl1) = Ok (n', o2, tbl')" by auto
  have ok: "table_ok tbl1"
    using st(1) insert_table [OF _ Cons.prems(2)] by (auto elim: upsert_one_Ok)
  have "\<forall>e'\<in>set (ds @ [e]). stored_as tbl1 e'"
    using insert_stores [OF st(1) Cons.prems(2)] Cons.prems(3,4) by (auto simp: consistent_def)
  with Cons.IH [OF st(2) ok, of "ds @ [e]"] Cons.prems(3) show ?case by simp
qed simp

lemma fold_duplicates:
  assumes "\<forall>e\<in>set es. stored_as tbl e \<and> (\<exists>r. bind_row P e = Ok r \<and> row_checks r)" "healthy S"
  shows "res_fold (upsert_one P S) es (n, o', tbl) =
    Ok (n + length es, o'\<lparr>duplicate := duplicate o' + length es\<rparr>, tbl)"
  using assms(1)
proof (induction es arbitrary: n o')
  case (Cons e es)
  then obtain r x where r: "bind_row P e = Ok r" "row_checks r" "row_at tbl (event_key e) = Some x"
    "row_source_content_hash x = content_hash (event_source e)" by (auto simp: stored_as_def)
  have "row_key r = event_key e" "row_source_content_hash r = content_hash (event_source e)"
    using bind_row_Ok [OF r(1)] by (simp_all add: event_key_def)
  with r have "insert_cost_event r tbl = Ok (None, tbl)"
    by (simp add: insert_cost_event_def row_at_def)
  with assms(2) r(1) have "upsert_one P S e (n, o', tbl) =
      Ok (Suc n, o'\<lparr>duplicate := duplicate o' + 1\<rparr>, tbl)"
    by (simp add: upsert_one_def healthy_def pg_check_def)
  with Cons show ?case by simp
qed simp

end
