(* ===== verification/Cost_Store_Properties.thy ===== *)
theory Cost_Store_Properties
  imports Cost_Store_Proofs Decimal_Ref
begin

text \<open>
  The properties of the cost-event store: its table invariant, what an upsert does to the
  table seen as a map, idempotence, tenant isolation and the read back of what was written.
\<close>

section \<open>Helpers\<close>

lemma upsert_Ok_cases:
  assumes "upsert P S es tbl = (Ok o2, tbl')" "es \<noteq> []"
  obtains n where "\<forall>e\<in>set es. tenant_id (event_dims e) = tenant_id (event_dims (hd es))"
    "res_fold (upsert_one P S) es (0, outcome_default, tbl) = Ok (n, o2, tbl')"
proof -
  obtain e es' where es: "es = e # es'" using assms(2) by (cases es) auto
  from assms(1) have tx: "upsert_tx P S es tbl = Ok (o2, tbl')"
    by (auto simp: upsert_def split: res.splits)
  then have "\<forall>x\<in>set es. tenant_id (event_dims x) = tenant_id (event_dims e)"
    by (auto simp: upsert_tx_def es Let_def list_ex_iff split: if_splits)
  moreover from tx obtain n where "res_fold (upsert_one P S) es (0, outcome_default, tbl) = Ok (n, o2, tbl')"
    by (auto simp: upsert_tx_def es Let_def simp del: res_fold.simps split: if_splits)
  ultimately show ?thesis using that es by simp
qed

lemma outcome_default_simps [simp]:
  "outcome_total outcome_default = 0" "inserted outcome_default = 0" "duplicate outcome_default = 0"
  by (simp_all add: outcome_total_def outcome_default_def)

lemma fold_binds:
  "res_fold (upsert_one P S) es (n, o', tbl) = Ok st \<Longrightarrow> e \<in> set es \<Longrightarrow>
   \<exists>r. bind_row P e = Ok r \<and> row_checks r"
proof (induction es arbitrary: n o' tbl)
  case (Cons x xs)
  from Cons.prems(1) obtain n1 o1 tbl1 where st: "upsert_one P S x (n, o', tbl) = Ok (n1, o1, tbl1)"
    "res_fold (upsert_one P S) xs (n1, o1, tbl1) = Ok st" by auto
  from st(1) obtain r b where "bind_row P x = Ok r" "insert_cost_event r tbl = Ok (b, tbl1)"
    by (rule upsert_one_Ok) auto
  then have "\<exists>r. bind_row P x = Ok r \<and> row_checks r" by (auto elim: insert_cases)
  with Cons.IH [OF st(2)] Cons.prems(2) show ?case by auto
qed simp

text \<open>A concrete event, a codec that stores values as they are, and a server that never fails.\<close>

definition plain_codec :: "refdec pg_codec" where
  "plain_codec = \<lparr>pg_numeric = Some, pg_timestamptz = (\<lambda>t. t), pg_jsonb = (\<lambda>j. j), pg_uuid_show = (\<lambda>_. ''u'')\<rparr>"

definition good_session :: pg_session where
  "good_session = \<lparr>pg_begin_fault = None, pg_set_config = (\<lambda>_ v. Ok (Some v)), pg_stmt_fault = (\<lambda>_. None),
     pg_commit_fault = None\<rparr>"

lemma good_session_healthy [simp]: "healthy good_session"
  by (simp add: healthy_def good_session_def)

definition demo_event :: "uuid \<Rightarrow> string \<Rightarrow> int \<Rightarrow> refdec cost_event" where
  "demo_event i h cents = \<lparr>event_id = CostEventId i, billing_account_id = ''a'', charge_period_start = 0,
     charge_period_end = 3600, event_billed_cost = money_new (Dec cents 2) Usd,
     event_effective_cost = money_new (Dec cents 2) Usd, event_list_cost = money_new (Dec cents 2) Usd,
     service_name = ''EC2'', service_category = Compute, charge_category = Usage, resource_id = None,
     region_id = None, event_tags = JObject [],
     event_dims = dimensions_new (TenantId 1) (ProjectId 2) (TeamId 3) (ProviderId 4) RnD,
     event_source = \<lparr>ref_provider = Aws, external_id = ''line-1'', export_ref = ''x'', billing_period = ''2026-08'',
       content_hash = h, ingested_at = 5\<rparr>\<rparr>"

definition demo_row_of :: "uuid \<Rightarrow> string \<Rightarrow> int \<Rightarrow> refdec cost_row" where
  "demo_row_of i h cents = (case bind_row plain_codec (demo_event i h cents) of Ok r \<Rightarrow> r)"

lemma demo_bind: "bind_row plain_codec (demo_event i h c) = Ok (demo_row_of i h c)"
  by (simp add: demo_row_of_def bind_row_def Let_def plain_codec_def demo_event_def)

lemma demo_row_facts:
  "row_checks (demo_row_of i h c)" "row_key (demo_row_of i h c) = (1, ''aws'', ''line-1'')"
  "row_source_content_hash (demo_row_of i h c) = h" "row_id (demo_row_of i h c) = i"
  "(demo_row_of i h c)\<lparr>row_id := j\<rparr> = demo_row_of j h c"
  by (simp_all add: demo_row_of_def bind_row_def Let_def plain_codec_def demo_event_def row_checks_def
      row_key_def event_currency_def dimensions_new_def iso4217_code_def)

lemma demo_table_ok: "table_ok [demo_row_of i h c]"
  by (simp add: table_ok_def demo_row_facts)

lemma demo_upsert:
  "upsert plain_codec good_session [demo_event i h c] [] =
     (Ok \<lparr>inserted = 1, restated = 0, duplicate = 0\<rparr>, [demo_row_of i h c])"
  "h' \<noteq> h \<Longrightarrow> upsert plain_codec good_session [demo_event i' h' c'] [demo_row_of i h c] =
     (Ok \<lparr>inserted = 0, restated = 1, duplicate = 0\<rparr>, [demo_row_of i h' c'])"
proof -
  have "pg_check (pg_stmt_fault good_session n) = Ok ()" "pg_check (pg_commit_fault good_session) = Ok ()" for n
    by (simp_all add: good_session_def)
  then show "upsert plain_codec good_session [demo_event i h c] [] =
     (Ok \<lparr>inserted = 1, restated = 0, duplicate = 0\<rparr>, [demo_row_of i h c])"
    "h' \<noteq> h \<Longrightarrow> upsert plain_codec good_session [demo_event i' h' c'] [demo_row_of i h c] =
     (Ok \<lparr>inserted = 0, restated = 1, duplicate = 0\<rparr>, [demo_row_of i h' c'])"
    by (simp_all add: upsert_def upsert_tx_def upsert_one_def demo_bind insert_cost_event_def demo_row_facts
        outcome_default_def Let_def)
qed

section \<open>Properties\<close>

text \<open>
  C10: a batch is all or nothing and keeps the table's constraints: on success every event is
  counted exactly once, as inserted, restated or duplicate, the table grows by the inserted
  ones, a row that exists keeps its identifier, and identities outside the batch are not
  touched; on failure the table is unchanged.
\<close>

theorem upsert_invariant:
  assumes "table_ok tbl" "upsert P S es tbl = (res, tbl')"
  shows "case res of
      Ok outcome \<Rightarrow> table_ok tbl' \<and> outcome_total outcome = length es \<and> length tbl' = length tbl + inserted outcome \<and>
        (\<forall>k. k \<notin> event_key ` set es \<longrightarrow> row_at tbl' k = row_at tbl k) \<and>
        (\<forall>k x. row_at tbl k = Some x \<longrightarrow> (\<exists>y. row_at tbl' k = Some y \<and> row_id y = row_id x))
    | _ \<Rightarrow> tbl' = tbl"
proof (cases res)
  case (Ok outcome)
  show ?thesis
  proof (cases "es = []")
    case True
    with assms Ok show ?thesis by (auto simp: upsert_def upsert_tx_def)
  next
    case False
    obtain n where "\<forall>e\<in>set es. tenant_id (event_dims e) = tenant_id (event_dims (hd es))"
      "res_fold (upsert_one P S) es (0, outcome_default, tbl) = Ok (n, outcome, tbl')"
      using upsert_Ok_cases [OF assms(2) [unfolded Ok] False] .
    from upsert_fold [OF this(2) assms(1) this(1)] Ok show ?thesis by simp
  qed
qed (use assms(2) in \<open>auto simp: upsert_def split: res.splits\<close>)

theorem upsert_invariant_witness:
  "table_ok [demo_row_of 7 ''h2'' 175]"
  using upsert_invariant [OF demo_table_ok [of 7 "''h1''" 150] demo_upsert(2) [of "''h2''" "''h1''" 8 175 7 150]]
  by simp

text \<open>
  C11: re-delivering a batch is harmless: after a successful upsert of a batch in which one
  identity has one content, the same batch succeeds again, counts every event as a
  duplicate, and leaves the table exactly as it was.
\<close>

theorem upsert_idempotent:
  assumes "table_ok tbl" "consistent es" "upsert P S es tbl = (Ok outcome, tbl')" "healthy S'"
  shows "upsert P S' es tbl' = (Ok \<lparr>inserted = 0, restated = 0, duplicate = length es\<rparr>, tbl')"
proof (cases es)
  case Nil
  then show ?thesis by (simp add: upsert_def upsert_tx_def outcome_default_def)
next
  case (Cons e es')
  then have ne: "es \<noteq> []" by simp
  obtain n where n: "\<forall>x\<in>set es. tenant_id (event_dims x) = tenant_id (event_dims (hd es))"
    "res_fold (upsert_one P S) es (0, outcome_default, tbl) = Ok (n, outcome, tbl')"
    using upsert_Ok_cases [OF assms(3) ne] .
  have st: "\<forall>x\<in>set es. stored_as tbl' x"
    using fold_stores [OF n(2) assms(1), of "[]"] assms(2) by simp
  have "\<exists>r. bind_row P x = Ok r \<and> row_checks r" if "x \<in> set es" for x
    using fold_binds [OF n(2) that] .
  with fold_duplicates [of es tbl' P S' 0 outcome_default] st assms(4)
  have "res_fold (upsert_one P S') es (0, outcome_default, tbl') =
      Ok (length es, outcome_default\<lparr>duplicate := length es\<rparr>, tbl')" by simp
  moreover have "\<not> list_ex (\<lambda>x. tenant_id (event_dims x) \<noteq> tenant_id (event_dims e)) es"
    using n(1) Cons by (simp add: list_ex_iff)
  ultimately show ?thesis
    using assms(4) by (simp add: upsert_def upsert_tx_def Cons Let_def healthy_def pg_check_def outcome_default_def
        del: res_fold.simps)
qed

theorem upsert_idempotent_witness:
  "upsert plain_codec good_session [demo_event 7 ''h1'' 150] [demo_row_of 7 ''h1'' 150] =
     (Ok \<lparr>inserted = 0, restated = 0, duplicate = 1\<rparr>, [demo_row_of 7 ''h1'' 150])"
proof -
  have "table_ok ([] :: refdec cost_table)" "consistent [demo_event 7 ''h1'' 150]"
    by (simp_all add: table_ok_def consistent_def)
  from upsert_idempotent [OF this demo_upsert(1) good_session_healthy] show ?thesis by simp
qed

text \<open>
  Tenants are isolated: what another tenant can find and count is not changed by an
  upsert, whatever its outcome.
\<close>

theorem upsert_tenant_isolation:
  assumes "table_ok tbl" "\<forall>e\<in>set es. tenant_id (event_dims e) = t" "t' \<noteq> t"
    "upsert P S es tbl = (res, tbl')"
  shows "find_by_external_id Q S' tbl' t' provider ext = find_by_external_id Q S' tbl t' provider ext \<and>
    attribution_coverage Q S' tbl' t' since = attribution_coverage Q S' tbl t' since"
proof -
  have "filter (\<lambda>x. row_tenant_id x \<noteq> tenant_as_uuid t) tbl' = filter (\<lambda>x. row_tenant_id x \<noteq> tenant_as_uuid t) tbl"
  proof (cases res)
    case (Ok outcome)
    show ?thesis
    proof (cases "es = []")
      case False
      obtain n where "res_fold (upsert_one P S) es (0, outcome_default, tbl) = Ok (n, outcome, tbl')"
        using upsert_Ok_cases [OF assms(4) [unfolded Ok] False] .
      from upsert_fold [OF this assms(1,2)] show ?thesis by simp
    qed (use assms(4) Ok in \<open>auto simp: upsert_def upsert_tx_def\<close>)
  qed (use assms(4) in \<open>auto simp: upsert_def split: res.splits\<close>)
  moreover have "filter (\<lambda>r. row_tenant_id r = tenant_as_uuid t') xs =
      filter (\<lambda>r. row_tenant_id r = tenant_as_uuid t') (filter (\<lambda>x. row_tenant_id x \<noteq> tenant_as_uuid t) xs)" for xs :: "'a cost_table"
    using assms(3) by (auto intro!: filter_cong simp: TenantId.expand)
  ultimately have "visible t' tbl' = visible t' tbl" unfolding visible_def by metis
  then show ?thesis by (simp add: find_by_external_id_def attribution_coverage_def)
qed

theorem upsert_tenant_isolation_witness:
  "find_by_external_id plain_codec good_session [demo_row_of 7 ''h1'' 150] (TenantId 2) Aws ''line-1'' =
   find_by_external_id plain_codec good_session [] (TenantId 2) Aws ''line-1''"
proof -
  have "table_ok ([] :: refdec cost_table)" "\<forall>e\<in>set [demo_event 7 ''h1'' 150]. tenant_id (event_dims e) = TenantId 1"
    "TenantId 2 \<noteq> TenantId 1"
    by (simp_all add: table_ok_def demo_event_def dimensions_new_def)
  from upsert_tenant_isolation [OF this demo_upsert(1)] show ?thesis by blast
qed

section \<open>Reading back\<close>

text \<open>The amounts, instants and tags of an event are stored as they are.\<close>

definition codec_exact :: "'d pg_codec \<Rightarrow> 'd cost_event \<Rightarrow> bool" where
  "codec_exact P e \<longleftrightarrow>
     (\<forall>m\<in>{event_billed_cost e, event_effective_cost e, event_list_cost e}. pg_numeric P (amount m) = Some (amount m)) \<and>
     (\<forall>t\<in>{charge_period_start e, charge_period_end e, ingested_at (event_source e)}. pg_timestamptz P t = t) \<and>
     pg_jsonb P (event_tags e) = event_tags e"

lemma decode_dims:
  "(let d = dimensions_new t p m v f;
        d = (case r of Some i \<Rightarrow> with_run (RunId i) d | None \<Rightarrow> d);
        d = (case c of Some i \<Rightarrow> with_customer (CustomerId i) d | None \<Rightarrow> d);
        d = (case mo of Some i \<Rightarrow> with_model (ModelId i) d | None \<Rightarrow> d);
        d = (case ds of Some i \<Rightarrow> with_dataset (DatasetId i) d | None \<Rightarrow> d);
        d = (case co of Some i \<Rightarrow> with_commitment (CommitmentId i) d | None \<Rightarrow> d)
    in G d) = G \<lparr>tenant_id = t, project_id = p, run_id = map_option RunId r, team_id = m,
      customer_id = map_option CustomerId c, model_id = map_option ModelId mo, dataset_id = map_option DatasetId ds,
      provider_id = v, function_code = f, commitment_id = map_option CommitmentId co\<rparr>"
  by (cases r; cases c; cases mo; cases ds; cases co) (simp_all add: dimensions_builders)

lemma money_eta: "money_new (amount m) (currency m) = m"
  by (simp add: money_new_def)

lemma decode_bind:
  assumes "bind_row P e = Ok r" "codec_exact P e" "event_ok e"
  shows "decode_event (r\<lparr>row_id := i\<rparr>) = Ok (e\<lparr>event_id := CostEventId i\<rparr>)"
proof -
  have ids: "map_option RunId (map_option run_as_uuid a) = a" "map_option CustomerId (map_option customer_as_uuid b) = b"
    "map_option ModelId (map_option model_as_uuid c) = c" "map_option DatasetId (map_option dataset_as_uuid d) = d"
    "map_option CommitmentId (map_option commitment_as_uuid f) = f" for a b c d f
    by (simp_all add: option.map_comp comp_def option.map_ident)
  from assms have c: "currency (event_effective_cost e) = currency (event_billed_cost e)"
    "currency (event_list_cost e) = currency (event_billed_cost e)" by (simp_all add: event_ok_def event_currency_def)
  from assms(1,2) show ?thesis
    unfolding decode_event_def decode_dims
    by (auto simp: bind_row_def codec_exact_def Let_def event_currency_def ccode.round_trip fcode.round_trip
        provk.round_trip chargec.round_trip servc.round_trip ids c money_eta [of "event_billed_cost e"]
        money_eta [of "event_effective_cost e", unfolded c] money_eta [of "event_list_cost e", unfolded c])
qed

lemma find_filter: "find p (filter q xs) = find (\<lambda>x. q x \<and> p x) xs"
  by (induction xs) auto

lemma find_in_table:
  assumes "healthy S" "row_at tbl (tenant_as_uuid t, provider_as_str pr, ext) = Some r"
  shows "find_by_external_id P S tbl t pr ext = res_map Some (decode_event r)"
  using assms by (simp add: find_by_external_id_def healthy_def visible_def find_filter row_at_def row_key_def
      begin_tenant_tx_def Let_def)

text \<open>
  C14: what was written is what is read: an event that was inserted or that restated its line
  is found under its identity, field for field, under the identifier of the line's first
  delivery, provided the column types hold its values exactly.
\<close>

theorem upsert_then_find:
  assumes "table_ok tbl" "upsert P S [e] tbl = (Ok outcome, tbl')" "duplicate outcome = 0"
    "codec_exact P e" "event_ok e" "healthy S'"
  shows "find_by_external_id P S' tbl' (tenant_id (event_dims e)) (ref_provider (event_source e))
      (external_id (event_source e)) =
    Ok (Some (case row_at tbl (event_key e) of None \<Rightarrow> e | Some x \<Rightarrow> e\<lparr>event_id := CostEventId (row_id x)\<rparr>))"
proof -
  obtain n where "res_fold (upsert_one P S) [e] (0, outcome_default, tbl) = Ok (n, outcome, tbl')"
    using upsert_Ok_cases [OF assms(2)] by blast
  then have "upsert_one P S e (0, outcome_default, tbl) = Ok (n, outcome, tbl')" by auto
  then obtain r b where r: "bind_row P e = Ok r" "insert_cost_event r tbl = Ok (b, tbl')" "row_key r = event_key e"
    "duplicate outcome = (if b = None then 1 else 0)"
    by (rule upsert_one_Ok) auto
  have b: "b \<noteq> None" using r(4) assms(3) by (cases b) simp_all
  have at: "row_at tbl' (event_key e) = Some (merge_row (row_at tbl (event_key e)) r)"
    using insert_table [OF r(2) assms(1)] r(3) by simp
  have m: "merge_row (row_at tbl (event_key e)) r = (case row_at tbl (event_key e) of None \<Rightarrow> r
      | Some x \<Rightarrow> r\<lparr>row_id := row_id x\<rparr>)"
    using r(2) by (cases rule: insert_cases) (use b r(3) in \<open>auto simp: merge_row_def\<close>)
  have "r = r\<lparr>row_id := cost_event_as_uuid (event_id e)\<rparr>"
    using r(1) by (auto simp: bind_row_def Let_def)
  with decode_bind [OF r(1) assms(4,5), of "cost_event_as_uuid (event_id e)"]
  have "decode_event r = Ok e" by simp
  moreover have "decode_event (r\<lparr>row_id := i\<rparr>) = Ok (e\<lparr>event_id := CostEventId i\<rparr>)" for i
    by (rule decode_bind [OF r(1) assms(4,5)])
  ultimately have "decode_event (merge_row (row_at tbl (event_key e)) r) =
      Ok (case row_at tbl (event_key e) of None \<Rightarrow> e | Some x \<Rightarrow> e\<lparr>event_id := CostEventId (row_id x)\<rparr>)"
    unfolding m by (cases "row_at tbl (event_key e)") simp_all
  with find_in_table [OF assms(6) at [unfolded event_key_def], of P] show ?thesis
    by (simp add: event_key_def)
qed

theorem upsert_then_find_witness:
  "find_by_external_id plain_codec good_session [demo_row_of 7 ''h2'' 175] (TenantId 1) Aws ''line-1'' =
     Ok (Some (demo_event 7 ''h2'' 175))"
proof -
  have "codec_exact plain_codec (demo_event 8 ''h2'' 175)" "event_ok (demo_event 8 ''h2'' 175)"
    by (simp_all add: codec_exact_def event_ok_def plain_codec_def demo_event_def event_currency_def)
  from upsert_then_find [OF demo_table_ok [of 7 "''h1''" 150] demo_upsert(2) _ this good_session_healthy]
  show ?thesis
    by (simp add: event_key_def demo_row_facts) (simp add: demo_event_def dimensions_new_def demo_row_facts)
qed

end
