(* ===== verification/Ledger_Store.thy ===== *)
theory Ledger_Store
  imports Ledger Cost_Store
begin

text \<open>
  \<open>crates/infra/src/ledger_store.rs\<close>: the append-only event log of the ledger, under the
  constraints of its migration (\<open>ledger_events\<close>: primary key, unique
  \<open>(aggregate_id, sequence_number)\<close>, non-negative sequence numbers, row-level security).

  The crate \<open>esrs\<close> supplies the aggregate state that hands out sequence numbers and the fold
  of the stored events, and \<open>serde\<close> the encoding of an event; both are arguments. Their
  documented laws are the locale \<open>esrs_laws\<close> and the predicate \<open>serde_exact\<close>.
\<close>

section \<open>The aggregate state of \<open>esrs\<close>\<close>

record 'd store_event =
  se_id :: uuid
  se_aggregate_id :: uuid
  se_payload :: "'d ledger_event"
  se_occurred_on :: datetime
  se_sequence_number :: int
  se_version :: "int option"

datatype ledger_store_error =
    BackendError string
  | CorruptEvent uuid string
  | Serialize string
  | ConcurrencyConflict uuid int
  | AppendOnly

record ('g, 'd) esrs_ops =
  agg_with_id :: "uuid \<Rightarrow> 'g"
  agg_id :: "'g \<Rightarrow> uuid"
  agg_inner :: "'g \<Rightarrow> 'd ledger_state"
  agg_next :: "'g \<Rightarrow> int \<times> 'g"
  agg_apply :: "'g \<Rightarrow> 'd store_event list
     \<Rightarrow> ('d ledger_state \<Rightarrow> 'd ledger_event \<Rightarrow> (ledger_store_error, 'd ledger_state) res)
     \<Rightarrow> (ledger_store_error, 'g) res"

record 'd event_serde =
  event_to_value :: "'d ledger_event \<Rightarrow> (string, json) res"
  event_from_value :: "json \<Rightarrow> (string, 'd ledger_event) res"

text \<open>The fold over stored events, in the order they are given.\<close>

definition fold_events ::
  "('d ledger_state \<Rightarrow> 'd ledger_event \<Rightarrow> ('e, 'd ledger_state) res) \<Rightarrow> 'd store_event list
     \<Rightarrow> 'd ledger_state \<Rightarrow> ('e, 'd ledger_state) res" where
  "fold_events f events s = res_fold (\<lambda>e st. f st (se_payload e)) events s"

definition reached_sequence :: "int \<Rightarrow> 'd store_event list \<Rightarrow> int" where
  "reached_sequence n events = (if events = [] then n else se_sequence_number (last events))"

locale esrs_laws =
  fixes E :: "('g, 'd) esrs_ops" and seq :: "'g \<Rightarrow> int"
  assumes with_id: "agg_id E (agg_with_id E i) = i" "agg_inner E (agg_with_id E i) = ledger_default"
      "seq (agg_with_id E i) = 0"
    and next_seq: "seq g < 2 ^ 31 - 1 \<Longrightarrow> agg_next E g = (n, g') \<Longrightarrow>
      n = seq g + 1 \<and> seq g' = n \<and> agg_id E g' = agg_id E g \<and> agg_inner E g' = agg_inner E g"
    and apply_ok: "fold_events f events (agg_inner E g) = Ok s \<Longrightarrow>
      \<exists>g'. agg_apply E g events f = Ok g' \<and> agg_inner E g' = s \<and> agg_id E g' = agg_id E g \<and>
        seq g' = reached_sequence (seq g) events"
    and apply_panic: "fold_events f events (agg_inner E g) = Panic \<Longrightarrow> agg_apply E g events f = Panic"

section \<open>The table\<close>

record ledger_row =
  lrow_id :: uuid
  lrow_aggregate_id :: uuid
  lrow_tenant_id :: uuid
  lrow_payload :: json
  lrow_occurred_on :: datetime
  lrow_sequence_number :: int
  lrow_version :: "int option"

type_synonym ledger_table = "ledger_row list"

text \<open>A statement's failure: a unique violation (SQLSTATE 23505), or anything else.\<close>

datatype sql_error = UniqueViolation | OtherSql string

definition insert_ledger_event :: "ledger_row \<Rightarrow> ledger_table \<Rightarrow> (sql_error, ledger_table) res" where
  "insert_ledger_event r tbl =
     (if lrow_sequence_number r < 0 then Err (OtherSql ''ledger_events_sequence_is_positive'')
      else if list_ex (\<lambda>x. lrow_id x = lrow_id r) tbl then Err UniqueViolation
      else if list_ex (\<lambda>x. lrow_aggregate_id x = lrow_aggregate_id r \<and>
          lrow_sequence_number x = lrow_sequence_number r) tbl then Err UniqueViolation
      else Ok (tbl @ [r]))"

definition ledger_visible :: "TenantId \<Rightarrow> ledger_table \<Rightarrow> ledger_table" where
  "ledger_visible t tbl = filter (\<lambda>r. lrow_tenant_id r = tenant_as_uuid t) tbl"

section \<open>The store\<close>

record ledger_store =
  store_tenant_id :: TenantId

definition ledger_store_new :: "TenantId \<Rightarrow> ledger_store" where
  "ledger_store_new t = \<lparr>store_tenant_id = t\<rparr>"

definition ledger_for_tenant :: "TenantId \<Rightarrow> ledger_store" where
  "ledger_for_tenant t = ledger_store_new t"

definition decode_ledger_row ::
  "'d event_serde \<Rightarrow> ledger_row \<Rightarrow> (ledger_store_error, 'd store_event) res" where
  "decode_ledger_row Z r =
     res_bind (res_map_err (CorruptEvent (lrow_id r)) (event_from_value Z (lrow_payload r))) (\<lambda>payload.
     Ok \<lparr>se_id = lrow_id r, se_aggregate_id = lrow_aggregate_id r, se_payload = payload,
       se_occurred_on = lrow_occurred_on r, se_sequence_number = lrow_sequence_number r,
       se_version = lrow_version r\<rparr>)"

definition by_aggregate_id ::
  "'d pg_codec \<Rightarrow> 'd event_serde \<Rightarrow> pg_session \<Rightarrow> ledger_table \<Rightarrow> ledger_store \<Rightarrow> uuid
     \<Rightarrow> (ledger_store_error, 'd store_event list) res" where
  "by_aggregate_id P Z S tbl self i =
     res_bind (res_map_err (BackendError \<circ> show_db_error)
       (begin_tenant_tx S (pg_uuid_show P) (store_tenant_id self))) (\<lambda>t.
     res_bind (res_map_err BackendError (pg_check (pg_stmt_fault S 0))) (\<lambda>_.
     let rows = sort_by (\<lambda>a b. lrow_sequence_number a \<le> lrow_sequence_number b)
           (filter (\<lambda>r. lrow_aggregate_id r = i) (ledger_visible t tbl))
     in res_bind (res_map_err BackendError (pg_check (pg_commit_fault S))) (\<lambda>_.
        res_mapM (decode_ledger_row Z) rows)))"

definition load ::
  "'d decimal_ops \<Rightarrow> ('g, 'd) esrs_ops \<Rightarrow> 'd pg_codec \<Rightarrow> 'd event_serde \<Rightarrow> pg_session
     \<Rightarrow> ledger_table \<Rightarrow> ledger_store \<Rightarrow> uuid \<Rightarrow> (ledger_store_error, 'g) res" where
  "load D E P Z S tbl self i =
     res_bind (by_aggregate_id P Z S tbl self i) (\<lambda>events.
     agg_apply E (agg_with_id E i) events (apply_event D))"

definition event_count ::
  "'d pg_codec \<Rightarrow> 'd event_serde \<Rightarrow> pg_session \<Rightarrow> ledger_table \<Rightarrow> ledger_store \<Rightarrow> uuid
     \<Rightarrow> (ledger_store_error, nat) res" where
  "event_count P Z S tbl self i = res_map length (by_aggregate_id P Z S tbl self i)"

text \<open>A unique violation can only be a concurrent append, says the source; it is reported as one.\<close>

fun append_error :: "uuid \<Rightarrow> int \<Rightarrow> sql_error \<Rightarrow> ledger_store_error" where
  "append_error i s UniqueViolation = ConcurrencyConflict i s"
| "append_error i s (OtherSql e) = BackendError e"

text \<open>
  One iteration of the loop of \<open>persist\<close>. The aggregate state advances even when the
  statement then fails, as the \<open>&mut\<close> argument of the method does.
\<close>

definition persist_one ::
  "('g, 'd) esrs_ops \<Rightarrow> 'd pg_codec \<Rightarrow> 'd event_serde \<Rightarrow> pg_session \<Rightarrow> TenantId \<Rightarrow> datetime
     \<Rightarrow> uuid \<Rightarrow> nat \<Rightarrow> 'd ledger_event \<Rightarrow> 'g \<Rightarrow> ledger_table
     \<Rightarrow> (ledger_store_error, 'd store_event \<times> ledger_table) res \<times> 'g" where
  "persist_one E P Z S tenant now i n payload g tbl =
     (let (s, g') = agg_next E g in
      (res_bind (res_map_err Serialize (event_to_value Z payload)) (\<lambda>v.
       let r = \<lparr>lrow_id = i, lrow_aggregate_id = agg_id E g, lrow_tenant_id = tenant_as_uuid tenant,
             lrow_payload = pg_jsonb P v, lrow_occurred_on = pg_timestamptz P now,
             lrow_sequence_number = s, lrow_version = None\<rparr>
       in res_bind (res_map_err (append_error (agg_id E g) s)
            (res_bind (res_map_err OtherSql (pg_check (pg_stmt_fault S n))) (\<lambda>_. insert_ledger_event r tbl)))
          (\<lambda>tbl'. Ok (\<lparr>se_id = i, se_aggregate_id = agg_id E g, se_payload = payload,
             se_occurred_on = now, se_sequence_number = s, se_version = None\<rparr>, tbl'))),
       g'))"

fun persist_rows ::
  "('g, 'd) esrs_ops \<Rightarrow> 'd pg_codec \<Rightarrow> 'd event_serde \<Rightarrow> pg_session \<Rightarrow> TenantId \<Rightarrow> datetime
     \<Rightarrow> (nat \<Rightarrow> uuid) \<Rightarrow> nat \<Rightarrow> 'd ledger_event list \<Rightarrow> 'g \<Rightarrow> 'd store_event list \<Rightarrow> ledger_table
     \<Rightarrow> (ledger_store_error, 'd store_event list \<times> ledger_table) res \<times> 'g" where
  "persist_rows E P Z S tenant now fresh n [] g stored tbl = (Ok (stored, tbl), g)"
| "persist_rows E P Z S tenant now fresh n (payload # rest) g stored tbl =
     (case persist_one E P Z S tenant now (fresh n) n payload g tbl of
        (Ok (e, tbl'), g') \<Rightarrow> persist_rows E P Z S tenant now fresh (Suc n) rest g' (stored @ [e]) tbl'
      | (Err x, g') \<Rightarrow> (Err x, g')
      | (Panic, g') \<Rightarrow> (Panic, g'))"

definition persist_tx ::
  "('g, 'd) esrs_ops \<Rightarrow> 'd pg_codec \<Rightarrow> 'd event_serde \<Rightarrow> pg_session \<Rightarrow> ledger_store \<Rightarrow> datetime
     \<Rightarrow> (nat \<Rightarrow> uuid) \<Rightarrow> 'g \<Rightarrow> 'd ledger_event list \<Rightarrow> ledger_table
     \<Rightarrow> (ledger_store_error, 'd store_event list \<times> ledger_table) res \<times> 'g" where
  "persist_tx E P Z S self now fresh g events tbl =
     (case res_map_err (BackendError \<circ> show_db_error)
         (begin_tenant_tx S (pg_uuid_show P) (store_tenant_id self)) of
        Err e \<Rightarrow> (Err e, g)
      | Panic \<Rightarrow> (Panic, g)
      | Ok t \<Rightarrow>
          (case persist_rows E P Z S t now fresh 0 events g [] tbl of (res, g') \<Rightarrow>
             (res_bind res (\<lambda>x. res_bind (res_map_err BackendError (pg_check (pg_commit_fault S))) (\<lambda>_. Ok x)),
              g')))"

text \<open>The method: its result, the aggregate state and the table it leaves.\<close>

definition persist ::
  "('g, 'd) esrs_ops \<Rightarrow> 'd pg_codec \<Rightarrow> 'd event_serde \<Rightarrow> pg_session \<Rightarrow> ledger_store \<Rightarrow> datetime
     \<Rightarrow> (nat \<Rightarrow> uuid) \<Rightarrow> 'g \<Rightarrow> 'd ledger_event list \<Rightarrow> ledger_table
     \<Rightarrow> (ledger_store_error, 'd store_event list) res \<times> 'g \<times> ledger_table" where
  "persist E P Z S self now fresh g events tbl =
     (case persist_tx E P Z S self now fresh g events tbl of
        (Ok (stored, tbl'), g') \<Rightarrow> (Ok stored, g', tbl')
      | (Err e, g') \<Rightarrow> (Err e, g', tbl)
      | (Panic, g') \<Rightarrow> (Panic, g', tbl))"

text \<open>The advisory lock and the event bus are no-ops; deletion is refused.\<close>

definition lock :: "ledger_store \<Rightarrow> uuid \<Rightarrow> (ledger_store_error, unit) res" where
  "lock self i = Ok ()"

definition publish :: "ledger_store \<Rightarrow> 'd store_event list \<Rightarrow> unit" where
  "publish self events = ()"

definition delete_aggregate :: "ledger_store \<Rightarrow> uuid \<Rightarrow> (ledger_store_error, unit) res" where
  "delete_aggregate self i = Err AppendOnly"

section \<open>A provider of the interface\<close>

record 'd plain_aggregate =
  pa_id :: uuid
  pa_sequence :: int
  pa_inner :: "'d ledger_state"

definition plain_esrs :: "('d plain_aggregate, 'd) esrs_ops" where
  "plain_esrs = \<lparr>agg_with_id = (\<lambda>i. \<lparr>pa_id = i, pa_sequence = 0, pa_inner = ledger_default\<rparr>),
     agg_id = pa_id, agg_inner = pa_inner,
     agg_next = (\<lambda>g. (pa_sequence g + 1, g\<lparr>pa_sequence := pa_sequence g + 1\<rparr>)),
     agg_apply = (\<lambda>g events f. res_bind (fold_events f events (pa_inner g)) (\<lambda>s.
        Ok (g\<lparr>pa_sequence := reached_sequence (pa_sequence g) events, pa_inner := s\<rparr>)))\<rparr>"

interpretation plain_esrs: esrs_laws plain_esrs pa_sequence
  by unfold_locales (auto simp: plain_esrs_def)

end
