(* ===== verification/Ledger_Store_Proofs.thy ===== *)
theory Ledger_Store_Proofs
  imports Ledger_Store
begin

text \<open>
  The shape of the ledger's event table that every \<open>persist\<close> keeps, and what loading and
  appending do on a table of that shape.
\<close>

section \<open>Well-formed streams\<close>

definition stream :: "uuid \<Rightarrow> ledger_table \<Rightarrow> ledger_table" where
  "stream i tbl = filter (\<lambda>r. lrow_aggregate_id r = i) tbl"

text \<open>
  Identifiers are unique; each stream is numbered \<open>1, 2, 3, \<dots>\<close> without a gap and belongs to
  one tenant.
\<close>

definition streams_ok :: "ledger_table \<Rightarrow> bool" where
  "streams_ok tbl \<longleftrightarrow> distinct (map lrow_id tbl) \<and>
     (\<forall>i. map lrow_sequence_number (stream i tbl) = [1..int (length (stream i tbl))]) \<and>
     (\<forall>r\<in>set tbl. \<forall>r'\<in>set tbl. lrow_aggregate_id r = lrow_aggregate_id r' \<longrightarrow>
        lrow_tenant_id r = lrow_tenant_id r')"

text \<open>
  A state a tenant can hold: loaded at this table or at an earlier one, so not ahead of the
  stream, and past its start only when the stream is the tenant's.
\<close>

definition admissible :: "uuid \<Rightarrow> int \<Rightarrow> TenantId \<Rightarrow> ledger_table \<Rightarrow> bool" where
  "admissible i n t tbl \<longleftrightarrow> 0 \<le> n \<and> n \<le> int (length (stream i tbl)) \<and>
     (n = 0 \<or> (\<forall>r\<in>set (stream i tbl). lrow_tenant_id r = tenant_as_uuid t))"

definition serde_exact :: "'d pg_codec \<Rightarrow> 'd event_serde \<Rightarrow> 'd ledger_event \<Rightarrow> bool" where
  "serde_exact P Z e \<longleftrightarrow> (\<exists>v. event_to_value Z e = Ok v \<and> event_from_value Z (pg_jsonb P v) = Ok e)"

lemma stream_append [simp]: "stream i (xs @ ys) = stream i xs @ stream i ys"
  by (simp add: stream_def)

lemma stream_single [simp]: "stream i [r] = (if lrow_aggregate_id r = i then [r] else [])"
  by (simp add: stream_def)

lemma streams_ok_Nil [simp]: "streams_ok []"
  by (simp add: streams_ok_def stream_def)

lemma stream_sequences:
  assumes "streams_ok tbl"
  shows "lrow_sequence_number ` set (stream i tbl) = {1..int (length (stream i tbl))}"
proof -
  have "lrow_sequence_number ` set (stream i tbl) = set (map lrow_sequence_number (stream i tbl))" by simp
  also have "\<dots> = {1..int (length (stream i tbl))}"
    using assms unfolding streams_ok_def by (metis set_upto)
  finally show ?thesis .
qed

lemma taken_sequence:
  assumes "streams_ok tbl" "0 \<le> n" "n < int (length (stream i tbl))"
  shows "list_ex (\<lambda>x. lrow_aggregate_id x = i \<and> lrow_sequence_number x = n + 1) tbl"
proof -
  have "n + 1 \<in> lrow_sequence_number ` set (stream i tbl)"
    using assms by (simp add: stream_sequences)
  then show ?thesis by (auto simp: stream_def list_ex_iff)
qed

lemma insert_ledger_Ok:
  "insert_ledger_event r tbl = Ok tbl' \<Longrightarrow> tbl' = tbl @ [r] \<and> lrow_id r \<notin> lrow_id ` set tbl \<and>
     \<not> list_ex (\<lambda>x. lrow_aggregate_id x = lrow_aggregate_id r \<and> lrow_sequence_number x = lrow_sequence_number r) tbl"
  by (auto simp: insert_ledger_event_def list_ex_iff split: if_splits)

lemma insert_keeps_streams:
  assumes "streams_ok tbl" "insert_ledger_event r tbl = Ok tbl'"
    and "admissible (lrow_aggregate_id r) n t tbl" "lrow_sequence_number r = n + 1"
      "lrow_tenant_id r = tenant_as_uuid t"
  shows "n = int (length (stream (lrow_aggregate_id r) tbl)) \<and> streams_ok tbl' \<and>
    admissible (lrow_aggregate_id r) (n + 1) t tbl'"
proof -
  let ?i = "lrow_aggregate_id r"
  from insert_ledger_Ok [OF assms(2)] have t': "tbl' = tbl @ [r]" and i: "lrow_id r \<notin> lrow_id ` set tbl"
    and k: "\<not> list_ex (\<lambda>x. lrow_aggregate_id x = ?i \<and> lrow_sequence_number x = n + 1) tbl"
    using assms(4) by auto
  have n: "n = int (length (stream ?i tbl))"
    using assms(3) taken_sequence [OF assms(1), of n ?i] k by (fastforce simp: admissible_def)
  have own: "lrow_tenant_id x = tenant_as_uuid t" if "x \<in> set tbl" "lrow_aggregate_id x = ?i" for x
    using assms(3) n that by (auto simp: admissible_def stream_def filter_empty_conv)
  have u: "[1..int (length (stream ?i tbl)) + 1] = [1..int (length (stream ?i tbl))] @ [n + 1]"
    using n upto_rec2 [of 1 "n + 1"] by simp
  have seqs: "map lrow_sequence_number (stream j tbl') = [1..int (length (stream j tbl'))]" for j
    using assms(1,4) u by (auto simp: streams_ok_def t' add.commute)
  have tens: "\<forall>a\<in>set tbl'. \<forall>b\<in>set tbl'. lrow_aggregate_id a = lrow_aggregate_id b \<longrightarrow>
      lrow_tenant_id a = lrow_tenant_id b"
    using assms(1,5) own unfolding streams_ok_def t' by (metis Un_iff empty_iff empty_set insert_iff list.simps(15) set_append)
  have dist: "distinct (map lrow_id tbl')"
    using assms(1) i by (simp add: streams_ok_def t' image_iff)
  have "streams_ok tbl'" unfolding streams_ok_def using dist seqs tens by blast
  moreover have "admissible ?i (n + 1) t tbl'"
    using n own assms(5) by (auto simp: admissible_def t' stream_def)
  ultimately show ?thesis using n by simp
qed

section \<open>Appending\<close>

definition row_stores :: "'d pg_codec \<Rightarrow> 'd event_serde \<Rightarrow> TenantId \<Rightarrow> uuid \<Rightarrow> ledger_row \<Rightarrow> 'd ledger_event \<Rightarrow> bool" where
  "row_stores P Z t i r e \<longleftrightarrow> lrow_aggregate_id r = i \<and> lrow_tenant_id r = tenant_as_uuid t \<and>
     (\<exists>v. event_to_value Z e = Ok v \<and> lrow_payload r = pg_jsonb P v)"

context esrs_laws
begin

lemma next_step:
  assumes "seq g < 2 ^ 31 - 1"
  obtains g' where "agg_next E g = (seq g + 1, g')" "seq g' = seq g + 1" "agg_id E g' = agg_id E g"
    "agg_inner E g' = agg_inner E g"
proof -
  obtain n g' where a: "agg_next E g = (n, g')" by (cases "agg_next E g")
  with next_seq [OF assms a] that show ?thesis by auto
qed

lemma persist_one_Ok:
  assumes "seq g < 2 ^ 31 - 1" "persist_one E P Z S t now i n ev g tbl = (Ok (e, tbl'), g')"
  shows "\<exists>r. insert_ledger_event r tbl = Ok tbl' \<and> row_stores P Z t (agg_id E g) r ev \<and>
    lrow_sequence_number r = seq g + 1 \<and> se_payload e = ev \<and> se_sequence_number e = seq g + 1 \<and>
    se_aggregate_id e = agg_id E g \<and> seq g' = seq g + 1 \<and> agg_id E g' = agg_id E g \<and> agg_inner E g' = agg_inner E g"
proof -
  obtain h where h: "agg_next E g = (seq g + 1, h)" "seq h = seq g + 1" "agg_id E h = agg_id E g"
    "agg_inner E h = agg_inner E g" by (rule next_step [OF assms(1)])
  from assms(2) have "h = g'" by (simp add: persist_one_def h(1))
  with assms(2) h show ?thesis
    by (auto simp: persist_one_def Let_def row_stores_def)
qed

lemma persist_one_state:
  assumes "seq g < 2 ^ 31 - 1"
  shows "seq (snd (persist_one E P Z S t now i n ev g tbl)) = seq g + 1"
  by (rule next_step [OF assms]) (simp add: persist_one_def)

text \<open>The rows a successful loop appended, and the state it leaves.\<close>

lemma persist_rows_Ok:
  assumes "persist_rows E P Z S t now fresh n events g stored tbl = (Ok (out, tbl'), g')"
    "streams_ok tbl" "admissible (agg_id E g) (seq g) t tbl" "seq g + int (length events) < 2 ^ 31"
  shows "\<exists>rows news. tbl' = tbl @ rows \<and> out = stored @ news \<and> map se_payload news = events \<and>
    map se_sequence_number news = [seq g + 1..seq g + int (length events)] \<and>
    list_all2 (row_stores P Z t (agg_id E g)) rows events \<and>
    streams_ok tbl' \<and> admissible (agg_id E g) (seq g') t tbl' \<and> seq g' = seq g + int (length events) \<and>
    (events \<noteq> [] \<longrightarrow> seq g = int (length (stream (agg_id E g) tbl)))"
  using assms
proof (induction events arbitrary: n g stored tbl)
  case (Cons ev rest)
  from Cons.prems(4) have b: "seq g < 2 ^ 31 - 1" by simp
  from Cons.prems(1) obtain e tbl1 g1 where one: "persist_one E P Z S t now (fresh n) n ev g tbl = (Ok (e, tbl1), g1)"
    and rest: "persist_rows E P Z S t now fresh (Suc n) rest g1 (stored @ [e]) tbl1 = (Ok (out, tbl'), g')"
    by (auto split: prod.splits res.splits)
  from persist_one_Ok [OF b one] obtain r where r: "insert_ledger_event r tbl = Ok tbl1"
    "row_stores P Z t (agg_id E g) r ev" "lrow_sequence_number r = seq g + 1" "se_payload e = ev"
    "se_sequence_number e = seq g + 1" "seq g1 = seq g + 1" "agg_id E g1 = agg_id E g" by auto
  from r(2) have rid: "lrow_aggregate_id r = agg_id E g" "lrow_tenant_id r = tenant_as_uuid t"
    by (simp_all add: row_stores_def)
  have k: "seq g = int (length (stream (agg_id E g) tbl))" "streams_ok tbl1"
      "admissible (agg_id E g) (seq g + 1) t tbl1"
    using insert_keeps_streams [OF Cons.prems(2) r(1), of "seq g" t, unfolded rid(1)] Cons.prems(3) r(3) rid(2)
    by blast+
  from Cons.prems(4) have b1: "seq g1 + int (length rest) < 2 ^ 31" by (simp add: r(6))
  obtain rows news where i: "tbl' = tbl1 @ rows" "out = (stored @ [e]) @ news" "map se_payload news = rest"
    "map se_sequence_number news = [seq g1 + 1..seq g1 + int (length rest)]"
    "list_all2 (row_stores P Z t (agg_id E g1)) rows rest" "streams_ok tbl'"
    "admissible (agg_id E g1) (seq g') t tbl'" "seq g' = seq g1 + int (length rest)"
    using Cons.IH [OF rest k(2) _ b1] k(3) r(6,7) by auto
  have u: "[seq g + 1..seq g + int (length (ev # rest))] = (seq g + 1) # [seq g1 + 1..seq g1 + int (length rest)]"
    by (subst upto_rec1) (simp_all add: r(6) algebra_simps)
  show ?case
    by (rule exI [of _ "r # rows"], rule exI [of _ "e # news"])
       (use i r k u insert_ledger_Ok [OF r(1)] in \<open>simp_all add: algebra_simps\<close>)
qed simp

lemma persist_Ok:
  assumes "persist E P Z S self now fresh g events tbl = (Ok out, g', tbl')"
    "streams_ok tbl" "admissible (agg_id E g) (seq g) (store_tenant_id self) tbl"
    "seq g + int (length events) < 2 ^ 31"
  shows "\<exists>rows. tbl' = tbl @ rows \<and> map se_payload out = events \<and>
    map se_sequence_number out = [seq g + 1..seq g + int (length events)] \<and>
    list_all2 (row_stores P Z (store_tenant_id self) (agg_id E g)) rows events \<and>
    streams_ok tbl' \<and> admissible (agg_id E g) (seq g') (store_tenant_id self) tbl' \<and>
    seq g' = seq g + int (length events) \<and>
    (events \<noteq> [] \<longrightarrow> seq g = int (length (stream (agg_id E g) tbl)))"
proof -
  let ?t = "store_tenant_id self"
  from assms(1) have tx: "persist_tx E P Z S self now fresh g events tbl = (Ok (out, tbl'), g')"
    by (auto simp: persist_def split: prod.splits res.splits)
  then obtain t where t: "begin_tenant_tx S (pg_uuid_show P) ?t = Ok t"
    by (auto simp: persist_tx_def split: res.splits prod.splits)
  then have [simp]: "t = ?t" by (auto dest: begin_tenant_tx_Ok)
  from tx t have "persist_rows E P Z S ?t now fresh 0 events g [] tbl = (Ok (out, tbl'), g')"
    by (auto simp: persist_tx_def split: prod.splits)
  from persist_rows_Ok [OF this assms(2-4)] show ?thesis by auto
qed

text \<open>A state behind its stream cannot append.\<close>

lemma stale_append:
  assumes "streams_ok tbl" "0 \<le> seq g" "seq g < int (length (stream (agg_id E g) tbl))" "seq g < 2 ^ 31 - 1"
    "events \<noteq> []" "event_to_value Z (hd events) = Ok v" "healthy S"
  shows "\<exists>g'. persist E P Z S self now fresh g events tbl =
    (Err (ConcurrencyConflict (agg_id E g) (seq g + 1)), g', tbl)"
proof -
  obtain ev rest where e: "events = ev # rest" using assms(5) by (cases events) auto
  obtain h where h: "agg_next E g = (seq g + 1, h)" by (rule next_step [OF assms(4)])
  have c: "list_ex (\<lambda>x. lrow_aggregate_id x = agg_id E g \<and> lrow_sequence_number x = seq g + 1) tbl"
    by (rule taken_sequence [OF assms(1-3)])
  then have "insert_ledger_event r tbl = Err UniqueViolation"
    if "lrow_aggregate_id r = agg_id E g" "lrow_sequence_number r = seq g + 1" for r
    using assms(2) that by (simp add: insert_ledger_event_def)
  then have "persist_one E P Z S t now i n ev g tbl = (Err (ConcurrencyConflict (agg_id E g) (seq g + 1)), h)"
    for t i n
    using assms(6,7) e by (simp add: persist_one_def h Let_def healthy_def)
  then show ?thesis using assms(7) by (simp add: persist_def persist_tx_def e)
qed

text \<open>A state that has caught up with its stream can append: nothing holds its numbers.\<close>

lemma persist_rows_current:
  assumes "streams_ok tbl" "seq g = int (length (stream (agg_id E g) tbl))" "admissible (agg_id E g) (seq g) t tbl"
    "seq g + int (length events) < 2 ^ 31" "\<forall>e\<in>set events. \<exists>v. event_to_value Z e = Ok v" "healthy S"
    "inj_on fresh {n..<n + length events}" "\<forall>m\<in>{n..<n + length events}. fresh m \<notin> lrow_id ` set tbl"
  shows "\<exists>out tbl' g'. persist_rows E P Z S t now fresh n events g stored tbl = (Ok (out, tbl'), g')"
  using assms
proof (induction events arbitrary: n g stored tbl)
  case (Cons ev rest)
  let ?i = "agg_id E g"
  have b: "seq g < 2 ^ 31 - 1" using Cons.prems(4) by simp
  obtain h where h: "agg_next E g = (seq g + 1, h)" "seq h = seq g + 1" "agg_id E h = ?i" by (rule next_step [OF b])
  obtain v where v: "event_to_value Z ev = Ok v" using Cons.prems(5) by auto
  define r where "r = \<lparr>lrow_id = fresh n, lrow_aggregate_id = ?i, lrow_tenant_id = tenant_as_uuid t,
    lrow_payload = pg_jsonb P v, lrow_occurred_on = pg_timestamptz P now, lrow_sequence_number = seq g + 1,
    lrow_version = None\<rparr>"
  have "seq g + 1 \<notin> lrow_sequence_number ` set (stream ?i tbl)"
    using Cons.prems(2) by (simp add: stream_sequences [OF Cons.prems(1)])
  then have "\<not> list_ex (\<lambda>x. lrow_aggregate_id x = ?i \<and> lrow_sequence_number x = seq g + 1) tbl"
    by (auto simp: stream_def list_ex_iff image_iff)
  moreover have "\<not> list_ex (\<lambda>x. lrow_id x = fresh n) tbl"
    using bspec [OF Cons.prems(8), of n] by (auto simp: list_ex_iff image_iff)
  ultimately have ins: "insert_ledger_event r tbl = Ok (tbl @ [r])"
    using Cons.prems(2) by (simp add: insert_ledger_event_def r_def)
  then obtain e where one: "persist_one E P Z S t now (fresh n) n ev g tbl = (Ok (e, tbl @ [r]), h)"
    using v Cons.prems(6) by (simp add: persist_one_def h(1) Let_def healthy_def r_def)
  have f: "lrow_aggregate_id r = ?i" "lrow_sequence_number r = seq g + 1" "lrow_tenant_id r = tenant_as_uuid t"
    "lrow_id r = fresh n" by (simp_all add: r_def)
  have k: "streams_ok (tbl @ [r])" "admissible ?i (seq g + 1) t (tbl @ [r])"
    using insert_keeps_streams [OF Cons.prems(1) ins _ f(2,3), unfolded f(1)] Cons.prems(3) by blast+
  have nr: "fresh m \<noteq> fresh n" if "m \<in> {Suc n..<Suc n + length rest}" for m
    using inj_onD [OF Cons.prems(7), of m n] that by auto
  have "\<exists>out tbl' g'. persist_rows E P Z S t now fresh (Suc n) rest h (stored @ [e]) (tbl @ [r]) = (Ok (out, tbl'), g')"
  proof (rule Cons.IH [OF k(1)])
    show "seq h = int (length (stream (agg_id E h) (tbl @ [r])))" using h Cons.prems(2) f(1) by simp
    show "admissible (agg_id E h) (seq h) t (tbl @ [r])" using h k(2) by simp
    show "inj_on fresh {Suc n..<Suc n + length rest}" by (rule inj_on_subset [OF Cons.prems(7)]) auto
    show "\<forall>m\<in>{Suc n..<Suc n + length rest}. fresh m \<notin> lrow_id ` set (tbl @ [r])"
      using Cons.prems(8) nr f(4) by auto
  qed (use h Cons.prems(4-6) in auto)
  then show ?case by (simp add: one)
qed simp

end

section \<open>Loading\<close>

lemma sort_by_sorted: "sorted_wrt le xs \<Longrightarrow> sort_by le xs = xs"
proof (induction xs)
  case (Cons x xs)
  then have "sort_by le (x # xs) = insert_by le x xs" by (simp add: sort_by_def)
  also have "\<dots> = x # xs" using Cons.prems by (cases xs) simp_all
  finally show ?case .
qed (simp add: sort_by_def)

lemma stream_sorted:
  assumes "streams_ok tbl"
  shows "sorted_wrt (\<lambda>a b. lrow_sequence_number a \<le> lrow_sequence_number b) (stream i tbl)"
proof -
  have "sorted (map lrow_sequence_number (stream i tbl))"
    using assms unfolding streams_ok_def by (metis sorted_upto)
  then show ?thesis by (simp add: sorted_map)
qed

text \<open>What a tenant reads of a stream: all of it, or nothing when it is another tenant's.\<close>

definition owned :: "TenantId \<Rightarrow> uuid \<Rightarrow> ledger_table \<Rightarrow> bool" where
  "owned t i tbl \<longleftrightarrow> (\<forall>r\<in>set (stream i tbl). lrow_tenant_id r = tenant_as_uuid t)"

lemma visible_stream:
  assumes "streams_ok tbl"
  shows "filter (\<lambda>r. lrow_aggregate_id r = i) (ledger_visible t tbl) = (if owned t i tbl then stream i tbl else [])"
proof -
  have e: "filter (\<lambda>r. lrow_aggregate_id r = i) (ledger_visible t tbl) =
      filter (\<lambda>r. lrow_tenant_id r = tenant_as_uuid t) (stream i tbl)"
    by (simp add: ledger_visible_def stream_def conj_commute)
  show ?thesis
  proof (cases "owned t i tbl")
    case False
    then obtain r where "r \<in> set (stream i tbl)" "lrow_tenant_id r \<noteq> tenant_as_uuid t" by (auto simp: owned_def)
    then have "\<forall>x\<in>set (stream i tbl). lrow_tenant_id x \<noteq> tenant_as_uuid t"
      using assms by (fastforce simp: streams_ok_def stream_def)
    then show ?thesis using False by (simp add: e filter_empty_conv)
  qed (auto simp: e owned_def)
qed

lemma by_aggregate_id_Ok:
  assumes "streams_ok tbl" "by_aggregate_id P Z S tbl self i = Ok events"
  shows "list_all2 (\<lambda>r e. decode_ledger_row Z r = Ok e)
    (if owned (store_tenant_id self) i tbl then stream i tbl else []) events"
proof -
  from assms(2) obtain t where "begin_tenant_tx S (pg_uuid_show P) (store_tenant_id self) = Ok t"
    by (auto simp: by_aggregate_id_def Let_def)
  then have "t = store_tenant_id self" by (auto dest: begin_tenant_tx_Ok)
  with assms show ?thesis
    by (auto simp: by_aggregate_id_def Let_def visible_stream res_mapM_eq_Ok stream_sorted sort_by_sorted
        dest!: begin_tenant_tx_Ok split: if_splits)
qed

lemma by_aggregate_id_healthy:
  assumes "streams_ok tbl" "healthy S" "list_all2 (\<lambda>r e. decode_ledger_row Z r = Ok e)
    (if owned (store_tenant_id self) i tbl then stream i tbl else []) events"
  shows "by_aggregate_id P Z S tbl self i = Ok events"
proof -
  have "sort_by (\<lambda>a b. lrow_sequence_number a \<le> lrow_sequence_number b)
      (if owned (store_tenant_id self) i tbl then stream i tbl else []) =
      (if owned (store_tenant_id self) i tbl then stream i tbl else [])"
    by (rule sort_by_sorted) (simp add: stream_sorted [OF assms(1)])
  then have "by_aggregate_id P Z S tbl self i = res_mapM (decode_ledger_row Z)
      (if owned (store_tenant_id self) i tbl then stream i tbl else [])"
    using assms(2) begin_healthy [OF assms(2)]
    by (simp add: by_aggregate_id_def visible_stream [OF assms(1)] healthy_def Let_def del: begin_healthy)
  with assms(3) show ?thesis by (simp add: res_mapM_eq_Ok)
qed

lemma decoded_sequences:
  "list_all2 (\<lambda>r e. decode_ledger_row Z r = Ok e) rows events \<Longrightarrow>
   map se_sequence_number events = map lrow_sequence_number rows"
  by (induction rule: list_all2_induct) (auto simp: decode_ledger_row_def)

lemma reached_upto:
  assumes "map se_sequence_number events = [1..int n]" "length events = n"
  shows "reached_sequence 0 events = int n"
proof (cases "events = []")
  case False
  then have "se_sequence_number (last events) = last (map se_sequence_number events)" by (simp add: last_map)
  also have "\<dots> = int n" using False assms by (subst assms(1), subst upto_rec2) (auto simp: Suc_le_eq)
  finally show ?thesis using False by (simp add: reached_sequence_def)
qed (use assms in \<open>simp add: reached_sequence_def\<close>)

context esrs_laws
begin

lemma load_Ok:
  assumes "streams_ok tbl" "load D E P Z S tbl self i = Ok g"
  defines "rows \<equiv> if owned (store_tenant_id self) i tbl then stream i tbl else []"
  shows "\<exists>events. list_all2 (\<lambda>r e. decode_ledger_row Z r = Ok e) rows events \<and>
    fold_events (apply_event D) events ledger_default = (Ok (agg_inner E g) :: (ledger_store_error, _) res) \<and>
    agg_id E g = i \<and> seq g = int (length rows) \<and> admissible i (seq g) (store_tenant_id self) tbl"
proof -
  from assms(2) obtain events where ev: "by_aggregate_id P Z S tbl self i = Ok events"
    and ap: "agg_apply E (agg_with_id E i) events (apply_event D) = Ok g" by (auto simp: load_def)
  have l: "list_all2 (\<lambda>r e. decode_ledger_row Z r = Ok e) rows events"
    unfolding rows_def by (rule by_aggregate_id_Ok [OF assms(1) ev])
  have s: "map se_sequence_number events = [1..int (length rows)]" "length events = length rows"
    using decoded_sequences [OF l] list_all2_lengthD [OF l] assms(1)
    by (auto simp: rows_def streams_ok_def)
  have r: "reached_sequence 0 events = int (length rows)" by (rule reached_upto [OF s])
  have ne: "fold_events (apply_event D) events ledger_default \<noteq> Err x" for x :: ledger_store_error
  proof -
    have "res_fold (\<lambda>e st. apply_event D st (se_payload e)) evs st \<noteq> Err x" for evs st
      by (induction evs arbitrary: st) auto
    then show ?thesis by (simp add: fold_events_def)
  qed
  have f: "fold_events (apply_event D) events ledger_default = (Ok (agg_inner E g) :: (ledger_store_error, _) res) \<and>
      agg_id E g = i \<and> seq g = int (length rows)"
  proof (cases "fold_events (apply_event D) events ledger_default :: (ledger_store_error, _) res")
    case (Ok s)
    then show ?thesis using apply_ok [of "apply_event D" events "agg_with_id E i" s] ap r
      by (auto simp: with_id)
  next
    case Panic
    then show ?thesis using apply_panic [of "apply_event D" events "agg_with_id E i"] ap by (simp add: with_id)
  qed (use ne in simp)
  have "admissible i (seq g) (store_tenant_id self) tbl"
    using f by (auto simp: admissible_def rows_def owned_def)
  with l f show ?thesis by auto
qed

end

end
