(* ===== verification/Ledger_Store_Properties.thy ===== *)
theory Ledger_Store_Properties
  imports Ledger_Store_Proofs Ledger_Example Cost_Store_Properties
begin

text \<open>
  Properties of the ledger's event store, with their witnesses: two events of the example
  ledger persisted to an empty table, by the tenant's store and by a second one.
\<close>

section \<open>Example data\<close>

text \<open>A \<open>serde\<close> for the events of a given list: an event is encoded by its position.\<close>

definition position_serde :: "'d ledger_event list \<Rightarrow> 'd event_serde" where
  "position_serde evs =
     \<lparr>event_to_value = (\<lambda>e. if e \<in> set evs then Ok (JArray (replicate (length (takeWhile (\<lambda>x. x \<noteq> e) evs)) JNull))
        else Err ''unknown event''),
      event_from_value = (\<lambda>v. case v of JArray vs \<Rightarrow> if length vs < length evs then Ok (evs ! length vs)
        else Err ''unknown position'' | _ \<Rightarrow> Err ''not an array'')\<rparr>"

definition bill_posted :: "refdec ledger_event" where
  "bill_posted = JournalEntryPosted (EntryId 10) gpu_bill no_dims 0"

definition bill_reversed :: "refdec ledger_event" where
  "bill_reversed = EntryReversed (EntryId 10) (EntryId 11) ''void''"

definition demo_serde :: "refdec event_serde" where
  "demo_serde = position_serde [bill_posted, bill_reversed]"

definition demo_fresh :: "nat \<Rightarrow> nat \<Rightarrow> uuid" where "demo_fresh k n = of_nat (100 * k + n)"

definition demo_self :: ledger_store where "demo_self = ledger_for_tenant (TenantId 1)"
definition other_self :: ledger_store where "other_self = ledger_for_tenant (TenantId 2)"

definition bill_row :: ledger_row where
  "bill_row = \<lparr>lrow_id = 100, lrow_aggregate_id = 9, lrow_tenant_id = 1, lrow_payload = JArray [],
     lrow_occurred_on = 5, lrow_sequence_number = 1, lrow_version = None\<rparr>"

definition agg0 :: "refdec plain_aggregate" where
  "agg0 = \<lparr>pa_id = 9, pa_sequence = 0, pa_inner = ledger_default\<rparr>"

definition agg1 :: "refdec plain_aggregate" where
  "agg1 = \<lparr>pa_id = 9, pa_sequence = 1, pa_inner = after_post\<rparr>"

lemma bill_events_distinct [simp]: "bill_posted \<noteq> bill_reversed" "bill_reversed \<noteq> bill_posted"
  by (simp_all add: bill_posted_def bill_reversed_def)

lemma demo_serde_simps [simp]:
  "event_to_value demo_serde bill_posted = Ok (JArray [])"
  "event_to_value demo_serde bill_reversed = Ok (JArray [JNull])"
  "event_from_value demo_serde (JArray []) = Ok bill_posted"
  "event_from_value demo_serde (JArray [JNull]) = Ok bill_reversed"
  by (simp_all add: demo_serde_def position_serde_def)

lemma demo_serde_exact: "serde_exact plain_codec demo_serde bill_posted"
    "serde_exact plain_codec demo_serde bill_reversed"
  by (simp_all add: serde_exact_def plain_codec_def)

lemma demo_begin [simp]: "begin_tenant_tx good_session sh t = Ok t" "pg_stmt_fault good_session n = None"
    "pg_commit_fault good_session = None"
  using good_session_healthy by (simp_all add: good_session_def)

lemma demo_selves [simp]: "store_tenant_id demo_self = TenantId 1" "store_tenant_id other_self = TenantId 2"
  by (simp_all add: demo_self_def other_self_def ledger_for_tenant_def ledger_store_new_def)

lemma apply_bill [simp]: "apply_event ref_ops ledger_default bill_posted = Ok after_post"
    "apply_event ref_ops after_post bill_reversed = Ok after_reversal"
  by (simp_all add: bill_posted_def bill_reversed_def post_gpu_bill reverse_gpu_bill del: apply_event.simps(2))

lemma demo_load_empty: "load ref_ops plain_esrs plain_codec demo_serde good_session [] self 9 = Ok agg0"
  by (simp add: load_def by_aggregate_id_def ledger_visible_def sort_by_def fold_events_def reached_sequence_def
      plain_esrs_def agg0_def)

lemma demo_load: "load ref_ops plain_esrs plain_codec demo_serde good_session [bill_row] demo_self 9 = Ok agg1"
  by (simp add: load_def by_aggregate_id_def ledger_visible_def sort_by_def fold_events_def reached_sequence_def
      plain_esrs_def agg1_def bill_row_def decode_ledger_row_def)

lemma demo_persist:
  "\<exists>stored g'. persist plain_esrs plain_codec demo_serde good_session demo_self 5 (demo_fresh 1) agg0 [bill_posted] [] =
     (Ok stored, g', [bill_row])"
  by (simp add: persist_def persist_tx_def persist_one_def insert_ledger_event_def plain_esrs_def agg0_def
      bill_row_def plain_codec_def demo_fresh_def)

lemma demo_persist_reversal:
  "\<exists>stored g' tbl'. persist plain_esrs plain_codec demo_serde good_session demo_self 6 (demo_fresh 2) agg1
     [bill_reversed] [bill_row] = (Ok stored, g', tbl')"
  by (simp add: persist_def persist_tx_def persist_one_def insert_ledger_event_def plain_esrs_def agg1_def
      bill_row_def plain_codec_def demo_fresh_def)

lemma demo_streams_ok: "streams_ok [bill_row]"
  by (simp add: streams_ok_def stream_def bill_row_def)

lemmas plain_laws = plain_esrs.esrs_laws_axioms

section \<open>Properties\<close>

text \<open>
  C20: the log only grows, by whole batches. Appending through a state loaded at this table
  or at an earlier one keeps every stream numbered without a gap and within one tenant; a
  success appends one row per event under the next sequence numbers; any failure leaves the
  table as it was.
\<close>

theorem persist_append_only:
  assumes "esrs_laws E seq" "streams_ok tbl0" "streams_ok (tbl0 @ later)"
    "load D E P Z S0 tbl0 self i = Ok g" "seq g + int (length events) < 2 ^ 31"
    "persist E P Z S self now fresh g events (tbl0 @ later) = (res, g', tbl')"
  shows "streams_ok tbl' \<and> (case res of
      Ok stored \<Rightarrow> (\<exists>rows. tbl' = tbl0 @ later @ rows \<and> length rows = length events) \<and>
        map se_payload stored = events \<and>
        map se_sequence_number stored = [seq g + 1..seq g + int (length events)]
    | _ \<Rightarrow> tbl' = tbl0 @ later)"
proof (cases res)
  case (Ok stored)
  obtain k where k: "agg_id E g = i" "admissible i (seq g) (store_tenant_id self) tbl0"
    using esrs_laws.load_Ok [OF assms(1,2,4)] by blast
  have "admissible i (seq g) (store_tenant_id self) (tbl0 @ later)"
  proof (cases "seq g = 0")
    case False
    with k(2) have own: "\<forall>r\<in>set (stream i tbl0). lrow_tenant_id r = tenant_as_uuid (store_tenant_id self)"
      and "stream i tbl0 \<noteq> []" by (auto simp: admissible_def)
    then obtain r where "r \<in> set tbl0" "lrow_aggregate_id r = i" by (auto simp: stream_def filter_empty_conv)
    with own assms(3) have "lrow_tenant_id x = tenant_as_uuid (store_tenant_id self)"
      if "x \<in> set (stream i (tbl0 @ later))" for x
      using that unfolding streams_ok_def stream_def by (auto 0 3)
    with k(2) show ?thesis by (auto simp: admissible_def)
  qed (use k in \<open>simp add: admissible_def\<close>)
  from esrs_laws.persist_Ok [OF assms(1) assms(6) [unfolded Ok] assms(3)] this k(1) assms(5)
  show ?thesis by (auto simp: Ok dest: list_all2_lengthD)
qed (use assms(3,6) in \<open>auto simp: persist_def split: prod.splits res.splits\<close>)

theorem persist_append_only_witness:
  "\<exists>stored g'. persist plain_esrs plain_codec demo_serde good_session demo_self 5 (demo_fresh 1) agg0 [bill_posted] [] =
     (Ok stored, g', [bill_row]) \<and> streams_ok [bill_row] \<and> map se_sequence_number stored = [1]"
proof -
  obtain stored g' where p: "persist plain_esrs plain_codec demo_serde good_session demo_self 5 (demo_fresh 1) agg0
      [bill_posted] [] = (Ok stored, g', [bill_row])" using demo_persist by blast
  from persist_append_only [OF plain_laws streams_ok_Nil, of "[]" ref_ops plain_codec demo_serde good_session demo_self 9
      agg0 "[bill_posted]"] demo_load_empty p
  show ?thesis by (fastforce simp: agg0_def)
qed

lemma stored_stream:
  "list_all2 (row_stores P Z t i) rows events \<Longrightarrow>
   stream i rows = rows \<and> (\<forall>r\<in>set rows. lrow_tenant_id r = tenant_as_uuid t)"
  by (induction rows events rule: list_all2_induct) (auto simp: stream_def row_stores_def)

lemma decoded_back:
  assumes "list_all2 (row_stores P Z t i) rows events" "\<forall>e\<in>set events. serde_exact P Z e"
  shows "\<exists>news. list_all2 (\<lambda>r e. decode_ledger_row Z r = Ok e) rows news \<and> map se_payload news = events"
  using assms
proof (induction rows events rule: list_all2_induct)
  case (Cons r rs e es)
  then obtain n where n: "list_all2 (\<lambda>r e. decode_ledger_row Z r = Ok e) rs n" "map se_payload n = es" by auto
  from Cons.hyps(1) Cons.prems obtain x where "decode_ledger_row Z r = Ok x" "se_payload x = e"
    by (auto simp: row_stores_def serde_exact_def decode_ledger_row_def)
  with n show ?case by (intro exI [of _ "x # n"]) simp
qed simp

lemma fold_events_payloads: "fold_events f ns st = res_fold (\<lambda>e st. f st e) (map se_payload ns) st"
  unfolding fold_events_def by (induction ns arbitrary: st) (simp_all, metis res_bind.simps res.exhaust)

text \<open>
  The stream a successful append leaves: the events read before, which fold to the state
  loaded, followed by the appended ones.
\<close>

lemma appended_stream:
  assumes "esrs_laws E seq" "streams_ok tbl" "load D E P Z S tbl self i = Ok g"
    "persist E P Z S' self now fresh g events tbl = (Ok stored, g', tbl')"
    "\<forall>e\<in>set events. serde_exact P Z e" "seq g + int (length events) < 2 ^ 31"
  obtains evs news where "streams_ok tbl'" "map se_payload news = events" "map se_payload stored = events"
    "list_all2 (\<lambda>r e. decode_ledger_row Z r = Ok e)
       (if owned (store_tenant_id self) i tbl' then stream i tbl' else []) (evs @ news)"
    "fold_events (apply_event D) evs ledger_default = (Ok (agg_inner E g) :: (ledger_store_error, 'd ledger_state) res)"
    "seq g = int (length evs)"
proof -
  let ?t = "store_tenant_id self"
  let ?dec = "\<lambda>r e. decode_ledger_row Z r = Ok e"
  let ?rows = "\<lambda>tbl. if owned ?t i tbl then stream i tbl else []"
  obtain evs where l: "list_all2 ?dec (?rows tbl) evs"
      "fold_events (apply_event D) evs ledger_default = (Ok (agg_inner E g) :: (ledger_store_error, _) res)"
      "agg_id E g = i" "seq g = int (length (?rows tbl))" "admissible i (seq g) ?t tbl"
    using esrs_laws.load_Ok [OF assms(1-3)] by blast
  obtain rows where p: "tbl' = tbl @ rows" "map se_payload stored = events" "streams_ok tbl'"
      "list_all2 (row_stores P Z ?t i) rows events"
      "events \<noteq> [] \<longrightarrow> seq g = int (length (stream i tbl))"
    using esrs_laws.persist_Ok [OF assms(1,4,2)] l(3,5) assms(6) by auto
  note st = stored_stream [OF p(4)]
  have vis: "?rows tbl' = ?rows tbl @ rows"
  proof (cases "events = []")
    case True
    then show ?thesis using p by simp
  next
    case False
    then have "owned ?t i tbl" using p(5) l(4) by (auto simp: owned_def split: if_splits)
    then show ?thesis using st by (auto simp: p(1) owned_def)
  qed
  obtain news where news: "list_all2 ?dec rows news" "map se_payload news = events"
    using decoded_back [OF p(4) assms(5)] by blast
  have both: "list_all2 ?dec (?rows tbl') (evs @ news)"
    unfolding vis by (rule list_all2_appendI [OF l(1) news(1)])
  from that [OF p(3) news(2) p(2) both l(2)] l(1,4) show ?thesis by (simp add: list_all2_lengthD)
qed

text \<open>
  C18: reloading after an append gives the state one would have by applying the appended
  events to the state loaded before: the ledger is the fold of its log.
\<close>

theorem load_after_persist:
  assumes "esrs_laws E seq" "streams_ok tbl" "load D E P Z S tbl self i = Ok g"
    "persist E P Z S' self now fresh g events tbl = (Ok stored, g', tbl')"
    "\<forall>e\<in>set events. serde_exact P Z e" "seq g + int (length events) < 2 ^ 31" "healthy S''"
    "replay_from D (agg_inner E g) events = (Ok s :: (ledger_store_error, 'd ledger_state) res)"
  shows "\<exists>g''. load D E P Z S'' tbl' self i = Ok g'' \<and> agg_inner E g'' = s \<and>
    seq g'' = seq g + int (length events) \<and> map se_payload stored = events"
proof -
  obtain evs news where a: "streams_ok tbl'" "map se_payload news = events" "map se_payload stored = events"
    "list_all2 (\<lambda>r e. decode_ledger_row Z r = Ok e)
       (if owned (store_tenant_id self) i tbl' then stream i tbl' else []) (evs @ news)"
    "fold_events (apply_event D) evs ledger_default = (Ok (agg_inner E g) :: (ledger_store_error, _) res)"
    "seq g = int (length evs)"
    using appended_stream [OF assms(1-6)] .
  have b: "by_aggregate_id P Z S'' tbl' self i = Ok (evs @ news)"
    by (rule by_aggregate_id_healthy [OF a(1) assms(7) a(4)])
  have "fold_events (apply_event D) (evs @ news) ledger_default = (Ok s :: (ledger_store_error, _) res)"
    using a(5) assms(8) by (simp add: fold_events_payloads res_fold_append replay_from_def a(2))
  then obtain g'' where g'': "agg_apply E (agg_with_id E i) (evs @ news) (apply_event D) = Ok g''" "agg_inner E g'' = s"
    using esrs_laws.apply_ok [OF assms(1), of "apply_event D" "evs @ news" "agg_with_id E i" s]
      esrs_laws.with_id [OF assms(1)] by auto
  then have ld: "load D E P Z S'' tbl' self i = Ok g''" by (simp add: load_def b)
  have "seq g'' = int (length (evs @ news))"
    using esrs_laws.load_Ok [OF assms(1) a(1) ld] list_all2_lengthD [OF a(4)] by (auto simp del: length_append)
  with ld g''(2) a(3,6) show ?thesis by (auto simp: a(2) [symmetric])
qed

theorem load_after_persist_witness:
  "\<exists>stored g' tbl' g''. persist plain_esrs plain_codec demo_serde good_session demo_self 6 (demo_fresh 2) agg1
       [bill_reversed] [bill_row] = (Ok stored, g', tbl') \<and>
     load ref_ops plain_esrs plain_codec demo_serde good_session tbl' demo_self 9 = Ok g'' \<and>
     pa_inner g'' = after_reversal"
proof -
  obtain stored g' tbl' where p: "persist plain_esrs plain_codec demo_serde good_session demo_self 6 (demo_fresh 2) agg1
      [bill_reversed] [bill_row] = (Ok stored, g', tbl')" using demo_persist_reversal by blast
  have i: "agg_inner plain_esrs g = pa_inner g" for g :: "refdec plain_aggregate" by (simp add: plain_esrs_def)
  have "replay_from ref_ops (agg_inner plain_esrs agg1) [bill_reversed] = Ok after_reversal"
    by (simp add: i agg1_def replay_from_def)
  from load_after_persist [OF plain_laws demo_streams_ok demo_load p _ _ good_session_healthy this]
  show ?thesis using p by (auto simp: demo_serde_exact agg1_def i)
qed

text \<open>
  C19: no lost update. Of two writers that loaded the same stream, the one that appends second
  is refused with a concurrency conflict at the sequence number it wanted, and leaves the
  first one's table untouched.
\<close>

theorem second_writer_conflicts:
  assumes "esrs_laws E seq" "streams_ok tbl" "load D E P Z S1 tbl self1 i = Ok g1"
    "load D E P Z S2 tbl self2 i = Ok g2"
    "persist E P Z S self1 now fresh g1 events1 tbl = (Ok stored, g1', tbl1)" "events1 \<noteq> []"
    "seq g1 + int (length events1) < 2 ^ 31"
    "events2 \<noteq> []" "event_to_value Z (hd events2) = Ok v" "healthy S'"
  shows "\<exists>g2'. persist E P Z S' self2 now' fresh' g2 events2 tbl1 =
    (Err (ConcurrencyConflict i (seq g2 + 1)), g2', tbl1)"
proof -
  have l1: "agg_id E g1 = i" "admissible i (seq g1) (store_tenant_id self1) tbl"
    using esrs_laws.load_Ok [OF assms(1-3)] by blast+
  have l2: "agg_id E g2 = i" "admissible i (seq g2) (store_tenant_id self2) tbl"
    using esrs_laws.load_Ok [OF assms(1,2,4)] by blast+
  obtain rows where p: "tbl1 = tbl @ rows" "list_all2 (row_stores P Z (store_tenant_id self1) i) rows events1"
      "streams_ok tbl1" "seq g1 = int (length (stream i tbl))"
    using esrs_laws.persist_Ok [OF assms(1,5,2)] l1 assms(6,7) by auto
  have "stream i rows = rows" using p(2)
    by (induction rows events1 rule: list_all2_induct) (auto simp: stream_def row_stores_def)
  then have "length (stream i tbl) < length (stream i tbl1)"
    using p(2) assms(6) by (auto simp: p(1) dest: list_all2_lengthD)
  moreover have "0 \<le> seq g2" "seq g2 \<le> int (length (stream i tbl))" using l2(2) by (simp_all add: admissible_def)
  moreover have "1 \<le> int (length events1)" using assms(6) by (cases events1) auto
  ultimately show ?thesis
    using esrs_laws.stale_append [OF assms(1) p(3), of g2 events2 Z v S' P self2 now' fresh'] assms(7-10) p(4) l2(1)
    by auto
qed

theorem second_writer_conflicts_witness:
  "\<exists>g2'. persist plain_esrs plain_codec demo_serde good_session demo_self 7 (demo_fresh 3) agg0 [bill_reversed] [bill_row] =
     (Err (ConcurrencyConflict 9 1), g2', [bill_row])"
proof -
  obtain stored g' where p: "persist plain_esrs plain_codec demo_serde good_session demo_self 5 (demo_fresh 1) agg0
      [bill_posted] [] = (Ok stored, g', [bill_row])" using demo_persist by blast
  from second_writer_conflicts [OF plain_laws streams_ok_Nil demo_load_empty demo_load_empty p, of "[bill_reversed]"]
  show ?thesis by (simp add: agg0_def)
qed

text \<open>
  C33: reloading and retrying works. Whatever was appended to its stream in between, a tenant
  that loads the stream again reads all of it and can append: if no other writer comes
  first, the identifiers drawn are new and the events serialize, the append succeeds.
\<close>

theorem reload_and_retry_succeeds:
  assumes "esrs_laws E seq" "streams_ok tbl" "owned (store_tenant_id self) i tbl" "healthy S" "healthy S'"
    "list_all2 (\<lambda>r e. decode_ledger_row Z r = Ok e) (stream i tbl) stored"
    "fold_events (apply_event D) stored ledger_default = (Ok s :: (ledger_store_error, 'd ledger_state) res)"
    "\<forall>e\<in>set events. \<exists>v. event_to_value Z e = Ok v" "int (length (stream i tbl)) + int (length events) < 2 ^ 31"
    "inj_on fresh {..<length events}" "\<forall>n<length events. fresh n \<notin> lrow_id ` set tbl"
  shows "\<exists>g out g' tbl'. load D E P Z S tbl self i = Ok g \<and> agg_inner E g = s \<and>
    persist E P Z S' self now fresh g events tbl = (Ok out, g', tbl')"
proof -
  have b: "by_aggregate_id P Z S tbl self i = Ok stored"
    by (rule by_aggregate_id_healthy [OF assms(2,4)]) (simp add: assms(3,6))
  obtain g where g: "agg_apply E (agg_with_id E i) stored (apply_event D) = Ok g" "agg_inner E g = s"
    using esrs_laws.apply_ok [OF assms(1), of "apply_event D" stored "agg_with_id E i" s] assms(7)
      esrs_laws.with_id [OF assms(1)] by auto
  then have l: "load D E P Z S tbl self i = Ok g" by (simp add: load_def b)
  have q: "agg_id E g = i" "seq g = int (length (stream i tbl))" "admissible i (seq g) (store_tenant_id self) tbl"
    using esrs_laws.load_Ok [OF assms(1,2) l] assms(3) by auto
  have "\<exists>out tbl' g'. persist_rows E P Z S' (store_tenant_id self) now fresh 0 events g [] tbl = (Ok (out, tbl'), g')"
    by (rule esrs_laws.persist_rows_current [OF assms(1,2)])
      (use q assms(5,8-11) in \<open>auto simp: atLeast0LessThan\<close>)
  then have "\<exists>out g' tbl'. persist E P Z S' self now fresh g events tbl = (Ok out, g', tbl')"
    using assms(5) begin_healthy [OF assms(5)] by (auto simp: persist_def persist_tx_def healthy_def)
  with l g(2) show ?thesis by blast
qed

theorem reload_and_retry_succeeds_witness:
  "\<exists>g out g' tbl'. load ref_ops plain_esrs plain_codec demo_serde good_session [bill_row] demo_self 9 = Ok g \<and>
     agg_inner plain_esrs g = after_post \<and>
     persist plain_esrs plain_codec demo_serde good_session demo_self 6 (demo_fresh 2) g [bill_reversed] [bill_row] =
       (Ok out, g', tbl')"
proof -
  have o: "owned (store_tenant_id demo_self) 9 [bill_row]" by (simp add: owned_def bill_row_def)
  obtain e where e: "decode_ledger_row demo_serde bill_row = Ok e" "se_payload e = bill_posted"
    by (simp add: decode_ledger_row_def bill_row_def)
  then have l: "list_all2 (\<lambda>r e. decode_ledger_row demo_serde r = Ok e) (stream 9 [bill_row]) [e]"
    by (simp add: stream_def bill_row_def)
  have f: "fold_events (apply_event ref_ops) [e] ledger_default = Ok after_post" by (simp add: fold_events_def e(2))
  have n: "\<forall>n<length [bill_reversed]. demo_fresh 2 n \<notin> lrow_id ` set [bill_row]"
    by (simp add: demo_fresh_def bill_row_def)
  show ?thesis
    by (rule reload_and_retry_succeeds [OF plain_laws demo_streams_ok o good_session_healthy good_session_healthy l f _ _ _ n])
      (simp_all add: stream_def lessThan_Suc)
qed

text \<open>
  A stream that another tenant owns. A tenant that loads it reads an empty ledger, as
  row-level security wants, but every append it tries is refused as a concurrent write at
  sequence 1: the unique index spans tenants, so reloading and retrying, which the error
  asks for, can never succeed.
\<close>

theorem foreign_stream_always_conflicts:
  assumes "esrs_laws E seq" "streams_ok tbl" "stream i tbl \<noteq> []" "\<not> owned (store_tenant_id self) i tbl"
    "healthy S" "healthy S'" "events \<noteq> []" "event_to_value Z (hd events) = Ok v"
  shows "\<exists>g g'. load D E P Z S tbl self i = Ok g \<and> agg_inner E g = ledger_default \<and>
    persist E P Z S' self now fresh g events tbl = (Err (ConcurrencyConflict i 1), g', tbl)"
proof -
  have b: "by_aggregate_id P Z S tbl self i = Ok []"
    by (rule by_aggregate_id_healthy [OF assms(2,5)]) (simp add: assms(4))
  obtain g where g: "agg_apply E (agg_with_id E i) [] (apply_event D) = Ok g" "agg_inner E g = ledger_default"
      "agg_id E g = i" "seq g = 0"
    using esrs_laws.apply_ok [OF assms(1), of "apply_event D" "[]" "agg_with_id E i" ledger_default]
      esrs_laws.with_id [OF assms(1)] by (auto simp: fold_events_def reached_sequence_def)
  have "\<exists>g'. persist E P Z S' self now fresh g events tbl = (Err (ConcurrencyConflict i 1), g', tbl)"
    using esrs_laws.stale_append [OF assms(1,2), of g events Z v S' P self now fresh] assms(3,6-8) g(3,4) by simp
  then show ?thesis using g b by (auto simp: load_def)
qed

theorem foreign_stream_always_conflicts_witness:
  "\<exists>g g'. load ref_ops plain_esrs plain_codec demo_serde good_session [bill_row] other_self 9 = Ok g \<and>
     pa_inner g = ledger_default \<and>
     persist plain_esrs plain_codec demo_serde good_session other_self 5 (demo_fresh 2) g [bill_posted] [bill_row] =
       (Err (ConcurrencyConflict 9 1), g', [bill_row])"
proof -
  have "stream 9 [bill_row] \<noteq> []" "\<not> owned (store_tenant_id other_self) 9 [bill_row]"
    by (simp_all add: bill_row_def owned_def)
  from foreign_stream_always_conflicts [OF plain_laws demo_streams_ok this good_session_healthy good_session_healthy,
      of "[bill_posted]" demo_serde _ ref_ops plain_codec]
  show ?thesis by (simp add: plain_esrs_def)
qed

end
