(* ===== verification/Research.thy ===== *)
theory Research
  imports Aws_Focus
begin

text \<open>
  \<open>crates/research-graph\<close>: the research objects (\<open>entities.rs\<close>), the tracker boundary
  (\<open>connector.rs\<close>, \<open>store.rs\<close>) and the two connectors (\<open>trackers/wandb.rs\<close>,
  \<open>trackers/mlflow.rs\<close>). The tracker's HTTP client, RFC 3339 parsing and the \<open>serde\<close>
  encoding of a run are arguments.
\<close>

section \<open>Entities\<close>

datatype TrackerSource = Wandb | Mlflow

fun tracker_as_str :: "TrackerSource \<Rightarrow> string" where
  "tracker_as_str Wandb = ''wandb''"
| "tracker_as_str Mlflow = ''mlflow''"

definition tracker_from_stored :: "string \<Rightarrow> TrackerSource option" where
  "tracker_from_stored s = (let k = to_ascii_lowercase (trim s) in
     if k = ''wandb'' then Some Wandb
     else if k = ''mlflow'' then Some Mlflow
     else None)"

record external_ref =
  xr_source :: TrackerSource
  xr_external_id :: string

definition external_ref_new :: "TrackerSource \<Rightarrow> string \<Rightarrow> external_ref" where
  "external_ref_new s i = \<lparr>xr_source = s, xr_external_id = i\<rparr>"

datatype RunStatus = Running | Finished | Failed | Crashed | Killed

fun run_status_as_str :: "RunStatus \<Rightarrow> string" where
  "run_status_as_str Running = ''running''"
| "run_status_as_str Finished = ''finished''"
| "run_status_as_str Failed = ''failed''"
| "run_status_as_str Crashed = ''crashed''"
| "run_status_as_str Killed = ''killed''"

definition run_status_from_stored :: "string \<Rightarrow> RunStatus option" where
  "run_status_from_stored s = (let k = to_ascii_lowercase (trim s) in
     if k = ''running'' then Some Running
     else if k = ''finished'' then Some Finished
     else if k = ''failed'' then Some Failed
     else if k = ''crashed'' then Some Crashed
     else if k = ''killed'' then Some Killed
     else None)"

definition is_terminal :: "RunStatus \<Rightarrow> bool" where
  "is_terminal s \<longleftrightarrow> s \<noteq> Running"

record experiment_entity =
  x_id :: ExperimentId
  x_tenant_id :: TenantId
  x_project_id :: ProjectId
  x_name :: string

record 'd run =
  r_id :: RunId
  r_tenant_id :: TenantId
  r_experiment_id :: ExperimentId
  r_external_ref :: external_ref
  r_status :: RunStatus
  r_started_at :: datetime
  r_ended_at :: "datetime option"
  r_attributed_cost :: "'d money"
  r_function_code :: FunctionCode
  r_capitalization_status :: CapitalizationStatus

record job =
  j_id :: JobId
  j_tenant_id :: TenantId
  j_run_id :: RunId
  j_external_ref :: "external_ref option"
  j_started_at :: datetime
  j_ended_at :: "datetime option"
  j_resource_id :: "string option"

record 'd checkpoint =
  cp_id :: CheckpointId
  cp_tenant_id :: TenantId
  cp_run_id :: RunId
  cp_storage_cost :: "'d money"
  cp_storage_uri :: string

record model_version =
  mv_id :: ModelVersionId
  mv_model_id :: ModelId
  mv_version :: string
  mv_produced_by_run :: "RunId option"

record model =
  m_id :: ModelId
  m_tenant_id :: TenantId
  m_name :: string
  m_versions :: "model_version list"
  m_license_id :: "LicenseId option"

datatype DataSource = Licensed | Scraped | UserContributed | Synthetic | PubliclyAvailable | Purchased

datatype RightsBasis =
  OwnedOutright | LicensedForTraining | ConsentGiven | PublicDomain | FairUseAsserted | UnknownBasis

record 'd dataset_version =
  dv_id :: DatasetVersionId
  dv_tenant_id :: TenantId
  dv_source :: DataSource
  dv_rights_basis :: RightsBasis
  dv_acquisition_cost :: "'d money option"

interpretation trackc: stored_name tracker_as_str tracker_from_stored to_ascii_lowercase
proof
  show "tracker_from_stored s = Some x \<longleftrightarrow> to_ascii_lowercase (trim s) = tracker_as_str x" for s x
    by (cases x) (auto simp: tracker_from_stored_def Let_def)
  show "to_ascii_lowercase (trim (tracker_as_str x)) = tracker_as_str x" for x
    by (induction x; code_simp)
qed

interpretation statusc: stored_name run_status_as_str run_status_from_stored to_ascii_lowercase
proof
  show "run_status_from_stored s = Some x \<longleftrightarrow> to_ascii_lowercase (trim s) = run_status_as_str x" for s x
    by (cases x) (auto simp: run_status_from_stored_def Let_def)
  show "to_ascii_lowercase (trim (run_status_as_str x)) = run_status_as_str x" for x
    by (induction x; code_simp)
qed

section \<open>The boundaries\<close>

record run_cursor =
  updated_since :: "datetime option"

definition run_cursor_default :: run_cursor where
  "run_cursor_default = \<lparr>updated_since = None\<rparr>"

record raw_run_record =
  rr_source :: TrackerSource
  rr_payload :: json

datatype tracker_error =
    TrackerTransport TrackerSource string
  | TrackerUnauthorized TrackerSource
  | MissingField string
  | UnusableField string string

definition run_idempotency_key :: "'d run \<Rightarrow> external_ref" where
  "run_idempotency_key r = r_external_ref r"

datatype run_upsert = Inserted RunId | Updated RunId | Unchanged RunId

fun upserted_run_id :: "run_upsert \<Rightarrow> RunId" where
  "upserted_run_id (Inserted i) = i"
| "upserted_run_id (Updated i) = i"
| "upserted_run_id (Unchanged i) = i"

fun upsert_is_new :: "run_upsert \<Rightarrow> bool" where
  "upsert_is_new (Inserted i) = True"
| "upsert_is_new _ = False"

datatype research_store_error = ResearchBackend string | UnknownExperiment string

section \<open>Weights \& Biases\<close>

type_synonym wandb_memory_api = "json list"

definition wandb_memory_new :: wandb_memory_api where
  "wandb_memory_new = []"

definition wandb_with_run :: "json \<Rightarrow> wandb_memory_api \<Rightarrow> wandb_memory_api" where
  "wandb_with_run run api = api @ [run]"

definition wandb_memory_runs_since :: "wandb_memory_api \<Rightarrow> run_cursor \<Rightarrow> (tracker_error, json list) res" where
  "wandb_memory_runs_since api c = Ok api"

record wandb_connector =
  wandb_api :: "run_cursor \<Rightarrow> (tracker_error, json list) res"
  wandb_tenant_id :: TenantId
  wandb_experiment_id :: ExperimentId
  wandb_currency :: Currency

text \<open>A member that is a string, trimmed, when that leaves anything.\<close>

definition optional_str :: "json \<Rightarrow> string \<Rightarrow> string option" where
  "optional_str v name =
     (case map_option trim (Option.bind (json_get v name) as_str) of
        Some s \<Rightarrow> if s = [] then None else Some s
      | None \<Rightarrow> None)"

definition str_field :: "json \<Rightarrow> string \<Rightarrow> (tracker_error, string) res" where
  "str_field v name =
     ok_or (case map_option trim (Option.bind (json_get v name) as_str) of
        Some s \<Rightarrow> if s = [] then None else Some s
      | None \<Rightarrow> None) (MissingField name)"

definition timestamp :: "externs \<Rightarrow> string \<Rightarrow> string \<Rightarrow> (tracker_error, datetime) res" where
  "timestamp X v name = ok_or (rfc3339_parse X v) (UnusableField name v)"

definition wandb_external_id :: "json \<Rightarrow> (tracker_error, string) res" where
  "wandb_external_id run =
     res_bind (str_field run ''entity'') (\<lambda>entity.
     res_bind (str_field run ''project'') (\<lambda>project.
     res_bind (str_field run ''id'') (\<lambda>i.
     Ok (entity @ ''/'' @ project @ ''/'' @ i))))"

definition wandb_fetch_runs_since ::
  "wandb_connector \<Rightarrow> run_cursor \<Rightarrow> (tracker_error, raw_run_record list) res" where
  "wandb_fetch_runs_since self c =
     res_bind (wandb_api self c) (\<lambda>payloads.
     Ok (map (\<lambda>p. \<lparr>rr_source = Wandb, rr_payload = p\<rparr>) payloads))"

definition wandb_normalize ::
  "'d decimal_ops \<Rightarrow> externs \<Rightarrow> wandb_connector \<Rightarrow> RunId \<Rightarrow> raw_run_record \<Rightarrow> (tracker_error, 'd run) res" where
  "wandb_normalize D X self fresh raw =
     (let p = rr_payload raw in
      res_bind (str_field p ''state'') (\<lambda>state.
      res_bind (ok_or (run_status_from_stored state) (UnusableField ''state'' state)) (\<lambda>status.
      res_bind (res_bind (str_field p ''createdAt'') (\<lambda>v. timestamp X v ''createdAt'')) (\<lambda>started.
      res_bind (case optional_str p ''heartbeatAt'' of
                  None \<Rightarrow> Ok None
                | Some v \<Rightarrow> res_map Some (timestamp X v ''heartbeatAt'')) (\<lambda>heartbeat.
      res_bind (case optional_str p ''endedAt'' of
                  Some v \<Rightarrow> res_map Some (timestamp X v ''endedAt'')
                | None \<Rightarrow> if is_terminal status then Ok heartbeat else Ok None) (\<lambda>ended.
      res_bind (wandb_external_id p) (\<lambda>ext.
      Ok \<lparr>r_id = fresh, r_tenant_id = wandb_tenant_id self, r_experiment_id = wandb_experiment_id self,
        r_external_ref = external_ref_new Wandb ext, r_status = status, r_started_at = started,
        r_ended_at = ended, r_attributed_cost = money_zero D (wandb_currency self),
        r_function_code = RnD, r_capitalization_status = PendingReview\<rparr>)))))))"

section \<open>MLflow, mocked\<close>

record 'd run_serde =
  run_to_value :: "'d run \<Rightarrow> (string, json) res"
  run_from_value :: "json \<Rightarrow> (string, 'd run) res"

type_synonym 'd mlflow_mock = "'d run list"

definition mlflow_new :: "'d mlflow_mock" where
  "mlflow_new = []"

definition mlflow_with_run :: "'d run \<Rightarrow> 'd mlflow_mock \<Rightarrow> 'd mlflow_mock" where
  "mlflow_with_run r self = self @ [r]"

definition mlflow_fetch_runs_since ::
  "'d run_serde \<Rightarrow> 'd mlflow_mock \<Rightarrow> run_cursor \<Rightarrow> (tracker_error, raw_run_record list) res" where
  "mlflow_fetch_runs_since Z self c =
     res_mapM (\<lambda>r. res_map_err (TrackerTransport Mlflow)
       (res_map (\<lambda>p. \<lparr>rr_source = Mlflow, rr_payload = p\<rparr>) (run_to_value Z r))) self"

definition mlflow_normalize :: "'d run_serde \<Rightarrow> raw_run_record \<Rightarrow> (tracker_error, 'd run) res" where
  "mlflow_normalize Z raw = res_map_err (UnusableField ''payload'') (run_from_value Z (rr_payload raw))"

section \<open>Facts\<close>

lemma optional_str_field: "str_field v name = ok_or (optional_str v name) (MissingField name)"
  by (simp add: str_field_def optional_str_def)

end
