(* ===== verification/Research_Store.thy ===== *)
theory Research_Store
  imports Research Cost_Store
begin

text \<open>
  \<open>crates/infra/src/research_graph.rs\<close> over the tables of its migration: experiments, runs
  (unique \<open>(tenant_id, external_source, external_id)\<close>, a foreign key to experiments, four
  \<open>CHECK\<close> constraints, row-level security) and the cost events the run's cost is summed
  from. \<open>SUM\<close> over a \<open>NUMERIC\<close> column, decoded as a \<open>Decimal\<close>, is an argument.
\<close>

section \<open>The tables\<close>

record experiment_row =
  xrow_id :: uuid
  xrow_tenant_id :: uuid
  xrow_project_id :: uuid
  xrow_name :: string

record 'd run_row =
  rrow_id :: uuid
  rrow_tenant_id :: uuid
  rrow_experiment_id :: uuid
  rrow_external_source :: string
  rrow_external_id :: string
  rrow_status :: string
  rrow_started_at :: datetime
  rrow_ended_at :: "datetime option"
  rrow_attributed_cost :: 'd
  rrow_currency :: string
  rrow_function_code :: string
  rrow_capitalization_status :: string

record 'd research_db =
  db_experiments :: "experiment_row list"
  db_runs :: "'d run_row list"
  db_costs :: "'d cost_table"

definition run_key :: "'d run_row \<Rightarrow> uuid \<times> string \<times> string" where
  "run_key r = (rrow_tenant_id r, rrow_external_source r, rrow_external_id r)"

definition run_checks :: "'d run_row \<Rightarrow> bool" where
  "run_checks r \<longleftrightarrow> rrow_function_code r \<in> {''COGS'', ''RND'', ''OPEX''} \<and>
     rrow_capitalization_status r \<in> {''EXPENSED'', ''CAPITALIZED'', ''PENDING_REVIEW''} \<and>
     iso4217_code (rrow_currency r) \<and>
     (case rrow_ended_at r of None \<Rightarrow> True | Some e \<Rightarrow> rrow_started_at r \<le> e)"

definition visible_runs :: "TenantId \<Rightarrow> 'd research_db \<Rightarrow> 'd run_row list" where
  "visible_runs t db = filter (\<lambda>r. rrow_tenant_id r = tenant_as_uuid t) (db_runs db)"

section \<open>Experiments\<close>

text \<open>
  \<open>ON CONFLICT (id) DO UPDATE\<close>: an update of a row the policy hides is an error, as
  PostgreSQL's row security documents.
\<close>

definition insert_experiment :: "experiment_row \<Rightarrow> 'd research_db \<Rightarrow> (string, 'd research_db) res" where
  "insert_experiment x db =
     (case find (\<lambda>y. xrow_id y = xrow_id x) (db_experiments db) of
        None \<Rightarrow> Ok (db\<lparr>db_experiments := db_experiments db @ [x]\<rparr>)
      | Some old \<Rightarrow>
          if xrow_tenant_id old \<noteq> xrow_tenant_id x then Err ''row-level security''
          else Ok (db\<lparr>db_experiments := map (\<lambda>y. if xrow_id y = xrow_id x then y\<lparr>xrow_name := xrow_name x\<rparr> else y)
                 (db_experiments db)\<rparr>))"

definition upsert_experiment ::
  "'d pg_codec \<Rightarrow> pg_session \<Rightarrow> experiment_entity \<Rightarrow> 'd research_db
     \<Rightarrow> (research_store_error, unit) res \<times> 'd research_db" where
  "upsert_experiment P S x db =
     (case res_bind (res_map_err (ResearchBackend \<circ> show_db_error)
         (begin_tenant_tx S (pg_uuid_show P) (x_tenant_id x))) (\<lambda>_.
       res_bind (res_map_err ResearchBackend (pg_check (pg_stmt_fault S 0))) (\<lambda>_.
       res_bind (res_map_err ResearchBackend (insert_experiment
         \<lparr>xrow_id = experiment_as_uuid (x_id x), xrow_tenant_id = tenant_as_uuid (x_tenant_id x),
          xrow_project_id = project_as_uuid (x_project_id x), xrow_name = x_name x\<rparr> db)) (\<lambda>db'.
       res_bind (res_map_err ResearchBackend (pg_check (pg_commit_fault S))) (\<lambda>_. Ok db')))) of
        Ok db' \<Rightarrow> (Ok (), db') | Err e \<Rightarrow> (Err e, db) | Panic \<Rightarrow> (Panic, db))"

section \<open>Runs\<close>

definition bind_run :: "'d pg_codec \<Rightarrow> 'd run \<Rightarrow> (string, 'd run_row) res" where
  "bind_run P r =
     res_bind (ok_or (pg_numeric P (amount (r_attributed_cost r))) ''numeric field overflow'') (\<lambda>cost.
     Ok \<lparr>rrow_id = run_as_uuid (r_id r), rrow_tenant_id = tenant_as_uuid (r_tenant_id r),
       rrow_experiment_id = experiment_as_uuid (r_experiment_id r),
       rrow_external_source = tracker_as_str (xr_source (r_external_ref r)),
       rrow_external_id = xr_external_id (r_external_ref r),
       rrow_status = run_status_as_str (r_status r),
       rrow_started_at = pg_timestamptz P (r_started_at r),
       rrow_ended_at = map_option (pg_timestamptz P) (r_ended_at r),
       rrow_attributed_cost = cost, rrow_currency = currency_code (currency (r_attributed_cost r)),
       rrow_function_code = function_code_as_str (r_function_code r),
       rrow_capitalization_status = capitalization_as_str (r_capitalization_status r)\<rparr>)"

text \<open>The columns the \<open>DO UPDATE\<close> sets, and its \<open>WHERE ... IS DISTINCT FROM\<close>.\<close>

definition refresh_run :: "'d run_row \<Rightarrow> 'd run_row \<Rightarrow> 'd run_row" where
  "refresh_run old new = old\<lparr>rrow_status := rrow_status new, rrow_started_at := rrow_started_at new,
     rrow_ended_at := rrow_ended_at new, rrow_function_code := rrow_function_code new,
     rrow_capitalization_status := rrow_capitalization_status new\<rparr>"

definition run_changed :: "'d run_row \<Rightarrow> 'd run_row \<Rightarrow> bool" where
  "run_changed old new \<longleftrightarrow> rrow_status old \<noteq> rrow_status new \<or> rrow_started_at old \<noteq> rrow_started_at new \<or>
     rrow_ended_at old \<noteq> rrow_ended_at new \<or> rrow_function_code old \<noteq> rrow_function_code new \<or>
     rrow_capitalization_status old \<noteq> rrow_capitalization_status new"

definition insert_run ::
  "'d run_row \<Rightarrow> 'd research_db \<Rightarrow> (string, (uuid \<times> bool) option \<times> 'd research_db) res" where
  "insert_run r db =
     (if \<not> run_checks r then Err ''check constraint''
      else case find (\<lambda>x. run_key x = run_key r) (db_runs db) of
        Some old \<Rightarrow>
          if run_changed old r
          then Ok (Some (rrow_id old, False),
              db\<lparr>db_runs := map (\<lambda>x. if run_key x = run_key r then refresh_run x r else x) (db_runs db)\<rparr>)
          else Ok (None, db)
      | None \<Rightarrow>
          if list_ex (\<lambda>x. rrow_id x = rrow_id r) (db_runs db) then Err ''runs_pkey''
          else if \<not> list_ex (\<lambda>x. xrow_id x = rrow_experiment_id r) (db_experiments db)
          then Err ''runs_experiment_id_fkey''
          else Ok (Some (rrow_id r, True), db\<lparr>db_runs := db_runs db @ [r]\<rparr>))"

definition upsert_run_tx ::
  "'d pg_codec \<Rightarrow> pg_session \<Rightarrow> 'd run \<Rightarrow> 'd research_db
     \<Rightarrow> (research_store_error, run_upsert \<times> 'd research_db) res" where
  "upsert_run_tx P S run db =
     res_bind (res_map_err (ResearchBackend \<circ> show_db_error)
       (begin_tenant_tx S (pg_uuid_show P) (r_tenant_id run))) (\<lambda>t.
     res_bind (res_map_err ResearchBackend (pg_check (pg_stmt_fault S 0))) (\<lambda>_.
     res_bind (res_map_err ResearchBackend (bind_run P run)) (\<lambda>r.
     res_bind (res_map_err ResearchBackend (insert_run r db)) (\<lambda>(row, db').
     res_bind (case row of
         Some (i, is_inserted) \<Rightarrow> Ok (if is_inserted then Inserted (RunId i) else Updated (RunId i))
       | None \<Rightarrow>
           res_bind (res_map_err ResearchBackend (pg_check (pg_stmt_fault S 1))) (\<lambda>_.
           res_map (\<lambda>x. Unchanged (RunId (rrow_id x)))
             (ok_or (find (\<lambda>x. rrow_external_source x = tracker_as_str (xr_source (r_external_ref run)) \<and>
                 rrow_external_id x = xr_external_id (r_external_ref run)) (visible_runs t db'))
               (ResearchBackend ''no rows returned'')))) (\<lambda>outcome.
     res_bind (res_map_err ResearchBackend (pg_check (pg_commit_fault S))) (\<lambda>_. Ok (outcome, db')))))))"

definition upsert_run ::
  "'d pg_codec \<Rightarrow> pg_session \<Rightarrow> 'd run \<Rightarrow> 'd research_db
     \<Rightarrow> (research_store_error, run_upsert) res \<times> 'd research_db" where
  "upsert_run P S run db =
     (case upsert_run_tx P S run db of
        Ok (outcome, db') \<Rightarrow> (Ok outcome, db') | Err e \<Rightarrow> (Err e, db) | Panic \<Rightarrow> (Panic, db))"

definition corrupt :: "string \<Rightarrow> string \<Rightarrow> research_store_error" where
  "corrupt what v = ResearchBackend (''stored '' @ what @ '' is not a recognized value: '' @ v)"

definition decode_run :: "'d run_row \<Rightarrow> (research_store_error, 'd run) res" where
  "decode_run r =
     res_bind (ok_or (tracker_from_stored (rrow_external_source r))
       (corrupt ''external_source'' (rrow_external_source r))) (\<lambda>source.
     res_bind (ok_or (run_status_from_stored (rrow_status r)) (corrupt ''status'' (rrow_status r))) (\<lambda>status.
     res_bind (ok_or (function_code_from_stored (rrow_function_code r))
       (corrupt ''function_code'' (rrow_function_code r))) (\<lambda>fc.
     res_bind (ok_or (capitalization_from_stored (rrow_capitalization_status r))
       (corrupt ''capitalization_status'' (rrow_capitalization_status r))) (\<lambda>cap.
     res_bind (ok_or (currency_from_code (rrow_currency r))
       (corrupt ''attributed_cost_currency'' (rrow_currency r))) (\<lambda>ccy.
     Ok \<lparr>r_id = RunId (rrow_id r), r_tenant_id = TenantId (rrow_tenant_id r),
       r_experiment_id = ExperimentId (rrow_experiment_id r),
       r_external_ref = \<lparr>xr_source = source, xr_external_id = rrow_external_id r\<rparr>, r_status = status,
       r_started_at = rrow_started_at r, r_ended_at = rrow_ended_at r,
       r_attributed_cost = money_new (rrow_attributed_cost r) ccy, r_function_code = fc,
       r_capitalization_status = cap\<rparr>)))))"

text \<open>The common shape of the two lookups: one statement, commit, then decoding.\<close>

definition select_run ::
  "'d pg_codec \<Rightarrow> pg_session \<Rightarrow> 'd research_db \<Rightarrow> TenantId \<Rightarrow> ('d run_row \<Rightarrow> bool)
     \<Rightarrow> (research_store_error, 'd run option) res" where
  "select_run P S db tenant p =
     res_bind (res_map_err (ResearchBackend \<circ> show_db_error) (begin_tenant_tx S (pg_uuid_show P) tenant)) (\<lambda>t.
     res_bind (res_map_err ResearchBackend (pg_check (pg_stmt_fault S 0))) (\<lambda>_.
     let row = find p (visible_runs t db)
     in res_bind (res_map_err ResearchBackend (pg_check (pg_commit_fault S))) (\<lambda>_.
        case row of None \<Rightarrow> Ok None | Some r \<Rightarrow> res_map Some (decode_run r))))"

definition find_run_by_external_ref ::
  "'d pg_codec \<Rightarrow> pg_session \<Rightarrow> 'd research_db \<Rightarrow> TenantId \<Rightarrow> external_ref
     \<Rightarrow> (research_store_error, 'd run option) res" where
  "find_run_by_external_ref P S db tenant x =
     select_run P S db tenant (\<lambda>r. rrow_external_source r = tracker_as_str (xr_source x) \<and>
       rrow_external_id r = xr_external_id x)"

definition find_run ::
  "'d pg_codec \<Rightarrow> pg_session \<Rightarrow> 'd research_db \<Rightarrow> TenantId \<Rightarrow> RunId
     \<Rightarrow> (research_store_error, 'd run option) res" where
  "find_run P S db tenant i = select_run P S db tenant (\<lambda>r. rrow_id r = run_as_uuid i)"

section \<open>Cost per run\<close>

text \<open>The rows of \<open>SELECT SUM(effective_cost) ... WHERE run_id = $1 AND currency = $2\<close>.\<close>

definition run_costs :: "TenantId \<Rightarrow> 'd research_db \<Rightarrow> uuid \<Rightarrow> string \<Rightarrow> 'd list" where
  "run_costs t db i ccy = map row_effective_cost
     (filter (\<lambda>c. row_run_id c = Some i \<and> row_currency c = ccy) (visible t (db_costs db)))"

definition refresh_tx ::
  "'d decimal_ops \<Rightarrow> 'd pg_codec \<Rightarrow> ('d list \<Rightarrow> (string, 'd option) res) \<Rightarrow> pg_session \<Rightarrow> 'd research_db
     \<Rightarrow> TenantId \<Rightarrow> RunId \<Rightarrow> (research_store_error, 'd money \<times> 'd research_db) res" where
  "refresh_tx D P pgsum S db tenant run =
     (let i = run_as_uuid run in
      res_bind (res_map_err (ResearchBackend \<circ> show_db_error) (begin_tenant_tx S (pg_uuid_show P) tenant)) (\<lambda>t.
      res_bind (res_map_err ResearchBackend (pg_check (pg_stmt_fault S 0))) (\<lambda>_.
      res_bind (ok_or (map_option rrow_currency (find (\<lambda>r. rrow_id r = i) (visible_runs t db)))
        (ResearchBackend (''run '' @ pg_uuid_show P i @ '' not found''))) (\<lambda>raw.
      res_bind (ok_or (currency_from_code raw) (corrupt ''attributed_cost_currency'' raw)) (\<lambda>ccy.
      res_bind (res_map_err ResearchBackend (pg_check (pg_stmt_fault S 1))) (\<lambda>_.
      res_bind (res_map_err ResearchBackend (pgsum (run_costs t db i raw))) (\<lambda>tot.
      let attributed = money_new (case tot of None \<Rightarrow> dec_zero D | Some d \<Rightarrow> d) ccy in
      res_bind (res_map_err ResearchBackend (pg_check (pg_stmt_fault S 2))) (\<lambda>_.
      res_bind (res_map_err ResearchBackend (ok_or (pg_numeric P (amount attributed)) ''numeric field overflow'')) (\<lambda>n.
      res_bind (res_map_err ResearchBackend (pg_check (pg_commit_fault S))) (\<lambda>_.
      Ok (attributed, db\<lparr>db_runs := map (\<lambda>r. if rrow_id r = i \<and> rrow_tenant_id r = tenant_as_uuid t
            then r\<lparr>rrow_attributed_cost := n\<rparr> else r) (db_runs db)\<rparr>)))))))))))"

definition refresh_attributed_cost ::
  "'d decimal_ops \<Rightarrow> 'd pg_codec \<Rightarrow> ('d list \<Rightarrow> (string, 'd option) res) \<Rightarrow> pg_session \<Rightarrow> 'd research_db
     \<Rightarrow> TenantId \<Rightarrow> RunId \<Rightarrow> (research_store_error, 'd money) res \<times> 'd research_db" where
  "refresh_attributed_cost D P pgsum S db tenant run =
     (case refresh_tx D P pgsum S db tenant run of
        Ok (m, db') \<Rightarrow> (Ok m, db') | Err e \<Rightarrow> (Err e, db) | Panic \<Rightarrow> (Panic, db))"

end
