(* ===== verification/Research_Proofs.thy ===== *)
theory Research_Proofs
  imports Research_Store
begin

text \<open>
  The constraints of the run table as an invariant, and what the upsert statement does on a
  table that satisfies them.
\<close>

definition runs_ok :: "'d research_db \<Rightarrow> bool" where
  "runs_ok db \<longleftrightarrow> distinct (map rrow_id (db_runs db)) \<and> distinct (map run_key (db_runs db)) \<and>
     (\<forall>r\<in>set (db_runs db). run_checks r \<and> rrow_experiment_id r \<in> xrow_id ` set (db_experiments db))"

definition run_row_at :: "'d research_db \<Rightarrow> uuid \<times> string \<times> string \<Rightarrow> 'd run_row option" where
  "run_row_at db k = find (\<lambda>r. run_key r = k) (db_runs db)"

definition identity_of :: "'d run \<Rightarrow> uuid \<times> string \<times> string" where
  "identity_of r = (tenant_as_uuid (r_tenant_id r), tracker_as_str (xr_source (r_external_ref r)),
     xr_external_id (r_external_ref r))"

lemma find_key_iff:
  "distinct (map f xs) \<Longrightarrow> find (\<lambda>x. f x = k) xs = Some y \<longleftrightarrow> y \<in> set xs \<and> f y = k"
  by (induction xs) auto

lemma run_row_at_iff: "runs_ok db \<Longrightarrow> run_row_at db k = Some r \<longleftrightarrow> r \<in> set (db_runs db) \<and> run_key r = k"
  by (simp add: run_row_at_def runs_ok_def find_key_iff)

lemma find_map_same:
  "(\<And>x. f (g x) = f x) \<Longrightarrow> find (\<lambda>x. f x = k) (map g xs) = map_option g (find (\<lambda>x. f x = k) xs)"
  by (induction xs) auto

lemma find_append: "find p (xs @ ys) = (case find p xs of None \<Rightarrow> find p ys | Some x \<Rightarrow> Some x)"
  by (induction xs) auto

lemma refresh_run_sel [simp]:
  "run_key (refresh_run x r) = run_key x" "rrow_id (refresh_run x r) = rrow_id x"
  "rrow_experiment_id (refresh_run x r) = rrow_experiment_id x" "rrow_currency (refresh_run x r) = rrow_currency x"
  "rrow_attributed_cost (refresh_run x r) = rrow_attributed_cost x"
  "rrow_status (refresh_run x r) = rrow_status r" "rrow_started_at (refresh_run x r) = rrow_started_at r"
  "rrow_ended_at (refresh_run x r) = rrow_ended_at r" "rrow_function_code (refresh_run x r) = rrow_function_code r"
  "rrow_capitalization_status (refresh_run x r) = rrow_capitalization_status r"
  by (simp_all add: refresh_run_def run_key_def)

lemma bind_run_key: "bind_run P run = Ok r \<Longrightarrow> run_key r = identity_of run"
  by (auto simp: bind_run_def run_key_def identity_of_def)

lemma insert_run_cases [consumes 1, case_names inserted updated unchanged]:
  assumes "insert_run r db = Ok (row, db')"
  obtains "run_row_at db (run_key r) = None" "run_checks r" "\<forall>x\<in>set (db_runs db). rrow_id x \<noteq> rrow_id r"
      "\<exists>x\<in>set (db_experiments db). xrow_id x = rrow_experiment_id r" "row = Some (rrow_id r, True)"
      "db' = db\<lparr>db_runs := db_runs db @ [r]\<rparr>"
    | old where "run_row_at db (run_key r) = Some old" "run_checks r" "run_changed old r"
        "row = Some (rrow_id old, False)"
        "db' = db\<lparr>db_runs := map (\<lambda>x. if run_key x = run_key r then refresh_run x r else x) (db_runs db)\<rparr>"
    | old where "run_row_at db (run_key r) = Some old" "run_checks r" "\<not> run_changed old r" "row = None" "db' = db"
proof (cases "run_row_at db (run_key r)")
  case None
  with assms that(1) show ?thesis
    by (auto simp: insert_run_def run_row_at_def list_ex_iff split: if_splits)
next
  case (Some old)
  with assms that(2,3) show ?thesis
    by (auto simp: insert_run_def run_row_at_def split: if_splits)
qed

text \<open>The row an identity has after the statement.\<close>

definition merge_run :: "'d run_row option \<Rightarrow> 'd run_row \<Rightarrow> 'd run_row" where
  "merge_run prev r = (case prev of None \<Rightarrow> r | Some old \<Rightarrow> refresh_run old r)"

lemma refresh_unchanged: "\<not> run_changed old r \<Longrightarrow> refresh_run old r = old"
  by (simp add: run_changed_def refresh_run_def)

lemma insert_run_row:
  assumes "insert_run r db = Ok (row, db')" "runs_ok db"
  shows "run_row_at db' k = (if k = run_key r then Some (merge_run (run_row_at db k) r) else run_row_at db k)"
  using assms(1)
proof (cases rule: insert_run_cases)
  case inserted
  then show ?thesis by (auto simp: run_row_at_def find_append merge_run_def split: option.splits)
next
  case (updated old)
  let ?g = "\<lambda>x. if run_key x = run_key r then refresh_run x r else x"
  have "run_row_at db' k = map_option ?g (run_row_at db k)"
    by (simp add: updated(5) run_row_at_def find_map_same)
  moreover have "run_key x = k" if "run_row_at db k = Some x" for x
    using that assms(2) by (simp add: run_row_at_iff)
  ultimately show ?thesis using updated(1) by (cases "run_row_at db k") (auto simp: merge_run_def)
next
  case (unchanged old)
  then show ?thesis by (simp add: merge_run_def refresh_unchanged)
qed

lemma insert_run_ok:
  assumes "insert_run r db = Ok (row, db')" "runs_ok db"
  shows "runs_ok db' \<and> db_experiments db' = db_experiments db \<and> db_costs db' = db_costs db \<and>
    length (db_runs db') = length (db_runs db) + (if \<exists>i. row = Some (i, True) then 1 else 0)"
  using assms(1)
proof (cases rule: insert_run_cases)
  case inserted
  then have "run_key r \<notin> run_key ` set (db_runs db)"
    by (auto simp: run_row_at_def find_None_iff image_iff)
  moreover have "rrow_id r \<notin> rrow_id ` set (db_runs db)" "rrow_experiment_id r \<in> xrow_id ` set (db_experiments db)"
    using inserted(3,4) by (fastforce intro: rev_image_eqI)+
  ultimately show ?thesis using inserted(2,5,6) assms(2) by (simp add: runs_ok_def)
next
  case (updated old)
  let ?g = "\<lambda>x. if run_key x = run_key r then refresh_run x r else x"
  have "rrow_id (?g x) = rrow_id x" "run_key (?g x) = run_key x"
    "rrow_experiment_id (?g x) = rrow_experiment_id x" for x by simp_all
  then have m: "map rrow_id (db_runs db') = map rrow_id (db_runs db)"
    "map run_key (db_runs db') = map run_key (db_runs db)"
    by (simp_all add: updated(5) comp_def cong: map_cong)
  have c: "run_checks (?g x)" if "run_checks x" for x
    using that updated(2) by (simp add: run_checks_def split: option.splits)
  have "run_checks y \<and> rrow_experiment_id y \<in> xrow_id ` set (db_experiments db)" if "y \<in> set (db_runs db')" for y
  proof -
    from that obtain x where x: "x \<in> set (db_runs db)" "y = ?g x" by (auto simp: updated(5))
    then have "run_checks x" "rrow_experiment_id x \<in> xrow_id ` set (db_experiments db)"
      using assms(2) by (simp_all add: runs_ok_def)
    with c [of x] show ?thesis unfolding x(2) by simp
  qed
  moreover have "db_experiments db' = db_experiments db" "db_costs db' = db_costs db"
    "length (db_runs db') = length (db_runs db)" by (simp_all add: updated(5))
  moreover have "distinct (map rrow_id (db_runs db'))" "distinct (map run_key (db_runs db'))"
    unfolding m using assms(2) by (simp_all add: runs_ok_def)
  ultimately show ?thesis unfolding runs_ok_def updated(4) by simp
next
  case (unchanged old)
  with assms(2) show ?thesis by simp
qed

lemma select_unchanged:
  assumes "run_row_at db (identity_of run) = Some old" "runs_ok db"
  shows "find (\<lambda>x. rrow_external_source x = tracker_as_str (xr_source (r_external_ref run)) \<and>
    rrow_external_id x = xr_external_id (r_external_ref run)) (visible_runs (r_tenant_id run) db) = Some old"
proof -
  have "find p (filter q xs) = find (\<lambda>x. q x \<and> p x) xs" for p q :: "'a run_row \<Rightarrow> bool" and xs
    by (induction xs) auto
  then show ?thesis using assms(1)
    by (simp add: visible_runs_def run_row_at_def run_key_def identity_of_def)
qed

text \<open>A successful upsert ran the statement, and reports what it did.\<close>

lemma upsert_run_Ok:
  assumes "upsert_run P S run db = (Ok out, db')" "runs_ok db"
  shows "\<exists>r row. bind_run P run = Ok r \<and> insert_run r db = Ok (row, db') \<and>
    run_row_at db' (identity_of run) = Some (merge_run (run_row_at db (identity_of run)) r) \<and>
    out = (case run_row_at db (identity_of run) of
       None \<Rightarrow> Inserted (r_id run)
     | Some old \<Rightarrow> if run_changed old r then Updated (RunId (rrow_id old)) else Unchanged (RunId (rrow_id old))) \<and>
    (upsert_is_new out \<longleftrightarrow> (\<exists>i. row = Some (i, True)))"
proof -
  from assms(1) have tx: "upsert_run_tx P S run db = Ok (out, db')"
    by (auto simp: upsert_run_def split: res.splits)
  then obtain r row where r: "bind_run P run = Ok r" "insert_run r db = Ok (row, db')"
    by (auto simp: upsert_run_tx_def)
  from tx obtain t where "begin_tenant_tx S (pg_uuid_show P) (r_tenant_id run) = Ok t"
    by (auto simp: upsert_run_tx_def)
  then have t: "begin_tenant_tx S (pg_uuid_show P) (r_tenant_id run) = Ok (r_tenant_id run)"
    by (auto dest: begin_tenant_tx_Ok)
  have k: "run_key r = identity_of run" by (rule bind_run_key [OF r(1)])
  have i: "RunId (rrow_id r) = r_id run" using r(1) by (auto simp: bind_run_def)
  have at: "run_row_at db' (identity_of run) = Some (merge_run (run_row_at db (identity_of run)) r)"
    using insert_run_row [OF r(2) assms(2)] k by simp
  from r(2) show ?thesis
  proof (cases rule: insert_run_cases)
    case inserted
    with tx r t k i at show ?thesis by (auto simp: upsert_run_tx_def)
  next
    case (updated old)
    with tx r t k at show ?thesis by (auto simp: upsert_run_tx_def)
  next
    case (unchanged old)
    with tx r t k at select_unchanged [of db run old] assms(2) show ?thesis by (auto simp: upsert_run_tx_def)
  qed
qed

end
