(* ===== verification/Research_Properties.thy ===== *)
theory Research_Properties
  imports Research_Proofs Cost_Store_Properties Cost_Properties
begin

text \<open>
  Properties of the tracker connectors and of the research-graph store, with their witnesses:
  one W\&B payload delivered to a database that holds its experiment.
\<close>

section \<open>Example data\<close>

definition wandb_demo :: wandb_connector where
  "wandb_demo = \<lparr>wandb_api = wandb_memory_runs_since wandb_memory_new, wandb_tenant_id = TenantId 1,
     wandb_experiment_id = ExperimentId 5, wandb_currency = Usd\<rparr>"

definition wandb_payload :: "string \<Rightarrow> string \<Rightarrow> raw_run_record" where
  "wandb_payload project state = \<lparr>rr_source = Wandb, rr_payload = JObject
     [(''createdAt'', JString ''now''), (''entity'', JString ''acme''), (''heartbeatAt'', JString ''later''),
      (''id'', JString ''abc''), (''project'', JString project), (''state'', JString state)]\<rparr>"

definition wandb_run :: "uuid \<Rightarrow> RunStatus \<Rightarrow> datetime option \<Rightarrow> refdec run" where
  "wandb_run i st e = \<lparr>r_id = RunId i, r_tenant_id = TenantId 1, r_experiment_id = ExperimentId 5,
     r_external_ref = \<lparr>xr_source = Wandb, xr_external_id = ''acme/llm/abc''\<rparr>, r_status = st, r_started_at = 3,
     r_ended_at = e, r_attributed_cost = \<lparr>amount = Dec 0 0, currency = Usd\<rparr>, r_function_code = RnD,
     r_capitalization_status = PendingReview\<rparr>"

lemma wandb_demo_runs:
  "wandb_normalize ref_ops demo_externs wandb_demo (RunId i) (wandb_payload ''llm'' ''finished'') = Ok (wandb_run i Finished (Some 5))"
  "wandb_normalize ref_ops demo_externs wandb_demo (RunId i) (wandb_payload ''llm'' ''Running'') = Ok (wandb_run i Running None)"
proof -
  have f: "optional_str (rr_payload (wandb_payload ''llm'' st)) ''createdAt'' = Some ''now''"
    "optional_str (rr_payload (wandb_payload ''llm'' st)) ''entity'' = Some ''acme''"
    "optional_str (rr_payload (wandb_payload ''llm'' st)) ''heartbeatAt'' = Some ''later''"
    "optional_str (rr_payload (wandb_payload ''llm'' st)) ''id'' = Some ''abc''"
    "optional_str (rr_payload (wandb_payload ''llm'' st)) ''project'' = Some ''llm''"
    "optional_str (rr_payload (wandb_payload ''llm'' st)) ''endedAt'' = None" for st
    by (code_simp)+
  have s: "optional_str (rr_payload (wandb_payload ''llm'' ''finished'')) ''state'' = Some ''finished''"
    "optional_str (rr_payload (wandb_payload ''llm'' ''Running'')) ''state'' = Some ''Running''"
    by code_simp+
  have l: "to_ascii_lowercase (trim ''finished'') = ''finished''" "to_ascii_lowercase (trim ''Running'') = ''running''"
    by code_simp+
  then have r: "run_status_from_stored ''finished'' = Some Finished" "run_status_from_stored ''Running'' = Some Running"
    by (simp_all add: statusc.reads)
  show
    "wandb_normalize ref_ops demo_externs wandb_demo (RunId i) (wandb_payload ''llm'' ''finished'') = Ok (wandb_run i Finished (Some 5))"
    "wandb_normalize ref_ops demo_externs wandb_demo (RunId i) (wandb_payload ''llm'' ''Running'') = Ok (wandb_run i Running None)"
    unfolding wandb_normalize_def wandb_external_id_def optional_str_field Let_def f s res_bind.simps ok_or.simps r
    by (simp_all add: timestamp_def demo_externs_def wandb_run_def wandb_demo_def external_ref_new_def is_terminal_def
        money_zero_def ref_eval)
qed

definition demo_db :: "refdec run_row list \<Rightarrow> refdec research_db" where
  "demo_db runs = \<lparr>db_experiments = [\<lparr>xrow_id = 5, xrow_tenant_id = 1, xrow_project_id = 2, xrow_name = ''llm''\<rparr>],
     db_runs = runs, db_costs = [(demo_row_of 7 ''h1'' 150)\<lparr>row_run_id := Some 20\<rparr>, demo_row_of 8 ''h2'' 175]\<rparr>"

definition demo_run_row :: "string \<Rightarrow> datetime option \<Rightarrow> string \<Rightarrow> refdec run_row" where
  "demo_run_row st e cap = \<lparr>rrow_id = 20, rrow_tenant_id = 1, rrow_experiment_id = 5, rrow_external_source = ''wandb'',
     rrow_external_id = ''acme/llm/abc'', rrow_status = st, rrow_started_at = 3, rrow_ended_at = e,
     rrow_attributed_cost = Dec 0 0, rrow_currency = ''USD'', rrow_function_code = ''RND'',
     rrow_capitalization_status = cap\<rparr>"

lemma usd_iso [simp]: "iso4217_code ''USD''"
  by code_simp

lemma demo_runs_ok:
  "runs_ok (demo_db [])"
  "runs_ok (demo_db [demo_run_row ''finished'' (Some 5) ''CAPITALIZED''])"
  "runs_ok (demo_db [demo_run_row ''running'' None ''PENDING_REVIEW''])"
  by (simp_all add: runs_ok_def demo_db_def run_checks_def demo_run_row_def)

lemma demo_insert_run:
  "upsert_run plain_codec good_session (wandb_run 20 Running None) (demo_db []) =
     (Ok (Inserted (RunId 20)), demo_db [demo_run_row ''running'' None ''PENDING_REVIEW''])"
  by (simp add: upsert_run_def upsert_run_tx_def bind_run_def wandb_run_def plain_codec_def good_session_def
      begin_tenant_tx_def insert_run_def run_checks_def demo_db_def demo_run_row_def)

section \<open>Identity of a W\&B run\<close>

lemma split_first: "c \<notin> set xs \<Longrightarrow> c \<notin> set ys \<Longrightarrow> xs @ c # as = ys @ c # bs \<longleftrightarrow> xs = ys \<and> as = bs"
proof (induction xs arbitrary: ys)
  case Nil
  then show ?case by (cases ys) auto
next
  case (Cons x xs)
  then show ?case by (cases ys) auto
qed

lemma wandb_external_id_Ok:
  "wandb_external_id p = Ok x \<longleftrightarrow> (\<exists>e q i. optional_str p ''entity'' = Some e \<and> optional_str p ''project'' = Some q \<and>
     optional_str p ''id'' = Some i \<and> x = e @ CHR 0x2F # q @ CHR 0x2F # i)"
  by (auto simp: wandb_external_id_def optional_str_field)

text \<open>
  C25: the identity of a W\&B run is its entity, project and run id together: as long as entity
  and project contain no slash, two payloads get the same external reference exactly when
  they agree on the three, whichever connector normalized them.
\<close>

theorem wandb_identity_injective:
  assumes "wandb_normalize D X self i raw = Ok run" "wandb_normalize D X' self' i' raw' = Ok run'"
    "\<And>name s. name \<in> {''entity'', ''project''} \<Longrightarrow>
      optional_str (rr_payload raw) name = Some s \<or> optional_str (rr_payload raw') name = Some s \<Longrightarrow> CHR 0x2F \<notin> set s"
  shows "r_external_ref run = r_external_ref run' \<longleftrightarrow>
    (\<forall>name\<in>{''entity'', ''project'', ''id''}. optional_str (rr_payload raw) name = optional_str (rr_payload raw') name)"
proof -
  have ext: "wandb_external_id (rr_payload raw) = Ok (xr_external_id (r_external_ref run)) \<and>
      xr_source (r_external_ref run) = Wandb"
    if "wandb_normalize D X self i raw = Ok run" for X self i raw and run :: "'a run"
    using that unfolding wandb_normalize_def Let_def by (auto simp: external_ref_new_def)
  from ext [OF assms(1)] ext [OF assms(2)]
  obtain e q w e' q' w' where
    a: "optional_str (rr_payload raw) ''entity'' = Some e" "optional_str (rr_payload raw) ''project'' = Some q"
      "optional_str (rr_payload raw) ''id'' = Some w"
      "xr_external_id (r_external_ref run) = e @ CHR 0x2F # q @ CHR 0x2F # w" and
    b: "optional_str (rr_payload raw') ''entity'' = Some e'" "optional_str (rr_payload raw') ''project'' = Some q'"
      "optional_str (rr_payload raw') ''id'' = Some w'"
      "xr_external_id (r_external_ref run') = e' @ CHR 0x2F # q' @ CHR 0x2F # w'"
    unfolding wandb_external_id_Ok by blast
  have n: "CHR 0x2F \<notin> set e" "CHR 0x2F \<notin> set e'" "CHR 0x2F \<notin> set q" "CHR 0x2F \<notin> set q'"
    using assms(3) a b by blast+
  have "r_external_ref run = r_external_ref run' \<longleftrightarrow>
      xr_external_id (r_external_ref run) = xr_external_id (r_external_ref run')"
    using ext [OF assms(1)] ext [OF assms(2)] by auto
  also have "\<dots> \<longleftrightarrow> e = e' \<and> q = q' \<and> w = w'" unfolding a(4) b(4) split_first [OF n(1,2)] split_first [OF n(3,4)] ..
  finally show ?thesis using a b by simp
qed

theorem wandb_identity_injective_witness:
  "r_external_ref (wandb_run 20 Finished (Some 5)) = r_external_ref (wandb_run 21 Running None) \<longleftrightarrow>
    (\<forall>name\<in>{''entity'', ''project'', ''id''}. optional_str (rr_payload (wandb_payload ''llm'' ''finished'')) name =
      optional_str (rr_payload (wandb_payload ''llm'' ''Running'')) name)"
proof (rule wandb_identity_injective [OF wandb_demo_runs])
  fix name s assume "name \<in> {''entity'', ''project''}"
    "optional_str (rr_payload (wandb_payload ''llm'' ''finished'')) name = Some s \<or>
     optional_str (rr_payload (wandb_payload ''llm'' ''Running'')) name = Some s"
  moreover have "optional_str (rr_payload (wandb_payload ''llm'' st)) ''entity'' = Some ''acme''"
    "optional_str (rr_payload (wandb_payload ''llm'' st)) ''project'' = Some ''llm''" for st by code_simp+
  ultimately show "CHR 0x2F \<notin> set s" by auto
qed

section \<open>The store\<close>

text \<open>
  C26: delivering a run again, under whatever fresh identifier, changes nothing and returns the
  identifier of the first delivery: one training job is one row.
\<close>

theorem redelivered_run_unchanged:
  assumes "runs_ok db" "upsert_run P S run db = (Ok out, db')" "healthy S'"
  shows "upsert_run P S' (run\<lparr>r_id := j\<rparr>) db' = (Ok (Unchanged (upserted_run_id out)), db')"
proof -
  let ?run = "run\<lparr>r_id := j\<rparr>"
  obtain r row where u: "bind_run P run = Ok r" "insert_run r db = Ok (row, db')"
    "run_row_at db' (identity_of run) = Some (merge_run (run_row_at db (identity_of run)) r)"
    "out = (case run_row_at db (identity_of run) of None \<Rightarrow> Inserted (r_id run)
       | Some old \<Rightarrow> if run_changed old r then Updated (RunId (rrow_id old)) else Unchanged (RunId (rrow_id old)))"
    using upsert_run_Ok [OF assms(2,1)] by blast
  let ?r = "r\<lparr>rrow_id := run_as_uuid j\<rparr>" and ?m = "merge_run (run_row_at db (identity_of run)) r"
  have b: "bind_run P ?run = Ok ?r" "rrow_id r = run_as_uuid (r_id run)" using u(1) by (auto simp: bind_run_def)
  have k: "run_key ?r = identity_of run" using bind_run_key [OF b(1)] by (simp add: identity_of_def)
  have "run_checks r" using u(2) by (cases rule: insert_run_cases) auto
  then have c: "run_checks ?r" by (simp add: run_checks_def split: option.splits)
  have nc: "\<not> run_changed ?m ?r"
    by (cases "run_row_at db (identity_of run)") (simp_all add: merge_run_def run_changed_def)
  have i: "RunId (rrow_id ?m) = upserted_run_id out"
    unfolding u(4) by (cases "run_row_at db (identity_of run)") (simp_all add: merge_run_def b(2))
  have ok': "runs_ok db'" using insert_run_ok [OF u(2) assms(1)] by blast
  have "insert_run ?r db' = Ok (None, db')"
    using c nc u(3) by (simp add: insert_run_def k run_row_at_def)
  moreover have "find (\<lambda>x. rrow_external_source x = tracker_as_str (xr_source (r_external_ref ?run)) \<and>
      rrow_external_id x = xr_external_id (r_external_ref ?run)) (visible_runs (r_tenant_id ?run) db') = Some ?m"
    by (rule select_unchanged [OF _ ok']) (use u(3) in \<open>simp add: identity_of_def\<close>)
  ultimately show ?thesis using assms(3) b(1) i begin_healthy [OF assms(3)]
    by (simp add: upsert_run_def upsert_run_tx_def healthy_def del: begin_healthy)
qed

theorem redelivered_run_unchanged_witness:
  "upsert_run plain_codec good_session (wandb_run 21 Running None) (demo_db [demo_run_row ''running'' None ''PENDING_REVIEW'']) =
     (Ok (Unchanged (RunId 20)), demo_db [demo_run_row ''running'' None ''PENDING_REVIEW''])"
  using redelivered_run_unchanged [OF demo_runs_ok(1) demo_insert_run good_session_healthy, of "RunId 21"]
  by (simp add: wandb_run_def)

text \<open>
  C27: a run's upsert keeps the table's constraints and touches no other run. The run itself
  keeps its identifier, its experiment and its attributed cost; on failure nothing changes.
\<close>

theorem upsert_run_invariant:
  assumes "runs_ok db" "upsert_run P S run db = (res, db')"
  shows "runs_ok db' \<and> (case res of
      Ok out \<Rightarrow> db_costs db' = db_costs db \<and>
        length (db_runs db') = length (db_runs db) + (if upsert_is_new out then 1 else 0) \<and>
        (\<forall>k. k \<noteq> identity_of run \<longrightarrow> run_row_at db' k = run_row_at db k) \<and>
        (\<exists>y. run_row_at db' (identity_of run) = Some y \<and> RunId (rrow_id y) = upserted_run_id out \<and>
          (case run_row_at db (identity_of run) of
             None \<Rightarrow> upsert_is_new out
           | Some old \<Rightarrow> \<not> upsert_is_new out \<and> rrow_id y = rrow_id old \<and> rrow_experiment_id y = rrow_experiment_id old \<and>
               rrow_attributed_cost y = rrow_attributed_cost old \<and> rrow_currency y = rrow_currency old))
    | _ \<Rightarrow> db' = db)"
proof (cases res)
  case (Ok out)
  obtain r row where u: "bind_run P run = Ok r" "insert_run r db = Ok (row, db')"
    "run_row_at db' (identity_of run) = Some (merge_run (run_row_at db (identity_of run)) r)"
    "out = (case run_row_at db (identity_of run) of None \<Rightarrow> Inserted (r_id run)
       | Some old \<Rightarrow> if run_changed old r then Updated (RunId (rrow_id old)) else Unchanged (RunId (rrow_id old)))"
    "upsert_is_new out \<longleftrightarrow> (\<exists>i. row = Some (i, True))"
    using upsert_run_Ok [OF assms(2) [unfolded Ok] assms(1)] by blast
  have k: "run_key r = identity_of run" by (rule bind_run_key [OF u(1)])
  have i: "RunId (rrow_id r) = r_id run" using u(1) by (auto simp: bind_run_def)
  have o: "\<forall>k. k \<noteq> identity_of run \<longrightarrow> run_row_at db' k = run_row_at db k"
    using insert_run_row [OF u(2) assms(1)] k by simp
  show ?thesis
    using insert_run_ok [OF u(2) assms(1)] o i
    unfolding Ok u(3) res.case u(5) [symmetric]
    by (cases "run_row_at db (identity_of run)") (simp_all add: u(4) merge_run_def)
qed (use assms in \<open>auto simp: upsert_run_def split: res.splits\<close>)

theorem upsert_run_invariant_witness:
  "runs_ok (demo_db [demo_run_row ''running'' None ''PENDING_REVIEW'']) \<and>
   (\<exists>y. run_row_at (demo_db [demo_run_row ''running'' None ''PENDING_REVIEW'']) (identity_of (wandb_run 20 Running None)) = Some y \<and>
     RunId (rrow_id y) = RunId 20)"
  using upsert_run_invariant [OF demo_runs_ok(1) demo_insert_run] by auto

text \<open>
  A tracker redelivery overwrites the accounting decision on a run. Normalization always
  writes \<open>PENDING_REVIEW\<close>, and the conflict clause of the upsert copies it, so a run whose
  cost was capitalized is under review again after the next poll.
\<close>

theorem redelivery_resets_capitalization:
  assumes "runs_ok db" "wandb_normalize D X self i raw = Ok run"
    "run_row_at db (identity_of run) = Some old" "rrow_capitalization_status old = ''CAPITALIZED''"
    "upsert_run P S run db = (Ok out, db')"
  shows "out = Updated (RunId (rrow_id old)) \<and>
    (\<exists>y. run_row_at db' (identity_of run) = Some y \<and> rrow_id y = rrow_id old \<and>
       rrow_capitalization_status y = ''PENDING_REVIEW'')"
proof -
  obtain r row where u: "bind_run P run = Ok r"
    "run_row_at db' (identity_of run) = Some (merge_run (run_row_at db (identity_of run)) r)"
    "out = (case run_row_at db (identity_of run) of None \<Rightarrow> Inserted (r_id run)
       | Some old \<Rightarrow> if run_changed old r then Updated (RunId (rrow_id old)) else Unchanged (RunId (rrow_id old)))"
    using upsert_run_Ok [OF assms(5,1)] by blast
  have "r_capitalization_status run = PendingReview"
    using assms(2) unfolding wandb_normalize_def Let_def by auto
  then have "rrow_capitalization_status r = ''PENDING_REVIEW''" using u(1) by (auto simp: bind_run_def)
  with u assms(3,4) show ?thesis by (simp add: merge_run_def run_changed_def)
qed

lemma demo_redelivery:
  "\<exists>out db'. upsert_run plain_codec good_session (wandb_run 21 Finished (Some 5))
     (demo_db [demo_run_row ''finished'' (Some 5) ''CAPITALIZED'']) = (Ok out, db')"
  by (simp add: upsert_run_def upsert_run_tx_def bind_run_def wandb_run_def plain_codec_def good_session_def
      begin_tenant_tx_def insert_run_def run_checks_def demo_db_def demo_run_row_def run_key_def run_changed_def)

theorem redelivery_resets_capitalization_witness:
  "\<exists>db'. upsert_run plain_codec good_session (wandb_run 21 Finished (Some 5))
      (demo_db [demo_run_row ''finished'' (Some 5) ''CAPITALIZED'']) = (Ok (Updated (RunId 20)), db') \<and>
    (\<exists>y. run_row_at db' (1, ''wandb'', ''acme/llm/abc'') = Some y \<and> rrow_capitalization_status y = ''PENDING_REVIEW'')"
proof -
  let ?old = "demo_run_row ''finished'' (Some 5) ''CAPITALIZED''"
  have i: "identity_of (wandb_run 21 Finished (Some 5)) = (1, ''wandb'', ''acme/llm/abc'')"
    by (simp add: identity_of_def wandb_run_def)
  have "run_row_at (demo_db [?old]) (identity_of (wandb_run 21 Finished (Some 5))) = Some ?old"
    "rrow_capitalization_status ?old = ''CAPITALIZED''" "rrow_id ?old = 20"
    unfolding i by (simp_all add: run_row_at_def demo_db_def run_key_def demo_run_row_def)
  with redelivery_resets_capitalization [OF demo_runs_ok(2) wandb_demo_runs(1) _ _, of 21 ?old] demo_redelivery
  show ?thesis unfolding i by fastforce
qed

section \<open>Cost per run\<close>

definition sum_exact :: "('d \<Rightarrow> rat) \<Rightarrow> ('d list \<Rightarrow> (string, 'd option) res) \<Rightarrow> bool" where
  "sum_exact val pgsum \<longleftrightarrow> (\<forall>ds tot. pgsum ds = Ok tot \<longrightarrow>
     (case tot of None \<Rightarrow> ds = [] | Some d \<Rightarrow> val d = (\<Sum>x\<leftarrow>ds. val x)))"

lemma find_id:
  "runs_ok db \<Longrightarrow> old \<in> set (db_runs db) \<Longrightarrow> rrow_tenant_id old = tenant_as_uuid t \<Longrightarrow>
   find (\<lambda>r. rrow_id r = rrow_id old) (visible_runs t db) = Some old"
  using find_key_iff [of rrow_id "visible_runs t db" "rrow_id old" old]
  by (simp add: runs_ok_def visible_runs_def distinct_map_filter)

lemma refresh_healthy:
  assumes "healthy S" "find (\<lambda>r. rrow_id r = i) (visible_runs t db) = Some old"
    "currency_from_code (rrow_currency old) = Some c" "pgsum (run_costs t db i (rrow_currency old)) = Ok tot"
    "pg_numeric P (case tot of None \<Rightarrow> dec_zero D | Some d \<Rightarrow> d) = Some n"
  shows "refresh_attributed_cost D P pgsum S db t (RunId i) =
    (Ok (money_new (case tot of None \<Rightarrow> dec_zero D | Some d \<Rightarrow> d) c),
     db\<lparr>db_runs := map (\<lambda>r. if rrow_id r = i \<and> rrow_tenant_id r = tenant_as_uuid t
       then r\<lparr>rrow_attributed_cost := n\<rparr> else r) (db_runs db)\<rparr>)"
  using assms(2-5) assms(1) [unfolded healthy_def] begin_healthy [OF assms(1)]
  by (simp add: refresh_attributed_cost_def refresh_tx_def Let_def money_new_def del: begin_healthy)

text \<open>What the statement sums: the tenant's cost events of the run, in the run's currency.\<close>

lemma summed_value:
  assumes "decimal_laws D val" "sum_exact val pgsum" "pgsum (run_costs t db i ccy) = Ok tot"
  shows "val (case tot of None \<Rightarrow> dec_zero D | Some d \<Rightarrow> d) =
    (\<Sum>e\<leftarrow>filter (\<lambda>e. row_tenant_id e = tenant_as_uuid t \<and> row_run_id e = Some i \<and> row_currency e = ccy)
      (db_costs db). val (row_effective_cost e))"
proof -
  have "val (case tot of None \<Rightarrow> dec_zero D | Some d \<Rightarrow> d) = (\<Sum>x\<leftarrow>run_costs t db i ccy. val x)"
  proof (cases tot)
    case None
    then have "run_costs t db i ccy = []" using assms(2,3) by (fastforce simp: sum_exact_def)
    then show ?thesis using None decimal_laws.val_zero [OF assms(1)] by simp
  next
    case (Some d)
    then show ?thesis using assms(2,3) by (fastforce simp: sum_exact_def)
  qed
  also have "\<dots> = (\<Sum>e\<leftarrow>filter (\<lambda>e. row_tenant_id e = tenant_as_uuid t \<and> row_run_id e = Some i \<and>
      row_currency e = ccy) (db_costs db). val (row_effective_cost e))"
    by (simp add: run_costs_def visible_def conj_ac comp_def)
  finally show ?thesis .
qed

text \<open>
  C28: the refreshed cost of a run is the exact sum of the effective costs of the tenant's cost
  events that carry the run and are in its currency; the run's row is stored with that amount,
  as the column writes it, and is otherwise as it was; recomputing it again changes nothing;
  and no other run is touched.
\<close>

theorem refresh_cost_exact:
  assumes "decimal_laws D val" "runs_ok db" "healthy S" "healthy S'" "sum_exact val pgsum"
    "old \<in> set (db_runs db)" "rrow_tenant_id old = tenant_as_uuid t"
    "currency_from_code (rrow_currency old) = Some c"
    "pgsum (run_costs t db (rrow_id old) (rrow_currency old)) = Ok tot"
    "pg_numeric P (case tot of None \<Rightarrow> dec_zero D | Some d \<Rightarrow> d) = Some n"
  shows "\<exists>m db'. refresh_attributed_cost D P pgsum S db t (RunId (rrow_id old)) = (Ok m, db') \<and> currency m = c \<and>
    val (amount m) = (\<Sum>e\<leftarrow>filter (\<lambda>e. row_tenant_id e = tenant_as_uuid t \<and> row_run_id e = Some (rrow_id old) \<and>
      row_currency e = rrow_currency old) (db_costs db). val (row_effective_cost e)) \<and>
    pg_numeric P (amount m) = Some n \<and>
    (\<forall>r. rrow_id r = rrow_id old \<longrightarrow> r \<in> set (db_runs db') \<longleftrightarrow> r = old\<lparr>rrow_attributed_cost := n\<rparr>) \<and>
    refresh_attributed_cost D P pgsum S' db' t (RunId (rrow_id old)) = (Ok m, db') \<and>
    (\<forall>r. rrow_id r \<noteq> rrow_id old \<longrightarrow> r \<in> set (db_runs db') \<longleftrightarrow> r \<in> set (db_runs db))"
proof -
  let ?i = "rrow_id old"
  let ?d = "case tot of None \<Rightarrow> dec_zero D | Some d \<Rightarrow> d"
  let ?g = "\<lambda>r. if rrow_id r = ?i \<and> rrow_tenant_id r = tenant_as_uuid t then r\<lparr>rrow_attributed_cost := n\<rparr> else r"
  let ?db' = "db\<lparr>db_runs := map ?g (db_runs db)\<rparr>"
  have f: "find (\<lambda>r. rrow_id r = ?i) (visible_runs t db) = Some old" by (rule find_id [OF assms(2,6,7)])
  note r1 = refresh_healthy [where pgsum = pgsum and P = P and D = D, OF assms(3) f assms(8) _ assms(10), OF assms(9)]
  have "visible_runs t ?db' = map ?g (visible_runs t db)"
  proof -
    have "filter (\<lambda>r. rrow_tenant_id r = u) (map ?g xs) = map ?g (filter (\<lambda>r. rrow_tenant_id r = u) xs)" for u xs
      by (induction xs) auto
    then show ?thesis by (simp add: visible_runs_def)
  qed
  then have f': "find (\<lambda>r. rrow_id r = ?i) (visible_runs t ?db') = Some (?g old)"
    using f find_map_same [of rrow_id ?g ?i "visible_runs t db"] by simp
  have c': "currency_from_code (rrow_currency (?g old)) = Some c"
      "pgsum (run_costs t ?db' ?i (rrow_currency (?g old))) = Ok tot"
    using assms(8,9) by (simp_all add: run_costs_def)
  have g2: "map ?g (map ?g xs) = map ?g xs" for xs by simp
  have r2: "refresh_attributed_cost D P pgsum S' ?db' t (RunId ?i) = (Ok (money_new ?d c), ?db')"
    using refresh_healthy [where pgsum = pgsum and P = P and D = D, OF assms(4) f' c'(1) _ assms(10), OF c'(2)] by (simp add: comp_def cong: map_cong)
  note v = summed_value [OF assms(1,5,9)]
  have o: "\<forall>r. rrow_id r \<noteq> ?i \<longrightarrow> r \<in> set (db_runs ?db') \<longleftrightarrow> r \<in> set (db_runs db)"
    by (auto simp: image_iff)
  have one: "r = old" if "r \<in> set (db_runs db)" "rrow_id r = ?i" for r
    using assms(2,6) that inj_onD [of rrow_id "set (db_runs db)" r old] by (simp add: runs_ok_def distinct_map)
  have w: "\<forall>r. rrow_id r = ?i \<longrightarrow> r \<in> set (db_runs ?db') \<longleftrightarrow> r = old\<lparr>rrow_attributed_cost := n\<rparr>"
  proof (intro allI impI iffI)
    fix r assume i: "rrow_id r = ?i" and "r \<in> set (db_runs ?db')"
    then obtain x where x: "x \<in> set (db_runs db)" "r = ?g x" by auto
    then have "x = old" using one [of x] i by (simp split: if_splits)
    with x assms(7) show "r = old\<lparr>rrow_attributed_cost := n\<rparr>" by simp
  next
    fix r assume "r = old\<lparr>rrow_attributed_cost := n\<rparr>"
    then have "r = ?g old" using assms(7) by simp
    with assms(6) show "r \<in> set (db_runs ?db')" by auto
  qed
  show ?thesis
    by (rule exI [of _ "money_new ?d c"], rule exI [of _ ?db'])
      (use r1 r2 v o w assms(10) in \<open>simp add: money_new_def\<close>)
qed

definition ref_plus :: "refdec \<Rightarrow> refdec \<Rightarrow> refdec" where
  "ref_plus a b = Dec (mant a * 10 ^ scale b + mant b * 10 ^ scale a) (scale a + scale b)"

definition ref_sum :: "refdec list \<Rightarrow> (string, refdec option) res" where
  "ref_sum ds = Ok (if ds = [] then None else Some (foldr ref_plus ds (Dec 0 0)))"

lemma ref_sum_exact: "sum_exact ref_val ref_sum"
proof -
  have p: "ref_val (ref_plus a b) = ref_val a + ref_val b" for a b
    by (simp add: ref_plus_def ref_val_def field_simps power_add)
  have "ref_val (foldr ref_plus ds (Dec 0 0)) = (\<Sum>x\<leftarrow>ds. ref_val x)" for ds
    by (induction ds) (simp_all add: p, simp add: ref_val_def)
  then show ?thesis by (auto simp: sum_exact_def ref_sum_def)
qed

theorem refresh_cost_exact_witness:
  "\<exists>m db'. refresh_attributed_cost ref_ops plain_codec ref_sum good_session
      (demo_db [demo_run_row ''running'' None ''PENDING_REVIEW'']) (TenantId 1) (RunId 20) = (Ok m, db') \<and>
    currency m = Usd \<and> ref_val (amount m) = 3 / 2"
proof -
  let ?old = "demo_run_row ''running'' None ''PENDING_REVIEW''"
  let ?db = "demo_db [?old]"
  have f: "row_tenant_id (demo_row_of j h x) = 1" "row_run_id (demo_row_of j h x) = None"
      "row_currency (demo_row_of j h x) = ''USD''" "row_effective_cost (demo_row_of j h x) = Dec x 2" for j h x
    by (simp_all add: demo_row_of_def bind_row_def Let_def plain_codec_def demo_event_def dimensions_new_def
        event_currency_def money_new_def)
  have m: "?old \<in> set (db_runs ?db)" "rrow_tenant_id ?old = tenant_as_uuid (TenantId 1)"
      "currency_from_code (rrow_currency ?old) = Some Usd" "rrow_id ?old = 20" "rrow_currency ?old = ''USD''"
    using ccode.round_trip [of Usd] by (simp_all add: demo_db_def demo_run_row_def)
  have "\<exists>tot. ref_sum (run_costs (TenantId 1) ?db (rrow_id ?old) (rrow_currency ?old)) = Ok tot"
    by (simp add: ref_sum_def)
  then obtain tot where t: "ref_sum (run_costs (TenantId 1) ?db (rrow_id ?old) (rrow_currency ?old)) = Ok tot" ..
  have "pg_numeric plain_codec x = Some x" for x by (simp add: plain_codec_def)
  from refresh_cost_exact [OF ref_laws demo_runs_ok(3) good_session_healthy good_session_healthy ref_sum_exact m(1-3) t this]
  show ?thesis unfolding m(4,5) by (auto simp: demo_db_def f ref_val_def)
qed

end
