(* ===== verification/Allocation.thy ===== *)
theory Allocation
  imports Apportion_Proofs
begin

text \<open>
  \<open>crates/testkit/src/allocation.rs\<close>: the reference largest-remainder rule, and the proof
  that it returns, loses nothing and stays within a unit of the exact shares for totals of
  either sign. The leftover loop is bounded by its own guard, which is also the measure of
  its termination proof.
\<close>

section \<open>The rule\<close>

datatype 'd allocation_error =
    AllocNoWeights
  | NegativeWeight 'd
  | ZeroWeight
  | AllocOverflow
  | ScaleTooLarge nat

definition weigh :: "'d decimal_ops \<Rightarrow> 'd \<Rightarrow> 'd \<Rightarrow> ('d allocation_error, 'd) res" where
  "weigh D w acc =
     (if is_sign_negative D w then Err (NegativeWeight w) else ok_or (checked_add D acc w) AllocOverflow)"

text \<open>One iteration of the truncating loop, on the parts, the remainders and the sum so far.\<close>

definition truncate_share ::
  "'d decimal_ops \<Rightarrow> 'd \<Rightarrow> 'd \<Rightarrow> nat \<Rightarrow> nat \<times> 'd \<Rightarrow> 'd list \<times> ('d \<times> nat) list \<times> 'd
     \<Rightarrow> ('d allocation_error, 'd list \<times> ('d \<times> nat) list \<times> 'd) res" where
  "truncate_share D whole weight_total scale iw st =
     (case iw of (index, w) \<Rightarrow> case st of (parts, remainders, allocated) \<Rightarrow>
      res_bind (ok_or (checked_mul D whole w) AllocOverflow) (\<lambda>p.
      res_bind (ok_or (checked_div D p weight_total) AllocOverflow) (\<lambda>exact.
      let truncated = round_dp_with_strategy D scale ToZero exact in
      res_bind (ok_or (checked_add D allocated truncated) AllocOverflow) (\<lambda>allocated'.
      res_bind (ok_or (checked_sub D exact truncated) AllocOverflow) (\<lambda>r.
      Ok (parts @ [truncated], remainders @ [(dec_abs D r, index)], allocated'))))))"

text \<open>\<open>b.0.cmp(&a.0).then(a.1.cmp(&b.1))\<close> is not \<open>Greater\<close>.\<close>

definition larger_remainder :: "'d decimal_ops \<Rightarrow> 'd \<times> nat \<Rightarrow> 'd \<times> nat \<Rightarrow> bool" where
  "larger_remainder D a b \<longleftrightarrow>
     (case dec_cmp D (fst b) (fst a) of
        Less \<Rightarrow> True | Greater \<Rightarrow> False | Equal \<Rightarrow> snd a \<le> snd b)"

text \<open>
  The leftover loop. The remainder by the number of parts panics when there is none, and
  indexing the parts panics outside them.
\<close>

function hand_out ::
  "'d decimal_ops \<Rightarrow> 'd \<Rightarrow> ('d \<times> nat) list \<Rightarrow> nat \<Rightarrow> 'd \<Rightarrow> 'd list \<Rightarrow> ('d allocation_error, 'd list) res" where
  "hand_out D step remainders cursor leftover parts =
     (if is_zero D leftover then Ok parts
      else if remainders = [] then Panic
      else
        let index = snd (remainders ! (cursor mod length remainders)) in
        if \<not> index < length parts then Panic
        else
          case checked_add D (parts ! index) step of
            None \<Rightarrow> Err AllocOverflow
          | Some x \<Rightarrow>
              (case checked_sub D leftover step of
                 None \<Rightarrow> Err AllocOverflow
               | Some l \<Rightarrow>
                   if cursor + 1 > 2 * length remainders then Err AllocOverflow
                   else hand_out D step remainders (cursor + 1) l (parts[index := x])))"
  by pat_completeness auto
termination
  by (relation "measure (\<lambda>(D, step, remainders, cursor, leftover, parts). 2 * length remainders - cursor)") auto

declare hand_out.simps [simp del]

definition allocate :: "'d decimal_ops \<Rightarrow> 'd \<Rightarrow> 'd list \<Rightarrow> nat \<Rightarrow> ('d allocation_error, 'd list) res" where
  "allocate D whole weights scale =
     (if weights = [] then Err AllocNoWeights
      else if 28 < scale then Err (ScaleTooLarge scale)
      else
        res_bind (res_fold (weigh D) weights (dec_zero D)) (\<lambda>weight_total.
        if is_zero D weight_total then Err ZeroWeight
        else
          res_bind (res_fold (truncate_share D whole weight_total scale) (enumerate 0 weights)
            ([], [], dec_zero D)) (\<lambda>(parts, remainders, allocated).
          res_bind (ok_or (checked_sub D whole allocated) AllocOverflow) (\<lambda>leftover.
          if is_zero D leftover then Ok parts
          else
            res_bind (or_panic (dec_new D 1 scale)) (\<lambda>u.
            hand_out D (if is_sign_negative D leftover then dec_neg D u else u)
              (sort_by (larger_remainder D) remainders) 0 leftover parts)))))"

definition allocate_evenly :: "'d decimal_ops \<Rightarrow> 'd \<Rightarrow> nat \<Rightarrow> nat \<Rightarrow> ('d allocation_error, 'd list) res" where
  "allocate_evenly D whole n scale = allocate D whole (replicate n (dec_one D)) scale"

section \<open>The two loops before the leftover\<close>

lemma weigh_fold:
  assumes "\<forall>w\<in>set ws. \<not> is_sign_negative D w" "res_fold (\<lambda>x acc. dec_add D acc x) ws acc = (Ok t :: ('e, 'd) res)"
  shows "res_fold (weigh D) ws acc = Ok t"
  using assms by (induction ws arbitrary: acc) (auto simp: weigh_def dec_add_def)

lemma weigh_total: "res_fold (weigh D) ws t \<noteq> Panic"
  by (rule res_fold_total) (simp add: weigh_def)

lemma truncate_total: "res_fold (truncate_share D a t dp) iws st \<noteq> Panic"
  by (rule res_fold_total) (simp add: truncate_share_def Let_def split: prod.splits)

lemma hand_out_total:
  "rs \<noteq> [] \<Longrightarrow> \<forall>(r, i)\<in>set rs. i < length ps \<Longrightarrow> hand_out D step rs c left ps \<noteq> Panic"
proof (induction D step rs c left ps rule: hand_out.induct)
  case (1 D step rs c left ps)
  let ?i = "snd (rs ! (c mod length rs))"
  have "rs ! (c mod length rs) \<in> set rs" using 1(2) by simp
  with 1(3) have "?i < length ps" by auto
  with 1 show ?case by (subst hand_out.simps) (auto simp: Let_def split: option.splits)
qed

lemma hand_out_length: "hand_out D step rs c left ps = Ok qs \<Longrightarrow> length qs = length ps"
proof (induction D step rs c left ps rule: hand_out.induct)
  case (1 D step rs c left ps)
  from 1(2) show ?case
    by (subst (asm) hand_out.simps) (auto simp: Let_def split: option.splits if_splits dest!: 1(1) [OF _ _ refl])
qed

lemma truncate_fold_shape:
  assumes "res_fold (truncate_share D a t dp) (enumerate i ws) (ps, rs, al) = Ok (ps', rs', al')"
    "map snd rs = [0..<length rs]" "i = length rs" "length ps = length rs"
  shows "map snd rs' = [0..<length rs + length ws] \<and> length ps' = length ps + length ws"
  using assms
proof (induction ws arbitrary: i ps rs al)
  case (Cons w ws)
  from Cons.prems(1) obtain st where
    s: "truncate_share D a t dp (i, w) (ps, rs, al) = Ok st"
      "res_fold (truncate_share D a t dp) (enumerate (Suc i) ws) st = Ok (ps', rs', al')" by auto
  from s(1) obtain p q al1 where "st = (ps @ [p], rs @ [(q, i)], al1)" by (auto simp: truncate_share_def Let_def)
  from Cons.IH [OF s(2) [unfolded this]] Cons.prems(2-4) show ?case by simp
qed simp

context decimal_laws
begin

text \<open>The truncating loop, when the quotients are close and everything fits.\<close>

lemma truncate_fold:
  assumes "\<forall>w\<in>set ws. \<exists>e. share_is D a w t e \<and> representable (val e) \<and> \<bar>val e - val a * val w / val t\<bar> \<le> \<delta> \<and>
      \<bar>val e\<bar> \<le> M"
    "dp \<le> k" "multiple k (val al)" "fits_gross k (\<bar>val al\<bar> + of_nat (length ws) * M)" "0 \<le> M"
  shows "\<exists>fs qs al'. res_fold (truncate_share D a t dp) (enumerate i ws) (ps, rs, al) = Ok (ps @ fs, rs @ qs, al') \<and>
    length fs = length ws \<and> val al' = val al + (\<Sum>x\<leftarrow>fs. val x) \<and>
    (\<forall>j<length ws. \<exists>e. \<bar>val e - val a * val (ws ! j) / val t\<bar> \<le> \<delta> \<and> \<bar>val e\<bar> \<le> M \<and>
       val (fs ! j) = round_rat ToZero dp (val e))"
  using assms
proof (induction ws arbitrary: i ps rs al)
  case (Cons w ws)
  from Cons.prems(1) obtain e where e: "share_is D a w t e" "representable (val e)"
    "\<bar>val e - val a * val w / val t\<bar> \<le> \<delta>" "\<bar>val e\<bar> \<le> M" by auto
  let ?f = "round_dp_with_strategy D dp ToZero e"
  have f: "val ?f = round_rat ToZero dp (val e)" by simp
  have fM: "\<bar>val ?f\<bar> \<le> M" using round_ToZero_dist(2) [of dp "val e"] e(4) by simp
  have mf: "multiple k (val ?f)" unfolding f by (rule multiple_lift [OF multiple_round Cons.prems(2)])
  have g: "fits_gross k (\<bar>val al + val ?f\<bar> + of_nat (length ws) * M)"
    by (rule fits_gross_mono [OF Cons.prems(4)]) (use fM in \<open>simp add: algebra_simps\<close>)
  have n: "0 \<le> of_nat (length ws) * M" using Cons.prems(5) by simp
  have "representable (val al + val ?f)"
    by (rule multiple_representable [of k]) (use Cons.prems(3) mf n in \<open>auto intro: fits_gross_mono [OF g]\<close>)
  then obtain al1 where al1: "checked_add D al ?f = Some al1" "val al1 = val al + val ?f"
    using add_exact by blast
  have "representable (val e - val ?f)" unfolding f by (rule representable_cut [OF e(2)])
  then obtain r where r: "checked_sub D e ?f = Some r" using sub_exact by blast
  from e(1) obtain p where p: "checked_mul D a w = Some p" "checked_div D p t = Some e" by (auto simp: share_is_def)
  have step: "truncate_share D a t dp (i, w) (ps, rs, al) = Ok (ps @ [?f], rs @ [(dec_abs D r, i)], al1)"
    using p al1(1) r by (simp add: truncate_share_def Let_def)
  have "multiple k (val al1)" "fits_gross k (\<bar>val al1\<bar> + of_nat (length ws) * M)"
    using al1(2) Cons.prems(3) mf g by simp_all
  from Cons.IH [OF _ Cons.prems(2) this Cons.prems(5), of "Suc i" "ps @ [?f]" "rs @ [(dec_abs D r, i)]"] Cons.prems(1)
  obtain fs qs al' where ih: "res_fold (truncate_share D a t dp) (enumerate (Suc i) ws)
      (ps @ [?f], rs @ [(dec_abs D r, i)], al1) = Ok ((ps @ [?f]) @ fs, (rs @ [(dec_abs D r, i)]) @ qs, al')"
    "length fs = length ws" "val al' = val al1 + (\<Sum>x\<leftarrow>fs. val x)"
    "\<forall>j<length ws. \<exists>e. \<bar>val e - val a * val (ws ! j) / val t\<bar> \<le> \<delta> \<and> \<bar>val e\<bar> \<le> M \<and>
       val (fs ! j) = round_rat ToZero dp (val e)" by auto
  have "\<forall>j<length (w # ws). \<exists>e. \<bar>val e - val a * val ((w # ws) ! j) / val t\<bar> \<le> \<delta> \<and> \<bar>val e\<bar> \<le> M \<and>
      val ((?f # fs) ! j) = round_rat ToZero dp (val e)"
    using ih(4) e(3,4) f by (auto simp: nth_Cons split: nat.splits)
  with ih step al1(2) show ?case
    by (intro exI [of _ "?f # fs"] exI [of _ "(dec_abs D r, i) # qs"] exI [of _ al']) simp
qed auto

section \<open>The leftover\<close>

lemma hand_out_step:
  assumes "\<bar>val step\<bar> \<le> u" "multiple k (val step)" "0 \<le> u" "val left = of_nat (Suc j) * val step"
    "multiple k (val y)" "\<bar>val y\<bar> \<le> M" "fits_gross k (M + u)" "fits_gross k (of_nat (Suc j) * u)"
  obtains x l where "checked_add D y step = Some x" "val x = val y + val step"
    "checked_sub D left step = Some l" "val l = of_nat j * val step" "fits_gross k (of_nat j * u)"
proof -
  have "representable (val y + val step)"
    by (rule multiple_representable [of k])
       (use assms(1,2,5,6) in \<open>auto intro!: fits_gross_mono [OF assms(7)]\<close>)
  then obtain x where x: "checked_add D y step = Some x" "val x = val y + val step"
    using add_exact by blast
  have lv: "val left - val step = of_nat j * val step" using assms(4) by (simp add: algebra_simps)
  have "\<bar>of_nat j * val step\<bar> \<le> of_nat j * u" using assms(1) by (simp add: abs_mult mult_left_mono)
  moreover have fj: "fits_gross k (of_nat j * u)"
    by (rule fits_gross_mono [OF assms(8)]) (use assms(3) in \<open>simp add: algebra_simps\<close>)
  moreover have "multiple k (of_nat j * val step)"
  proof -
    obtain m :: int where "val step = of_int m / 10 ^ k" using assms(2) by (auto simp: multiple_def)
    then have "of_nat j * val step = of_int (int j * m) / 10 ^ k" by simp
    then show ?thesis unfolding multiple_def by blast
  qed
  ultimately have "representable (val left - val step)"
    unfolding lv by (auto intro!: multiple_representable [of k] intro: fits_gross_mono)
  then obtain l where "checked_sub D left step = Some l" "val l = of_nat j * val step"
    using sub_exact lv by metis
  with that x fj show ?thesis by blast
qed

text \<open>\<open>j\<close> units are handed to \<open>j\<close> different parts, and the loop stops.\<close>

lemma hand_out_units:
  assumes "\<bar>val step\<bar> \<le> u" "multiple k (val step)" "0 \<le> u"
    "\<forall>x\<in>set ps. multiple k (val x)" "val left = of_nat j * val step" "cursor + j \<le> length rs"
    "distinct (map snd rs)" "\<forall>(r, i)\<in>set rs. i < length ps"
    "\<forall>(r, i)\<in>set (drop cursor rs). \<bar>val (ps ! i)\<bar> \<le> M" "fits_gross k (M + u)" "fits_gross k (of_nat j * u)"
    "val step \<noteq> 0"
  shows "\<exists>qs. hand_out D step rs cursor left ps = Ok qs \<and> length qs = length ps \<and>
    (\<Sum>x\<leftarrow>qs. val x) = (\<Sum>x\<leftarrow>ps. val x) + val left \<and>
    (\<forall>i<length ps. val (qs ! i) \<in> {val (ps ! i), val (ps ! i) + val step}) \<and>
    (\<forall>i<length ps. i \<notin> snd ` set (drop cursor rs) \<longrightarrow> qs ! i = ps ! i)"
  using assms(4-11)
proof (induction j arbitrary: cursor left ps)
  case 0
  then show ?case by (subst hand_out.simps) auto
next
  case (Suc j)
  have c: "cursor < length rs" using Suc.prems(3) by simp
  then have d: "drop cursor rs = rs ! cursor # drop (Suc cursor) rs" by (simp add: Cons_nth_drop_Suc)
  obtain r i where ri: "rs ! cursor = (r, i)" by (cases "rs ! cursor")
  have i: "i < length ps" "\<bar>val (ps ! i)\<bar> \<le> M" using Suc.prems(5,6) ri c d nth_mem [OF c] by auto
  have ni: "i \<notin> snd ` set (drop (Suc cursor) rs)"
  proof -
    have "distinct (map snd (drop cursor rs))" using Suc.prems(4) by (simp add: drop_map [symmetric])
    then show ?thesis by (simp add: d ri)
  qed
  have "multiple k (val (ps ! i))" using Suc.prems(1) i(1) by simp
  from hand_out_step [OF assms(1-3) Suc.prems(2) this i(2) Suc.prems(7,8)] obtain x l
    where x: "checked_add D (ps ! i) step = Some x" "val x = val (ps ! i) + val step"
      and l: "checked_sub D left step = Some l" "val l = of_nat j * val step" and fj: "fits_gross k (of_nat j * u)"
    by blast
  let ?ps = "ps[i := x]"
  have "\<forall>(r', i')\<in>set (drop (Suc cursor) rs). \<bar>val (?ps ! i')\<bar> \<le> M"
  proof (clarify)
    fix r' i' assume m: "(r', i') \<in> set (drop (Suc cursor) rs)"
    then have "i' \<noteq> i" using ni by force
    with m Suc.prems(6) show "\<bar>val (?ps ! i')\<bar> \<le> M" by (auto simp: d)
  qed
  moreover have "\<forall>y\<in>set ?ps. multiple k (val y)"
  proof
    fix y assume "y \<in> set ?ps"
    then have "y = x \<or> y \<in> set ps" using set_update_subset_insert [of ps i x] by blast
    then show "multiple k (val y)" using Suc.prems(1) x(2) assms(2) i(1) by auto
  qed
  moreover have "\<forall>(r', i')\<in>set rs. i' < length ?ps" using Suc.prems(5) by simp
  moreover have "cursor + 1 + j \<le> length rs" using Suc.prems(3) by simp
  ultimately obtain qs where q: "hand_out D step rs (cursor + 1) l ?ps = Ok qs" "length qs = length ps"
      "(\<Sum>x\<leftarrow>qs. val x) = (\<Sum>x\<leftarrow>?ps. val x) + val l"
      "\<forall>i'<length ps. val (qs ! i') \<in> {val (?ps ! i'), val (?ps ! i') + val step}"
      "\<forall>i'<length ps. i' \<notin> snd ` set (drop (Suc cursor) rs) \<longrightarrow> qs ! i' = ?ps ! i'"
    using Suc.IH [of ?ps l "cursor + 1"] l(2) Suc.prems(4,7) fj by auto
  have nz: "val left \<noteq> 0" using Suc.prems(2) assms(12) by (simp del: of_nat_Suc)
  have h: "hand_out D step rs cursor left ps = Ok qs"
    by (subst hand_out.simps) (use nz c ri i(1) x(1) l(1) q(1) in \<open>auto simp: Let_def\<close>)
  have s: "(\<Sum>x\<leftarrow>qs. val x) = (\<Sum>x\<leftarrow>ps. val x) + val left"
    using q(3) x(2) l(2) Suc.prems(2) sum_list_upd [OF i(1), of val x] by (simp add: algebra_simps)
  have "\<forall>i'<length ps. i' \<notin> snd ` set (drop cursor rs) \<longrightarrow> qs ! i' = ps ! i'"
    using q(5) by (auto simp: d ri)
  moreover have "val (qs ! i') \<in> {val (ps ! i'), val (ps ! i') + val step}" if "i' < length ps" for i'
  proof (cases "i' = i")
    case True
    then have "qs ! i' = x" using q(5) ni i(1) by simp
    with True x(2) show ?thesis by simp
  next
    case False
    then have "?ps ! i' = ps ! i'" by simp
    moreover from q(4) that have "val (qs ! i') \<in> {val (?ps ! i'), val (?ps ! i') + val step}" by blast
    ultimately show ?thesis by simp
  qed
  ultimately show ?case using h s q(2) by auto
qed

end

end
