(* ===== verification/Allocation_Properties.thy ===== *)
theory Allocation_Properties
  imports Allocation Pricing_Properties
begin

text \<open>Properties of the reference allocation rule, with their witnesses.\<close>

section \<open>Every total is handed out\<close>

text \<open>The truncations of a total of either sign leave a whole number of signed units.\<close>

lemma signed_leftover:
  fixes x f :: "nat \<Rightarrow> rat"
  assumes "s = 1 \<or> s = - 1" "\<forall>i<n. 0 \<le> s * x i" "\<forall>i<n. \<exists>e. \<bar>e - x i\<bar> \<le> \<delta> \<and> f i = round_rat ToZero dp e" "0 < n"
    "multiple dp (\<Sum>i<n. x i)" "of_nat n * \<delta> < minor_unit dp"
  obtains j where "j \<le> n" "(\<Sum>i<n. x i) - (\<Sum>i<n. f i) = of_nat j * (s * minor_unit dp)"
proof -
  have r: "\<forall>i<n. \<exists>e. \<bar>e - s * x i\<bar> \<le> \<delta> \<and> s * f i = round_rat ToZero dp e"
  proof (intro allI impI)
    fix i assume "i < n"
    with assms(3) obtain e where e: "\<bar>e - x i\<bar> \<le> \<delta>" "f i = round_rat ToZero dp e" by blast
    have "\<bar>s * e - s * x i\<bar> = \<bar>e - x i\<bar>" using assms(1) by auto
    moreover have "s * f i = round_rat ToZero dp (s * e)" using assms(1) e(2) by (auto simp: round_rat_ToZero_neg)
    ultimately show "\<exists>e. \<bar>e - s * x i\<bar> \<le> \<delta> \<and> s * f i = round_rat ToZero dp e"
      using e(1) by (intro exI [of _ "s * e"]) simp
  qed
  have "multiple dp (\<Sum>i<n. s * x i)"
    using assms(1,5) by (auto simp: sum_distrib_left [symmetric])
  from truncated_leftover [OF assms(2) r assms(4) this assms(6)] obtain j where
    j: "j \<le> n" "s * ((\<Sum>i<n. x i) - (\<Sum>i<n. f i)) = of_nat j * minor_unit dp"
    by (auto simp: sum_distrib_left [symmetric] right_diff_distrib)
  have "(\<Sum>i<n. x i) - (\<Sum>i<n. f i) = of_nat j * (s * minor_unit dp)"
    using j(2) assms(1) by auto
  with j(1) that show ?thesis by blast
qed

lemma signed_near:
  assumes "s = 1 \<or> s = - 1" "0 \<le> s * (x :: rat)" "\<exists>e. \<bar>e - x\<bar> \<le> \<delta> \<and> f = round_rat ToZero dp e"
    "p \<in> {f, f + s * minor_unit dp}" "0 < minor_unit dp"
  shows "\<bar>p - x\<bar> \<le> minor_unit dp + \<delta>"
proof -
  from assms(3) obtain e where e: "\<bar>e - x\<bar> \<le> \<delta>" "f = round_rat ToZero dp e" by blast
  have "\<bar>s * e - s * x\<bar> \<le> \<delta>" "s * f = round_rat ToZero dp (s * e)"
    using assms(1) e by (auto simp: round_rat_ToZero_neg)
  with truncated_near(1,2) [of "s * e" "s * x" \<delta> dp] truncated_near(3) [of "s * e" "s * x" \<delta>] assms(2)
  have "s * x - \<delta> - minor_unit dp < s * f" "s * f \<le> s * x + \<delta>" "0 \<le> \<delta>" by simp_all
  moreover define u where "u = minor_unit dp"
  ultimately have "s * x - \<delta> - u < s * f" "s * f \<le> s * x + \<delta>" "0 \<le> \<delta>" "0 < u" "p = f \<or> p = f + s * u"
    using assms(4,5) by auto
  with assms(1) show ?thesis unfolding u_def [symmetric] by (auto simp: abs_le_iff)
qed

lemma exact_shares_sum:
  assumes "0 < (\<Sum>w\<leftarrow>ws. val w)"
  shows "(\<Sum>i<length ws. a * val (ws ! i) / (\<Sum>w\<leftarrow>ws. val w)) = (a :: rat)"
proof -
  have "(\<Sum>i<length ws. val (ws ! i)) = (\<Sum>w\<leftarrow>ws. val w)" by (simp add: sum_list_sum_nth atLeast0LessThan)
  then have "(\<Sum>i<length ws. a * val (ws ! i) / (\<Sum>w\<leftarrow>ws. val w)) = a * (\<Sum>w\<leftarrow>ws. val w) / (\<Sum>w\<leftarrow>ws. val w)"
    by (metis sum_distrib_left sum_divide_distrib)
  with assms show ?thesis by simp
qed

context decimal_laws
begin

text \<open>The two loops before the leftover, with what they leave.\<close>

lemma allocate_truncates:
  assumes w: "weights_ok D val kw ws" and dp: "dp \<le> k" and close: "shares_close D val \<delta> a ws"
    and fit: "fits_gross k (of_nat (length ws) * (\<bar>val a\<bar> + \<delta>))"
  obtains t fs qs al where "res_fold (weigh D) ws (dec_zero D) = Ok t" "val t = (\<Sum>w\<leftarrow>ws. val w)" "0 < val t"
    "\<forall>w\<in>set ws. 0 \<le> val w" "0 \<le> \<delta>"
    "res_fold (truncate_share D a t dp) (enumerate 0 ws) ([], [], dec_zero D) = Ok (fs, qs, al)"
    "length fs = length ws" "val al = (\<Sum>x\<leftarrow>fs. val x)" "map snd qs = [0..<length ws]"
    "\<forall>y\<in>set fs. multiple k (val y) \<and> \<bar>val y\<bar> \<le> \<bar>val a\<bar> + \<delta>"
    "\<forall>i<length ws. \<exists>e. \<bar>e - val a * val (ws ! i) / val t\<bar> \<le> \<delta> \<and> val (fs ! i) = round_rat ToZero dp e"
proof -
  let ?M = "\<bar>val a\<bar> + \<delta>"
  obtain t where t: "dec_sum D ws = (Ok t :: (unit, 'd) res)" "val t = (\<Sum>w\<leftarrow>ws. val w)" "0 < val t"
      "\<forall>w\<in>set ws. 0 \<le> val w \<and> val w \<le> val t"
    using weights_sum [OF w] by blast
  have neg: "\<forall>w\<in>set ws. \<not> is_sign_negative D w" "ws \<noteq> []" using w by (simp_all add: weights_ok_def)
  have wt: "res_fold (weigh D) ws (dec_zero D) = Ok t"
    by (rule weigh_fold [OF neg(1)]) (use t(1) in \<open>simp add: dec_sum_def\<close>)
  have d0: "0 \<le> \<delta>"
  proof -
    obtain w where "w \<in> set ws" using neg(2) by (cases ws) auto
    with close t(1) show ?thesis unfolding shares_close_def by (meson abs_ge_zero order_trans)
  qed
  have sh: "\<forall>w\<in>set ws. \<exists>e. share_is D a w t e \<and> representable (val e) \<and>
      \<bar>val e - val a * val w / val t\<bar> \<le> \<delta> \<and> \<bar>val e\<bar> \<le> ?M"
  proof
    fix w assume w: "w \<in> set ws"
    with close t(1) obtain e where e: "share_is D a w t e" "representable (val e)"
      "\<bar>val e - val a * val w / val t\<bar> \<le> \<delta>" unfolding shares_close_def by blast
    have "\<bar>val e\<bar> \<le> ?M" by (rule share_value_bound [OF e(3)]) (use t(3,4) w in auto)
    with e show "\<exists>e. share_is D a w t e \<and> representable (val e) \<and>
      \<bar>val e - val a * val w / val t\<bar> \<le> \<delta> \<and> \<bar>val e\<bar> \<le> ?M" by blast
  qed
  have f0: "fits_gross k (\<bar>val (dec_zero D)\<bar> + of_nat (length ws) * ?M)" using fit by simp
  obtain fs qs al where tf: "res_fold (truncate_share D a t dp) (enumerate 0 ws) ([], [], dec_zero D) = Ok (fs, qs, al)"
    "length fs = length ws" "val al = (\<Sum>x\<leftarrow>fs. val x)"
    "\<forall>j<length ws. \<exists>e. \<bar>val e - val a * val (ws ! j) / val t\<bar> \<le> \<delta> \<and> \<bar>val e\<bar> \<le> ?M \<and>
       val (fs ! j) = round_rat ToZero dp (val e)"
    using truncate_fold [OF sh dp _ f0, of 0 "[]" "[]"] d0 by auto
  have q: "map snd qs = [0..<length ws]"
    using truncate_fold_shape [OF tf(1)] by simp
  have "\<forall>y\<in>set fs. multiple k (val y) \<and> \<bar>val y\<bar> \<le> ?M"
  proof
    fix y assume "y \<in> set fs"
    with tf(2) obtain i where "i < length ws" "y = fs ! i" by (auto simp: in_set_conv_nth)
    with tf(4) show "multiple k (val y) \<and> \<bar>val y\<bar> \<le> ?M"
      using multiple_lift [OF multiple_round dp] round_ToZero_dist(2) order_trans by metis
  qed
  with that [OF wt t(2,3) _ d0 tf(1,2,3) q] t(4) tf(4) show ?thesis by blast
qed

text \<open>The leftover of \<open>j\<close> signed units, handed out along the sorted remainders.\<close>

lemma allocate_hands_out:
  assumes "map snd qs = [0..<n]" "length fs = n" "\<forall>y\<in>set fs. multiple k (val y) \<and> \<bar>val y\<bar> \<le> M"
    "s = 1 \<or> s = - 1" "val lo = of_nat j * (s * minor_unit dp)" "j \<le> n" "val lo \<noteq> 0" "dp \<le> k"
    "fits_gross k (M + minor_unit dp)" "fits_gross k (of_nat n * minor_unit dp)"
  obtains u parts where "dec_new D 1 dp = Some u"
    "hand_out D (if is_sign_negative D lo then dec_neg D u else u) (sort_by (larger_remainder D) qs) 0 lo fs = Ok parts"
    "length parts = n" "(\<Sum>x\<leftarrow>parts. val x) = (\<Sum>x\<leftarrow>fs. val x) + val lo"
    "\<forall>i<n. val (parts ! i) \<in> {val (fs ! i), val (fs ! i) + s * minor_unit dp}"
proof -
  let ?u = "minor_unit dp" and ?rs = "sort_by (larger_remainder D) qs"
  have k28: "dp \<le> 28" using assms(8,9) by (simp add: fits_gross_def)
  obtain u where u: "dec_new D 1 dp = Some u" "val u = ?u"
    using new_val [OF k28, of 1] by (auto simp: minor_unit_def)
  define st where "st = (if is_sign_negative D lo then dec_neg D u else u)"
  have lneg: "val lo < 0 \<longleftrightarrow> s = - 1" using assms(4,5,7) minor_unit_pos [of dp]
    by (auto simp: mult_less_0_iff zero_less_mult_iff)
  have st: "val st = s * ?u" using sign_val [OF assms(7)] lneg assms(4) u(2) by (auto simp: st_def)
  have perm: "mset (map snd ?rs) = mset [0..<n]" using arg_cong [OF assms(1), of mset] by simp
  have dist: "distinct (map snd ?rs)" using perm by (metis distinct_upt mset_eq_imp_distinct_iff)
  have "snd ` set ?rs = {0..<n}" using perm by (metis set_mset_mset set_map set_upt)
  then have idx: "i < n" if "(r, i) \<in> set ?rs" for r i using that by force
  have len: "length ?rs = n" using arg_cong [OF assms(1), of length] by simp
  have fj: "fits_gross k (of_nat j * ?u)" by (rule fits_gross_mono [OF assms(10)]) (use assms(6) in simp)
  have b: "\<bar>val st\<bar> \<le> ?u" "multiple k (val st)" "val st \<noteq> 0"
    unfolding st using assms(4) multiple_lift [OF multiple_unit assms(8)] by auto
  have "\<forall>x\<in>set fs. multiple k (val x)" "\<forall>(r, i)\<in>set ?rs. i < length fs" using assms(2,3) idx by auto
  moreover have "\<forall>(r, i)\<in>set (drop 0 ?rs). \<bar>val (fs ! i)\<bar> \<le> M" using idx assms(2,3) by fastforce
  moreover have "0 + j \<le> length ?rs" "val lo = of_nat j * val st" using assms(5,6) len st by simp_all
  ultimately obtain parts where "hand_out D st ?rs 0 lo fs = Ok parts" "length parts = length fs"
      "(\<Sum>x\<leftarrow>parts. val x) = (\<Sum>x\<leftarrow>fs. val x) + val lo"
      "\<forall>i<length fs. val (parts ! i) \<in> {val (fs ! i), val (fs ! i) + val st}"
    using hand_out_units [OF b(1,2) less_imp_le [OF minor_unit_pos] _ _ _ dist _ _ assms(9) fj b(3)] by metis
  with that u(1) st assms(2) show ?thesis by (simp add: st_def)
qed

lemma leftover_units:
  assumes "\<forall>y\<in>set fs. multiple k (val y)" "val al = (\<Sum>x\<leftarrow>fs. val x)" "multiple dp (val whole)" "dp \<le> k"
    "val whole - val al = of_nat j * (s * minor_unit dp)" "s = 1 \<or> s = - 1" "j \<le> n"
    "fits_gross k (of_nat n * minor_unit dp)"
  obtains lo where "checked_sub D whole al = Some lo" "val lo = of_nat j * (s * minor_unit dp)"
proof -
  have "\<bar>val whole - val al\<bar> = of_nat j * minor_unit dp"
    using assms(6) minor_unit_pos [of dp] unfolding assms(5) by (auto simp: abs_mult)
  moreover have "of_nat j * minor_unit dp \<le> of_nat n * minor_unit dp" using assms(7) minor_unit_pos [of dp] by simp
  ultimately have "fits_gross k \<bar>val whole - val al\<bar>" using fits_gross_mono [OF assms(8)] by simp
  moreover have "multiple k (val al)" unfolding assms(2) by (rule multiple_sum_list) (use assms(1) in blast)
  ultimately have "representable (val whole - val al)"
    using multiple_lift [OF assms(3,4)] by (intro multiple_representable [of k]) auto
  with sub_exact that assms(5) show ?thesis by metis
qed

lemma allocate_finishes:
  assumes "res_fold (weigh D) ws (dec_zero D) = Ok t" "0 < val t" "ws \<noteq> []"
    "res_fold (truncate_share D whole t dp) (enumerate 0 ws) ([], [], dec_zero D) = Ok (fs, qs, al)"
    "length fs = length ws" "val al = (\<Sum>x\<leftarrow>fs. val x)" "map snd qs = [0..<length ws]"
    "\<forall>y\<in>set fs. multiple k (val y) \<and> \<bar>val y\<bar> \<le> M" "s = 1 \<or> s = - 1"
    "checked_sub D whole al = Some lo" "val lo = of_nat j * (s * minor_unit dp)"
    "val whole - val al = val lo" "j \<le> length ws" "dp \<le> k"
    "fits_gross k (M + minor_unit dp)" "fits_gross k (of_nat (length ws) * minor_unit dp)"
  shows "\<exists>parts. allocate D whole ws dp = Ok parts \<and> length parts = length ws \<and>
    (\<Sum>p\<leftarrow>parts. val p) = val whole \<and>
    (\<forall>i<length ws. val (parts ! i) \<in> {val (fs ! i), val (fs ! i) + s * minor_unit dp})"
proof -
  have k28: "dp \<le> 28" using assms(14,15) by (simp add: fits_gross_def)
  show ?thesis
  proof (cases "val lo = 0")
    case True
    then have "allocate D whole ws dp = Ok fs"
      using assms(1-4,10) k28 by (simp add: allocate_def is_zero_val)
    with True assms(5,6,12) show ?thesis by auto
  next
    case False
    obtain u parts where parts: "dec_new D 1 dp = Some u"
      "hand_out D (if is_sign_negative D lo then dec_neg D u else u) (sort_by (larger_remainder D) qs) 0 lo fs = Ok parts"
      "length parts = length ws" "(\<Sum>x\<leftarrow>parts. val x) = (\<Sum>x\<leftarrow>fs. val x) + val lo"
      "\<forall>i<length ws. val (parts ! i) \<in> {val (fs ! i), val (fs ! i) + s * minor_unit dp}"
      by (rule allocate_hands_out [OF assms(7,5,8,9,11,13) False assms(14-16)]) blast
    then have "allocate D whole ws dp = Ok parts"
      using assms(1-4,10) k28 False by (simp add: allocate_def is_zero_val)
    with parts assms(6,12) show ?thesis by auto
  qed
qed

end

text \<open>
  C23: allocation succeeds and is exact, for totals of either sign: a total that is a whole
  number of minor units is split into one part for each weight, the parts add up to it, and
  each is within one minor unit (and the quotient's own error) of its exact share.
\<close>

theorem allocate_exact:
  assumes "decimal_laws D val" "weights_ok D val kw ws" "dp \<le> k" "multiple dp (val whole)"
    "shares_close D val \<delta> whole ws"
    "fits_gross k (of_nat (length ws) * (\<bar>val whole\<bar> + \<delta> + minor_unit dp) + \<bar>val whole\<bar> + minor_unit dp)"
    "of_nat (length ws) * \<delta> < minor_unit dp"
  shows "\<exists>parts. allocate D whole ws dp = Ok parts \<and> length parts = length ws \<and>
    (\<Sum>p\<leftarrow>parts. val p) = val whole \<and>
    (\<forall>i<length ws. \<bar>val (parts ! i) - val whole * val (ws ! i) / (\<Sum>w\<leftarrow>ws. val w)\<bar> \<le> minor_unit dp + \<delta>)"
proof -
  let ?n = "length ws" and ?u = "minor_unit dp" and ?A = "val whole" and ?W = "\<Sum>w\<leftarrow>ws. val w"
  define x where "x = (\<lambda>i. ?A * val (ws ! i) / ?W)"
  define s :: rat where "s = (if 0 \<le> ?A then 1 else - 1)"
  have s: "s = 1 \<or> s = - 1" "0 \<le> s * ?A" by (auto simp: s_def)
  have n1: "0 < ?n" "ws \<noteq> []" using assms(2) by (auto simp: weights_ok_def)
  note up = minor_unit_pos [of dp]
  have g: "of_nat ?n * (\<bar>?A\<bar> + \<delta> + ?u) = of_nat ?n * (\<bar>?A\<bar> + \<delta>) + of_nat ?n * ?u" by (simp add: distrib_left)
  have nu: "0 \<le> of_nat ?n * ?u" using up by simp
  have fw: "fits_gross k (of_nat ?n * (\<bar>?A\<bar> + \<delta>))"
    by (rule fits_gross_mono [OF assms(6)]) (use g nu up in linarith)
  obtain t fs qs al where t: "res_fold (weigh D) ws (dec_zero D) = Ok t" "val t = ?W" "0 < val t"
      "\<forall>w\<in>set ws. 0 \<le> val w" "0 \<le> \<delta>"
    and tf: "res_fold (truncate_share D whole t dp) (enumerate 0 ws) ([], [], dec_zero D) = Ok (fs, qs, al)"
      "length fs = ?n" "val al = (\<Sum>x\<leftarrow>fs. val x)" "map snd qs = [0..<?n]"
      "\<forall>y\<in>set fs. multiple k (val y) \<and> \<bar>val y\<bar> \<le> \<bar>?A\<bar> + \<delta>"
    and xe: "\<forall>i<?n. \<exists>e. \<bar>e - x i\<bar> \<le> \<delta> \<and> val (fs ! i) = round_rat ToZero dp e"
    using decimal_laws.allocate_truncates [OF assms(1,2,3,5) fw] unfolding x_def by metis
  have sx0: "\<forall>i<?n. 0 \<le> s * x i"
    using s(2) t(2-4) by (auto simp: x_def mult.assoc [symmetric])
  have sx: "(\<Sum>i<?n. x i) = ?A" unfolding x_def by (rule exact_shares_sum) (use t(2,3) in simp)
  have sf: "(\<Sum>y\<leftarrow>fs. val y) = (\<Sum>i<?n. val (fs ! i))"
    by (simp add: sum_list_sum_nth tf(2) atLeast0LessThan)
  obtain j where j: "j \<le> ?n" "?A - val al = of_nat j * (s * ?u)"
    using signed_leftover [OF s(1) sx0 xe n1(1) _ assms(7)] assms(4) unfolding sx sf tf(3) by blast
  have M0: "0 \<le> of_nat ?n * (\<bar>?A\<bar> + \<delta>)" using t(5) by simp
  have "1 * (\<bar>?A\<bar> + \<delta>) \<le> of_nat ?n * (\<bar>?A\<bar> + \<delta>)" by (rule mult_right_mono) (use Suc_leI [OF n1(1)] t(5) in auto)
  with M0 have m1: "\<bar>?A\<bar> + \<delta> \<le> of_nat ?n * (\<bar>?A\<bar> + \<delta>)" by simp
  have f: "fits_gross k (\<bar>?A\<bar> + \<delta> + ?u)" "fits_gross k (of_nat ?n * ?u)"
    by (rule fits_gross_mono [OF assms(6)], use g nu M0 m1 up in linarith)+
  have mf: "\<forall>y\<in>set fs. multiple k (val y)" using tf(5) by blast
  obtain lo where lo: "checked_sub D whole al = Some lo" "val lo = of_nat j * (s * ?u)"
    by (rule decimal_laws.leftover_units [OF assms(1) mf tf(3) assms(4,3) j(2) s(1) j(1) f(2)])
  have "val whole - val al = val lo" using j(2) lo(2) by simp
  note decimal_laws.allocate_finishes [OF assms(1) t(1,3) n1(2) tf s(1) lo this j(1) assms(3) f]
  then obtain parts where p: "allocate D whole ws dp = Ok parts" "length parts = ?n"
    "(\<Sum>p\<leftarrow>parts. val p) = ?A" "\<forall>i<?n. val (parts ! i) \<in> {val (fs ! i), val (fs ! i) + s * ?u}" by blast
  have "\<bar>val (parts ! i) - x i\<bar> \<le> ?u + \<delta>" if i: "i < ?n" for i
    using signed_near [OF s(1) _ _ _ up] p(4) sx0 xe i by metis
  with p(1-3) show ?thesis unfolding x_def by blast
qed

lemma loss_third: "share_is ref_ops (Dec (- 10000) 2) (Dec 1 0) (Dec 3 0) (Dec (- 33333333333333333333333333333) 27)"
  by (simp add: share_is_def ref_eval Let_def)

lemma loss_shares: "shares_close ref_ops ref_val (1 / 10 ^ 20) (Dec (- 10000) 2) three_weights"
proof -
  have t: "dec_sum ref_ops three_weights = (Ok (Dec 3 0) :: (unit, refdec) res)"
    by (simp add: three_weights_def dec_sum_def dec_add_def ref_eval)
  have "representable (ref_val (Dec (- 33333333333333333333333333333) 27))"
    unfolding representable_def
    by (intro exI [of _ 27] conjI ref_on_grid) (simp_all add: max_mantissa_def)
  moreover have "\<bar>ref_val (Dec (- 33333333333333333333333333333) 27) - - 100 / 3\<bar> \<le> 1 / 10 ^ 20"
    by (simp add: ref_val_def)
  moreover have "ref_val (Dec (- 10000) 2) = - 100" "ref_val (Dec 1 0) = 1" "ref_val (Dec 3 0) = 3"
    by (simp_all add: ref_val_def)
  moreover have "set three_weights = {Dec 1 0}" by (simp add: three_weights_def)
  ultimately show ?thesis using loss_third unfolding shares_close_def t
    by (intro allI impI ballI exI [of _ "Dec (- 33333333333333333333333333333) 27"]) auto
qed

lemma loss_fits: "multiple 2 (ref_val (Dec (- 10000) 2))"
  "fits_gross 2 (of_nat (length three_weights) * (\<bar>ref_val (Dec (- 10000) 2)\<bar> + 1 / 10 ^ 20 + minor_unit 2) +
     \<bar>ref_val (Dec (- 10000) 2)\<bar> + minor_unit 2)"
  "of_nat (length three_weights) * (1 / 10 ^ 20) < minor_unit 2"
  unfolding multiple_def
  by (rule exI [of _ "- 10000"])
    (simp_all add: three_weights_def ref_val_def fits_gross_def max_mantissa_def minor_unit_def)

theorem allocate_exact_witness:
  "\<exists>parts. allocate ref_ops (Dec (- 10000) 2) three_weights 2 = Ok parts \<and> length parts = 3 \<and>
     (\<Sum>p\<leftarrow>parts. ref_val p) = - 100"
proof -
  have "length three_weights = 3" "ref_val (Dec (- 10000) 2) = - 100" by (simp_all add: three_weights_def ref_val_def)
  with allocate_exact [OF ref_laws node_weights _ loss_fits(1) loss_shares loss_fits(2,3)] show ?thesis by auto
qed

section \<open>The loop stops\<close>

text \<open>
  C24: the rule always returns. Whatever the total, the weights and the scale, it comes back
  with a value or an error and never panics: the unit is built only for a scale the decimal
  type has, the cursor's remainder is never taken by zero, every index the remainders carry
  is one of the parts, the loop is bounded by its own guard, and a value has one part for
  each weight.
\<close>

theorem allocate_returns:
  assumes "decimal_laws D val"
  shows "(\<exists>parts. allocate D whole ws dp = Ok parts \<and> length parts = length ws \<and> ws \<noteq> [] \<and> dp \<le> 28) \<or>
    (\<exists>e. allocate D whole ws dp = Err e)"
proof -
  have truncated: "length ps = length ws \<and> map snd rs = [0..<length ws]"
    if "res_fold (truncate_share D whole t dp) (enumerate 0 ws) ([], [], z) = Ok (ps, rs, al)" for t z ps rs al
    using truncate_fold_shape [OF that] by simp
  have handed: "hand_out D st (sort_by (larger_remainder D) rs) 0 lo ps \<noteq> Panic"
    if f: "res_fold (truncate_share D whole t dp) (enumerate 0 ws) ([], [], z) = Ok (ps, rs, al)" and ne: "ws \<noteq> []"
    for t z ps rs al st lo
  proof (rule hand_out_total)
    have "snd ` set rs = {..<length ps}" using truncated [OF f] by (metis set_map atLeast_upt)
    then have "i < length ps" if "(r, i) \<in> set rs" for r i using imageI [OF that, of snd] by simp
    then show "\<forall>(r, i)\<in>set (sort_by (larger_remainder D) rs). i < length ps" by auto
    have "length rs = length ws" using truncated [OF f] by (metis length_map length_upt diff_zero)
    with ne show "sort_by (larger_remainder D) rs \<noteq> []" by auto
  qed
  have "allocate D whole ws dp \<noteq> Panic"
  proof (cases "dp \<le> 28")
    case True
    then obtain u where "dec_new D 1 dp = Some u" using decimal_laws.new_val [OF assms True, of 1] by auto
    then show ?thesis
      by (auto simp: allocate_def weigh_total truncate_total handed split: prod.split)
  qed (simp add: allocate_def)
  moreover have "length parts = length ws \<and> ws \<noteq> [] \<and> dp \<le> 28" if "allocate D whole ws dp = Ok parts" for parts
    using that by (auto simp: allocate_def split: if_splits dest!: hand_out_length truncated)
  ultimately show ?thesis by (cases "allocate D whole ws dp") auto
qed

lemma three_cents:
  "res_fold (weigh ref_ops) [Dec 1 0, Dec 2 0] (dec_zero ref_ops) = Ok (Dec 3 0)"
  "res_fold (truncate_share ref_ops (Dec 3 2) (Dec 3 0) 2) (enumerate 0 [Dec 1 0, Dec 2 0])
     ([], [], dec_zero ref_ops) = Ok ([Dec 1 2, Dec 2 2], [(Dec 0 28, 0), (Dec 0 28, 1)], Dec 3 2)"
  "checked_sub ref_ops (Dec 3 2) (Dec 3 2) = Some (Dec 0 2)" "ref_val (Dec 0 2) = 0" "ref_val (Dec 3 0) = 3"
  by (simp_all add: weigh_def truncate_share_def ref_eval Let_def ref_val_def)

theorem allocate_returns_witness:
  "\<exists>parts. allocate ref_ops (Dec 3 2) [Dec 1 0, Dec 2 0] 2 = Ok parts \<and> length parts = 2"
proof -
  have "allocate ref_ops (Dec 3 2) [Dec 1 0, Dec 2 0] 2 = Ok [Dec 1 2, Dec 2 2]"
    by (simp del: enumerate_simps res_fold.simps add: allocate_def three_cents)
  with allocate_returns [OF ref_laws, of "Dec 3 2" "[Dec 1 0, Dec 2 0]" 2] show ?thesis by simp
qed

end
