(* ===== verification/Chart.thy ===== *)
theory Chart
  imports Ledger
begin

text \<open>
  \<open>crates/testkit/src/chart.rs\<close>: the chart of accounts, entities and journal sources. The
  files are read and their TOML decoded by arguments of \<open>load\<close>; what \<open>load\<close> then refuses,
  and how a reference such as \<open>1000-Cash\<close> resolves, is the model.
\<close>

section \<open>Accounts\<close>

datatype AccountKind = Asset | Liability | Equity | Revenue | Expense

datatype NormalBalance = NormalDebit | NormalCredit

fun natural_side :: "AccountKind \<Rightarrow> NormalBalance" where
  "natural_side Asset = NormalDebit"
| "natural_side Expense = NormalDebit"
| "natural_side Liability = NormalCredit"
| "natural_side Equity = NormalCredit"
| "natural_side Revenue = NormalCredit"

definition rejects_opposite_sign_by_default :: "AccountKind \<Rightarrow> bool" where
  "rejects_opposite_sign_by_default k \<longleftrightarrow> k = Asset \<or> k = Expense"

fun account_kind_as_str :: "AccountKind \<Rightarrow> string" where
  "account_kind_as_str Asset = ''asset''"
| "account_kind_as_str Liability = ''liability''"
| "account_kind_as_str Equity = ''equity''"
| "account_kind_as_str Revenue = ''revenue''"
| "account_kind_as_str Expense = ''expense''"

fun flip_side :: "NormalBalance \<Rightarrow> NormalBalance" where
  "flip_side NormalDebit = NormalCredit"
| "flip_side NormalCredit = NormalDebit"

fun normal_balance_as_str :: "NormalBalance \<Rightarrow> string" where
  "normal_balance_as_str NormalDebit = ''D''"
| "normal_balance_as_str NormalCredit = ''C''"

record chart_account =
  ca_code :: string
  ca_name :: string
  ca_kind :: AccountKind
  ca_contra :: bool
  ca_allow_opposite_sign :: "bool option"
  ca_currency :: "string option"
  ca_subledger :: "string option"
  ca_intercompany :: bool
  ca_fs_caption :: string

definition normal_balance :: "chart_account \<Rightarrow> NormalBalance" where
  "normal_balance a =
     (if ca_contra a then flip_side (natural_side (ca_kind a)) else natural_side (ca_kind a))"

definition permits_opposite_sign :: "chart_account \<Rightarrow> bool" where
  "permits_opposite_sign a =
     (case ca_allow_opposite_sign a of
        Some explicit \<Rightarrow> explicit
      | None \<Rightarrow> \<not> rejects_opposite_sign_by_default (ca_kind a))"

definition account_label :: "chart_account \<Rightarrow> string" where
  "account_label a = ca_code a @ ''-'' @ ca_name a"

record chart_entity =
  en_code :: string
  en_name :: string
  en_functional_ccy :: string
  en_parent :: "string option"
  en_ownership :: "string option"

record journal_source =
  so_code :: string
  so_description :: string
  so_automated :: bool

section \<open>Loading\<close>

datatype chart_error =
    ChartIo string string
  | ChartParse string string
  | DuplicateAccount string
  | DuplicateEntity string
  | DuplicateSource string
  | AmbiguousSubledger string string string
  | UnknownParent string string
  | UnknownCurrency string string

record chart_of_accounts =
  by_code :: "(string, chart_account) btree"
  chart_entities :: "(string, chart_entity) btree"
  chart_sources :: "(string, journal_source) btree"
  controls :: "(string, string) btree"

text \<open>The three iterations of \<open>load\<close>, and its check of the entity tree.\<close>

definition load_account ::
  "chart_account \<Rightarrow> (string, chart_account) btree \<times> (string, string) btree
     \<Rightarrow> (chart_error, (string, chart_account) btree \<times> (string, string) btree) res" where
  "load_account a st =
     (case st of (accs, ctl) \<Rightarrow>
      res_bind (case ca_currency a of
          Some c \<Rightarrow> if currency_from_code c = None then Err (UnknownCurrency (''account '' @ ca_code a) c) else Ok ()
        | None \<Rightarrow> Ok ()) (\<lambda>_.
      res_bind (case ca_subledger a of
          Some s \<Rightarrow> (case bt_get ctl s of
              Some first \<Rightarrow> Err (AmbiguousSubledger s first (ca_code a))
            | None \<Rightarrow> Ok ())
        | None \<Rightarrow> Ok ()) (\<lambda>_.
      if bt_contains accs (ca_code a) then Err (DuplicateAccount (ca_code a))
      else Ok (bt_insert (ca_code a) a accs,
        case ca_subledger a of Some s \<Rightarrow> bt_insert s (ca_code a) ctl | None \<Rightarrow> ctl))))"

definition load_entity ::
  "chart_entity \<Rightarrow> (string, chart_entity) btree \<Rightarrow> (chart_error, (string, chart_entity) btree) res" where
  "load_entity e m =
     (if currency_from_code (en_functional_ccy e) = None
      then Err (UnknownCurrency (''entity '' @ en_code e) (en_functional_ccy e))
      else if bt_contains m (en_code e) then Err (DuplicateEntity (en_code e))
      else Ok (bt_insert (en_code e) e m))"

definition check_parent :: "(string, chart_entity) btree \<Rightarrow> chart_entity \<Rightarrow> unit \<Rightarrow> (chart_error, unit) res" where
  "check_parent m e _ =
     (case en_parent e of
        Some p \<Rightarrow> if p \<noteq> [] \<and> \<not> bt_contains m p then Err (UnknownParent (en_code e) p) else Ok ()
      | None \<Rightarrow> Ok ())"

definition load_source ::
  "journal_source \<Rightarrow> (string, journal_source) btree \<Rightarrow> (chart_error, (string, journal_source) btree) res" where
  "load_source s m =
     (if bt_contains m (so_code s) then Err (DuplicateSource (so_code s))
      else Ok (bt_insert (so_code s) s m))"

definition chart_of ::
  "chart_account list \<Rightarrow> chart_entity list \<Rightarrow> journal_source list \<Rightarrow> (chart_error, chart_of_accounts) res" where
  "chart_of as es ss =
     res_bind (res_fold load_account as ([], [])) (\<lambda>(accs, ctl).
     res_bind (res_fold load_entity es []) (\<lambda>ents.
     res_bind (res_fold (check_parent ents) (bt_values ents) ()) (\<lambda>_.
     res_bind (res_fold load_source ss []) (\<lambda>srcs.
     Ok \<lparr>by_code = accs, chart_entities = ents, chart_sources = srcs, controls = ctl\<rparr>))))"

definition read_toml ::
  "(string \<Rightarrow> (string, string) res) \<Rightarrow> (string \<Rightarrow> (string, 'a) res) \<Rightarrow> string \<Rightarrow> (chart_error, 'a) res" where
  "read_toml read_file decode path =
     res_bind (res_map_err (ChartIo path) (read_file path)) (\<lambda>raw.
     res_map_err (ChartParse path) (decode raw))"

definition chart_load ::
  "(string \<Rightarrow> (string, string) res) \<Rightarrow> (string \<Rightarrow> (string, chart_account list) res) \<Rightarrow>
   (string \<Rightarrow> (string, chart_entity list) res) \<Rightarrow> (string \<Rightarrow> (string, journal_source list) res) \<Rightarrow>
   string \<Rightarrow> (chart_error, chart_of_accounts) res" where
  "chart_load read_file accounts_toml entities_toml sources_toml dir =
     res_bind (read_toml read_file accounts_toml (dir @ ''/accounts.toml'')) (\<lambda>as.
     res_bind (read_toml read_file entities_toml (dir @ ''/entities.toml'')) (\<lambda>es.
     res_bind (read_toml read_file sources_toml (dir @ ''/sources.toml'')) (\<lambda>ss.
     chart_of as es ss)))"

section \<open>Lookups\<close>

definition resolve :: "chart_of_accounts \<Rightarrow> string \<Rightarrow> chart_account option" where
  "resolve C reference =
     (let (code, name) = (case split_once (CHR ''-'') reference of
            Some (code, name) \<Rightarrow> (trim code, Some (trim name))
          | None \<Rightarrow> (trim reference, None))
      in case bt_get (by_code C) code of
           None \<Rightarrow> None
         | Some a \<Rightarrow>
             (case name of
                Some n \<Rightarrow> if n \<noteq> ca_name a then None else Some a
              | None \<Rightarrow> Some a))"

definition chart_accounts :: "chart_of_accounts \<Rightarrow> chart_account list" where
  "chart_accounts C = bt_values (by_code C)"

definition chart_entity_of :: "chart_of_accounts \<Rightarrow> string \<Rightarrow> chart_entity option" where
  "chart_entity_of C code = bt_get (chart_entities C) code"

definition entity_list :: "chart_of_accounts \<Rightarrow> chart_entity list" where
  "entity_list C = bt_values (chart_entities C)"

definition chart_source_of :: "chart_of_accounts \<Rightarrow> string \<Rightarrow> journal_source option" where
  "chart_source_of C code = bt_get (chart_sources C) code"

definition source_list :: "chart_of_accounts \<Rightarrow> journal_source list" where
  "source_list C = bt_values (chart_sources C)"

definition control_account :: "chart_of_accounts \<Rightarrow> string \<Rightarrow> chart_account option" where
  "control_account C subledger = Option.bind (bt_get (controls C) subledger) (bt_get (by_code C))"

section \<open>What loading guarantees\<close>

text \<open>The keys are the codes, and a control account claims its subledger.\<close>

definition chart_wf :: "chart_of_accounts \<Rightarrow> bool" where
  "chart_wf C \<longleftrightarrow> bt_wf (by_code C) \<and> bt_wf (chart_entities C) \<and> bt_wf (chart_sources C) \<and> bt_wf (controls C) \<and>
     (\<forall>c a. bt_get (by_code C) c = Some a \<longrightarrow> ca_code a = c) \<and>
     (\<forall>s c. bt_get (controls C) s = Some c \<longleftrightarrow>
        (\<exists>a. bt_get (by_code C) c = Some a \<and> ca_subledger a = Some s))"

definition accounts_wf :: "(string, chart_account) btree \<times> (string, string) btree \<Rightarrow> bool" where
  "accounts_wf st \<longleftrightarrow> (case st of (accs, ctl) \<Rightarrow>
     bt_wf accs \<and> bt_wf ctl \<and> (\<forall>c a. bt_get accs c = Some a \<longrightarrow> ca_code a = c) \<and>
     (\<forall>s c. bt_get ctl s = Some c \<longleftrightarrow> (\<exists>a. bt_get accs c = Some a \<and> ca_subledger a = Some s)))"

lemma load_account_wf:
  assumes "accounts_wf st" "load_account a st = Ok st'"
  shows "accounts_wf st'"
proof -
  obtain ac ct where st: "st = (ac, ct)" by (cases st)
  from assms(2) have n: "bt_get ac (ca_code a) = None" "\<And>s. ca_subledger a = Some s \<Longrightarrow> bt_get ct s = None"
    "st' = (bt_insert (ca_code a) a ac,
      case ca_subledger a of Some s \<Rightarrow> bt_insert s (ca_code a) ct | None \<Rightarrow> ct)"
    by (auto simp: load_account_def st bt_contains_def split: option.splits if_splits)
  from assms(1) have I: "bt_wf ac" "bt_wf ct" "\<And>c b. bt_get ac c = Some b \<Longrightarrow> ca_code b = c"
    "\<And>s c. bt_get ct s = Some c \<longleftrightarrow> (\<exists>b. bt_get ac c = Some b \<and> ca_subledger b = Some s)"
    by (auto simp: accounts_wf_def st)
  show ?thesis
  proof (cases "ca_subledger a")
    case None
    with n(1,3) I show ?thesis by (auto simp: accounts_wf_def)
  next
    case (Some s0)
    have free: "ca_subledger b \<noteq> Some s0" if "bt_get ac c = Some b" for b c
      using I(4) [of s0 c] n(2) [OF Some] that by auto
    show ?thesis
      unfolding accounts_wf_def n(3) using n(1) I(1,2,3) free Some by (auto simp: I(4) dest: I(3))
  qed
qed

lemma load_accounts_wf: "res_fold load_account as ([], []) = Ok st \<Longrightarrow> accounts_wf st"
  by (erule res_fold_invariant [where I = accounts_wf]) (simp add: accounts_wf_def, rule load_account_wf)

lemma load_entities_wf: "res_fold load_entity es [] = Ok m \<Longrightarrow> bt_wf m"
  by (erule res_fold_invariant [where I = bt_wf]) (auto simp: load_entity_def split: if_splits)

lemma load_sources_wf: "res_fold load_source ss [] = Ok m \<Longrightarrow> bt_wf m"
  by (erule res_fold_invariant [where I = bt_wf]) (auto simp: load_source_def split: if_splits)

lemma chart_of_wf:
  assumes "chart_of as es ss = Ok C"
  shows "chart_wf C"
proof -
  from assms obtain accs ctl ents srcs where
    "res_fold load_account as ([], []) = Ok (accs, ctl)" "res_fold load_entity es [] = Ok ents"
    "res_fold load_source ss [] = Ok srcs"
    "C = \<lparr>by_code = accs, chart_entities = ents, chart_sources = srcs, controls = ctl\<rparr>"
    by (auto simp: chart_of_def)
  with load_accounts_wf [OF this(1)] load_entities_wf [OF this(2)] load_sources_wf [OF this(3)]
  show ?thesis by (simp add: chart_wf_def accounts_wf_def)
qed

lemma chart_load_wf: "chart_load rd ta te ts dir = Ok C \<Longrightarrow> chart_wf C"
  using chart_of_wf unfolding chart_load_def res_bind_eq_Ok by blast

text \<open>A label resolves to its account, a wrong name to nothing.\<close>

lemma resolve_label:
  assumes "chart_wf C" "bt_get (by_code C) c = Some a" "CHR ''-'' \<notin> set c" "trim c = c" "trim (ca_name a) = ca_name a"
  shows "resolve C (account_label a) = Some a"
proof -
  have "ca_code a = c" using assms(1,2) by (auto simp: chart_wf_def)
  then have "split_once (CHR ''-'') (account_label a) = Some (c, ca_name a)"
    using split_once_append [OF assms(3)] by (simp add: account_label_def)
  then show ?thesis using assms by (simp add: resolve_def)
qed

lemma control_account_claims:
  assumes "chart_wf C"
  shows "control_account C s = Some a \<longleftrightarrow> (bt_get (by_code C) (ca_code a) = Some a \<and> ca_subledger a = Some s)"
proof -
  have code: "ca_code b = c" if "bt_get (by_code C) c = Some b" for c b
    using assms that unfolding chart_wf_def by blast
  have claim: "bt_get (controls C) s = Some c \<longleftrightarrow> (\<exists>b. bt_get (by_code C) c = Some b \<and> ca_subledger b = Some s)" for c
    using assms unfolding chart_wf_def by blast
  show ?thesis
    unfolding control_account_def bind_eq_Some_conv claim by (auto dest: code)
qed

end
