(* ===== verification/Assertions.thy ===== *)
theory Assertions
  imports Chart
begin

text \<open>
  \<open>crates/testkit/src/assertions.rs\<close>: the ten invariants as functions from a value to a
  verdict. A violation carries its invariant and a detail; where the code formats a
  message, the model keeps the message's kind with the values printed in it (the last five
  kinds are those of \<open>ads_export.rs\<close>). The serialization of an event is an argument.
\<close>

section \<open>Verdicts\<close>

datatype Invariant =
    Balanced
  | Idempotent
  | DeterministicReplay
  | NegativeBalance
  | CurrencyIsolation
  | TrialBalanceZero
  | SubledgerTies
  | RollForward
  | ClosedPeriodImmutable
  | ConsolidationComplete

fun invariant_number :: "Invariant \<Rightarrow> nat" where
  "invariant_number Balanced = 1"
| "invariant_number Idempotent = 2"
| "invariant_number DeterministicReplay = 3"
| "invariant_number NegativeBalance = 4"
| "invariant_number CurrencyIsolation = 5"
| "invariant_number TrialBalanceZero = 6"
| "invariant_number SubledgerTies = 7"
| "invariant_number RollForward = 8"
| "invariant_number ClosedPeriodImmutable = 9"
| "invariant_number ConsolidationComplete = 10"

datatype balance_scope =
  BalanceScope (scope_currency: Currency) (scope_book: string) (scope_entity: string) (scope_period: string)

datatype 'd violation_detail =
    SummationOverflowed 'd 'd
  | NoLines
  | MalformedLine AccountId
  | SpansCurrencies nat
  | LinesSumTo 'd
  | KeyPersistedNothing string
  | KeyPersisted string nat
  | SequenceWent int int
  | ReplaysDiffer
  | NotTheLiveProjection
  | NotSerialized string
  | NotDeserialized string string
  | ChangedInRoundTrip string
  | NotInChart string
  | OppositeItsNormalBalance string 'd string
  | BothOrNeitherSide
  | LineCurrencyDiffers Currency Currency
  | RestrictedToUnknown string string
  | HiddenConversion string Currency Currency
  | ScopeOutOfBalance balance_scope 'd
  | TrialBalanceOut 'd
  | SubledgerCurrencies string currency_mismatch
  | SubledgerOut string "'d money" "'d money" "'d money"
  | NotCarriedForward string 'd 'd
  | NothingAttempted
  | AcceptedMutation string
  | EntryPointsChanged "string list" "string list"
  | IntercompanyNet 'd
  | NotADecimal string
  | ControlTotalOverflowed
  | DoesNotFoot 'd 'd
  | DerivedOverflowed
  | ExtractDiffers string string 'd 'd

record 'd invariant_violation =
  invariant :: Invariant
  detail :: "'d violation_detail"

definition violation_new :: "Invariant \<Rightarrow> 'd violation_detail \<Rightarrow> 'd invariant_violation" where
  "violation_new i d = \<lparr>invariant = i, detail = d\<rparr>"

type_synonym 'd checked = "('d invariant_violation, unit) res"

definition violated :: "Invariant \<Rightarrow> 'd violation_detail \<Rightarrow> ('d invariant_violation, 'a) res" where
  "violated i d = Err (violation_new i d)"

definition checked_sum ::
  "'d decimal_ops \<Rightarrow> 'd list \<Rightarrow> Invariant \<Rightarrow> ('d invariant_violation, 'd) res" where
  "checked_sum D xs i =
     res_fold (\<lambda>x acc. ok_or (checked_add D acc x) (violation_new i (SummationOverflowed acc x))) xs (dec_zero D)"

section \<open>1 and 2: balanced, idempotent\<close>

definition balanced_line ::
  "'d decimal_ops \<Rightarrow> 'd journal_line \<Rightarrow> 'd list \<times> Currency list
     \<Rightarrow> ('d invariant_violation, 'd list \<times> Currency list) res" where
  "balanced_line D l st =
     (case st of (amounts, ccys) \<Rightarrow>
      res_bind (ok_or (signed_amount D l) (violation_new Balanced (MalformedLine (account l)))) (\<lambda>m.
      Ok (amounts @ [amount m], List.insert (currency m) ccys)))"

definition assert_balanced :: "'d decimal_ops \<Rightarrow> 'd journal_line list \<Rightarrow> 'd checked" where
  "assert_balanced D lines =
     (if lines = [] then violated Balanced NoLines
      else
        res_bind (res_fold (balanced_line D) lines ([], [])) (\<lambda>(amounts, ccys).
        if 1 < length ccys then violated Balanced (SpansCurrencies (length ccys))
        else
          res_bind (checked_sum D amounts Balanced) (\<lambda>t.
          if is_zero D t then Ok () else violated Balanced (LinesSumTo t))))"

definition assert_single_event_for_key :: "string \<Rightarrow> nat \<Rightarrow> 'd checked" where
  "assert_single_event_for_key key persisted =
     (if persisted = 1 then Ok ()
      else if persisted = 0 then violated Idempotent (KeyPersistedNothing key)
      else violated Idempotent (KeyPersisted key persisted))"

section \<open>3: ordering and replay\<close>

fun assert_monotonic_sequence :: "int list \<Rightarrow> 'd checked" where
  "assert_monotonic_sequence (previous # next # rest) =
     (if next \<le> previous then violated DeterministicReplay (SequenceWent previous next)
      else assert_monotonic_sequence (next # rest))"
| "assert_monotonic_sequence _ = Ok ()"

text \<open>The derived \<open>PartialEq\<close> of lines, events and states: amounts compare numerically.\<close>

definition line_eq :: "'d decimal_ops \<Rightarrow> 'd journal_line \<Rightarrow> 'd journal_line \<Rightarrow> bool" where
  "line_eq D a b \<longleftrightarrow> account a = account b \<and> rel_option (money_eq D) (debit a) (debit b) \<and>
     rel_option (money_eq D) (credit a) (credit b) \<and> source_usage_event_ids a = source_usage_event_ids b"

fun event_eq :: "'d decimal_ops \<Rightarrow> 'd ledger_event \<Rightarrow> 'd ledger_event \<Rightarrow> bool" where
  "event_eq D (JournalEntryPosted i ls d t) (JournalEntryPosted i' ls' d' t') \<longleftrightarrow>
     i = i' \<and> list_all2 (line_eq D) ls ls' \<and> d = d' \<and> t = t'"
| "event_eq D (EntryReversed e r s) (EntryReversed e' r' s') \<longleftrightarrow> e = e' \<and> r = r' \<and> s = s'"
| "event_eq D (CapitalizationStatusChanged r f t p) (CapitalizationStatusChanged r' f' t' p') \<longleftrightarrow>
     r = r' \<and> f = f' \<and> t = t' \<and> p = p'"
| "event_eq D _ _ \<longleftrightarrow> False"

definition state_eq :: "'d decimal_ops \<Rightarrow> 'd ledger_state \<Rightarrow> 'd ledger_state \<Rightarrow> bool" where
  "state_eq D s t \<longleftrightarrow>
     list_all2 (\<lambda>(a, m) (b, n). a = b \<and> money_eq D m n) (balances s) (balances t) \<and>
     list_all2 (\<lambda>(i, ls) (j, ks). i = j \<and> list_all2 (line_eq D) ls ks) (entries s) (entries t) \<and>
     reversed s = reversed t \<and> capitalization s = capitalization t"

definition assert_replay_stable ::
  "'d decimal_ops \<Rightarrow> 'd ledger_event list \<Rightarrow> 'd ledger_state \<Rightarrow> 'd checked" where
  "assert_replay_stable D events live =
     res_bind (replay D events) (\<lambda>first.
     res_bind (replay D events) (\<lambda>second.
     if \<not> state_eq D first second then violated DeterministicReplay ReplaysDiffer
     else if \<not> state_eq D first live then violated DeterministicReplay NotTheLiveProjection
     else Ok ()))"

definition event_round_trip ::
  "'d decimal_ops \<Rightarrow> ('d ledger_event \<Rightarrow> (string, string) res) \<Rightarrow> (string \<Rightarrow> (string, 'd ledger_event) res)
     \<Rightarrow> 'd ledger_event \<Rightarrow> unit \<Rightarrow> 'd checked" where
  "event_round_trip D to_json from_json event _ =
     res_bind (res_map_err (\<lambda>e. violation_new DeterministicReplay (NotSerialized e)) (to_json event)) (\<lambda>json.
     res_bind (res_map_err (\<lambda>e. violation_new DeterministicReplay (NotDeserialized json e)) (from_json json)) (\<lambda>back.
     if \<not> event_eq D back event then violated DeterministicReplay (ChangedInRoundTrip json) else Ok ()))"

definition assert_events_round_trip ::
  "'d decimal_ops \<Rightarrow> ('d ledger_event \<Rightarrow> (string, string) res) \<Rightarrow> (string \<Rightarrow> (string, 'd ledger_event) res)
     \<Rightarrow> 'd ledger_event list \<Rightarrow> 'd checked" where
  "assert_events_round_trip D to_json from_json events =
     res_fold (event_round_trip D to_json from_json) events ()"

section \<open>4 and 5: signs and currencies\<close>

definition on_normal_side :: "'d decimal_ops \<Rightarrow> chart_account \<Rightarrow> 'd \<Rightarrow> bool" where
  "on_normal_side D a x =
     (case normal_balance a of
        NormalDebit \<Rightarrow> \<not> is_sign_negative D x
      | NormalCredit \<Rightarrow> is_sign_negative D x \<or> is_zero D x)"

definition check_side ::
  "'d decimal_ops \<Rightarrow> chart_of_accounts \<Rightarrow> string btset \<Rightarrow> string \<times> 'd \<Rightarrow> unit \<Rightarrow> 'd checked" where
  "check_side D C declared e _ =
     (case e of (reference, x) \<Rightarrow>
      case resolve C reference of
        None \<Rightarrow> violated NegativeBalance (NotInChart reference)
      | Some a \<Rightarrow>
          if on_normal_side D a x \<or> permits_opposite_sign a \<or> bs_contains declared reference then Ok ()
          else violated NegativeBalance
            (OppositeItsNormalBalance reference x (normal_balance_as_str (normal_balance a))))"

definition assert_no_unexpected_negative_balances ::
  "'d decimal_ops \<Rightarrow> (string, 'd) btree \<Rightarrow> chart_of_accounts \<Rightarrow> string btset \<Rightarrow> 'd checked" where
  "assert_no_unexpected_negative_balances D bals C declared = res_fold (check_side D C declared) bals ()"

definition check_line_currency ::
  "'d decimal_ops \<Rightarrow> Currency \<Rightarrow> chart_of_accounts \<Rightarrow> ('d journal_line \<Rightarrow> string) \<Rightarrow> 'd journal_line \<Rightarrow> unit
     \<Rightarrow> 'd checked" where
  "check_line_currency D txn C label_of l _ =
     (case signed_amount D l of
        None \<Rightarrow> violated CurrencyIsolation BothOrNeitherSide
      | Some m \<Rightarrow>
          if currency m \<noteq> txn then violated CurrencyIsolation (LineCurrencyDiffers (currency m) txn)
          else case resolve C (label_of l) of
            None \<Rightarrow> Ok ()
          | Some a \<Rightarrow>
              (case ca_currency a of
                 None \<Rightarrow> Ok ()
               | Some raw \<Rightarrow>
                   res_bind (ok_or (currency_from_code raw)
                     (violation_new CurrencyIsolation (RestrictedToUnknown (label_of l) raw))) (\<lambda>restricted.
                   if restricted \<noteq> currency m
                   then violated CurrencyIsolation (HiddenConversion (label_of l) restricted (currency m))
                   else Ok ())))"

definition assert_currency_isolation ::
  "'d decimal_ops \<Rightarrow> 'd journal_line list \<Rightarrow> Currency \<Rightarrow> chart_of_accounts \<Rightarrow> ('d journal_line \<Rightarrow> string)
     \<Rightarrow> 'd checked" where
  "assert_currency_isolation D lines txn C label_of = res_fold (check_line_currency D txn C label_of) lines ()"

section \<open>6 to 8: trial balance, subledgers, roll-forward\<close>

definition check_scope :: "'d decimal_ops \<Rightarrow> balance_scope \<times> 'd list \<Rightarrow> unit \<Rightarrow> 'd checked" where
  "check_scope D e _ =
     (case e of (scope, amounts) \<Rightarrow>
      res_bind (checked_sum D amounts TrialBalanceZero) (\<lambda>t.
      if \<not> is_zero D t then violated TrialBalanceZero (ScopeOutOfBalance scope t) else Ok ()))"

definition assert_trial_balance_zero :: "'d decimal_ops \<Rightarrow> (balance_scope, 'd list) btree \<Rightarrow> 'd checked" where
  "assert_trial_balance_zero D bals = res_fold (check_scope D) bals ()"

definition assert_balances_net_to_zero :: "'d decimal_ops \<Rightarrow> (string, 'd) btree \<Rightarrow> 'd checked" where
  "assert_balances_net_to_zero D amounts =
     res_bind (checked_sum D (bt_values amounts) TrialBalanceZero) (\<lambda>t.
     if is_zero D t then Ok () else violated TrialBalanceZero (TrialBalanceOut t))"

definition assert_subledger_ties ::
  "'d decimal_ops \<Rightarrow> string \<Rightarrow> 'd money \<Rightarrow> 'd money \<Rightarrow> 'd checked" where
  "assert_subledger_ties D subledger subledger_total control_balance =
     res_bind (res_map_err (\<lambda>e. violation_new SubledgerTies (SubledgerCurrencies subledger e))
       (money_sub D subledger_total control_balance)) (\<lambda>difference.
     if money_is_zero D difference then Ok ()
     else violated SubledgerTies (SubledgerOut subledger subledger_total control_balance difference))"

definition amount_or_zero :: "'d decimal_ops \<Rightarrow> (string, 'd) btree \<Rightarrow> string \<Rightarrow> 'd" where
  "amount_or_zero D m a = (case bt_get m a of Some x \<Rightarrow> x | None \<Rightarrow> dec_zero D)"

definition carries_forward ::
  "'d decimal_ops \<Rightarrow> (string, 'd) btree \<Rightarrow> (string, 'd) btree \<Rightarrow> string \<Rightarrow> unit \<Rightarrow> 'd checked" where
  "carries_forward D closing opening a _ =
     (let closed = amount_or_zero D closing a; opened = amount_or_zero D opening a in
      if \<not> dec_eq D closed opened then violated RollForward (NotCarriedForward a closed opened) else Ok ())"

definition assert_roll_forward :: "'d decimal_ops \<Rightarrow> (string, 'd) btree \<Rightarrow> (string, 'd) btree \<Rightarrow> 'd checked" where
  "assert_roll_forward D closing opening =
     res_fold (carries_forward D closing opening) (bt_keys (bs_of_list (bt_keys closing @ bt_keys opening))) ()"

section \<open>9 and 10: immutability, consolidation\<close>

record mutation_attempt =
  entry_point :: string
  rejected :: bool

definition check_attempt :: "mutation_attempt \<Rightarrow> unit \<Rightarrow> 'd checked" where
  "check_attempt m _ =
     (if \<not> rejected m then violated ClosedPeriodImmutable (AcceptedMutation (entry_point m)) else Ok ())"

definition assert_all_mutations_rejected :: "mutation_attempt list \<Rightarrow> 'd checked" where
  "assert_all_mutations_rejected attempts =
     (if attempts = [] then violated ClosedPeriodImmutable NothingAttempted
      else res_fold check_attempt attempts ())"

definition assert_entry_points_enumerated :: "string btset \<Rightarrow> string list \<Rightarrow> 'd checked" where
  "assert_entry_points_enumerated observed expected =
     (let wanted = bs_of_list expected in
      if observed = wanted then Ok ()
      else violated ClosedPeriodImmutable (EntryPointsChanged
        (filter (\<lambda>s. \<not> bs_contains wanted s) (bt_keys observed))
        (filter (\<lambda>s. \<not> bs_contains observed s) (bt_keys wanted))))"

definition assert_intercompany_eliminated ::
  "'d decimal_ops \<Rightarrow> (string, 'd) btree \<Rightarrow> chart_of_accounts \<Rightarrow> 'd checked" where
  "assert_intercompany_eliminated D bals C =
     (let intercompany = map snd (filter (\<lambda>(reference, _).
            case resolve C reference of Some a \<Rightarrow> ca_intercompany a | None \<Rightarrow> False) bals)
      in if intercompany = [] then Ok ()
         else
           res_bind (checked_sum D intercompany ConsolidationComplete) (\<lambda>t.
           if is_zero D t then Ok () else violated ConsolidationComplete (IntercompanyNet t)))"

end
