(* ===== verification/Assertion_Proofs.thy ===== *)
theory Assertion_Proofs
  imports Assertions Ledger_Example
begin

text \<open>
  The verdicts read as numbers: each assertion accepts exactly the values that satisfy the
  invariant it is named after.
\<close>

section \<open>Replay does not depend on an error type\<close>

lemma post_any: "res_map_err f (post D s i ls) = post D s i ls"
proof -
  have "res_map_err f (post_line D l b) = post_line D l b" for l b
    by (auto simp: post_line_def Let_def split: option.splits res.splits)
  then show ?thesis unfolding post_def res_map_err_bind by (simp add: res_map_err_fold)
qed

lemma apply_any: "res_map_err f (apply_event D s e) = apply_event D s e"
  by (cases e) (auto simp: post_any res_map_err_bind split: option.splits)

lemma replay_any:
  assumes "replay D evs = (Ok s :: ('e, 'd ledger_state) res)"
  shows "replay D evs = (Ok s :: ('f, 'd ledger_state) res)"
proof -
  have "res_map_err (undefined :: 'e \<Rightarrow> 'f) (replay D evs) = replay D evs"
    unfolding replay_def replay_from_def by (rule res_map_err_fold) (rule apply_any)
  with assms show ?thesis by simp
qed

lemma history_replays: "ledger_history D h s \<Longrightarrow> replay D h = (Ok s :: ('e, 'd ledger_state) res)"
  by (rule replay_any) (use history_log in blast)

section \<open>Sums and lines\<close>

lemma checked_fold_sum:
  "res_fold (\<lambda>x acc. dec_add D acc x) xs acc = (Ok t :: (unit, 'd) res) \<Longrightarrow>
   res_fold (\<lambda>x acc. ok_or (checked_add D acc x) (f acc x)) xs acc = Ok t"
  by (induction xs arbitrary: acc) (auto simp: dec_add_def)

lemma List_insert_distinct: "distinct (fold List.insert xs ys) \<longleftrightarrow> distinct ys"
  by (induction xs arbitrary: ys) auto

lemma set_fold_insert: "set (fold List.insert xs ys) = set xs \<union> set ys"
  by (induction xs arbitrary: ys) auto

lemma balanced_lines_Ok:
  "res_fold (balanced_line D) ls (as, cs) = Ok (as', cs') \<longleftrightarrow>
   (\<forall>l\<in>set ls. signed_amount D l \<noteq> None) \<and>
   as' = as @ map (\<lambda>l. amount (the (signed_amount D l))) ls \<and>
   cs' = fold List.insert (map (\<lambda>l. currency (the (signed_amount D l))) ls) cs"
  by (induction ls arbitrary: as cs) (auto simp: balanced_line_def)

lemma single_currency: "distinct cs \<Longrightarrow> cs \<noteq> [] \<Longrightarrow> \<not> 1 < length cs \<longleftrightarrow> (\<exists>c. set cs = {c})"
proof
  assume "distinct cs" "cs \<noteq> []" "\<not> 1 < length cs"
  then show "\<exists>c. set cs = {c}" by (cases cs; cases "tl cs") auto
next
  assume "distinct cs" "\<exists>c. set cs = {c}"
  then obtain c where "distinct cs" "set cs = {c}" by blast
  then have "length cs = 1" by (metis card.empty card.insert distinct_card empty_iff finite.emptyI One_nat_def)
  then show "\<not> 1 < length cs" by simp
qed

lemma image_singleton_iff:
  assumes "S \<noteq> {}"
  shows "(\<exists>c. f ` S = {c}) \<longleftrightarrow> (\<exists>c. \<forall>x\<in>S. f x = c)"
proof
  assume "\<exists>c. \<forall>x\<in>S. f x = c"
  with assms show "\<exists>c. f ` S = {c}" by (metis image_cong image_constant_conv)
qed auto

lemma line_currency_signed:
  "line_currency l = map_option currency (signed_amount D l)"
  by (auto simp: line_currency_def signed_amount_def money_negate_def money_new_def split: option.splits)

context decimal_laws
begin

lemma checked_sum_gross:
  assumes "\<forall>x\<in>set xs. multiple k (val x)" "fits_gross k (\<Sum>x\<leftarrow>xs. \<bar>val x\<bar>)"
  shows "\<exists>t. checked_sum D xs i = Ok t \<and> val t = (\<Sum>x\<leftarrow>xs. val x)"
proof -
  obtain t where "dec_sum D xs = (Ok t :: (unit, 'd) res)" "val t = (\<Sum>x\<leftarrow>xs. val x)"
    using dec_sum_gross [OF assms] by blast
  with checked_fold_sum [of D xs "dec_zero D" t "\<lambda>acc x. violation_new i (SummationOverflowed acc x)"]
  show ?thesis by (auto simp: checked_sum_def dec_sum_def)
qed

lemma signed_val: "signed_amount D l = Some m \<Longrightarrow> val (amount m) = line_value val l"
  by (auto simp: line_value_def signed_amount_def money_negate_def money_new_def split: option.splits)

lemma balanced_Ok_iff:
  assumes "lines_multiple k val ls" "fits_gross k (lines_gross val ls)"
  shows "assert_balanced D ls = Ok () \<longleftrightarrow> (\<exists>c. balanced_entry val c ls)"
proof (cases "ls \<noteq> [] \<and> (\<forall>l\<in>set ls. signed_amount D l \<noteq> None)")
  case False
  then consider "ls = []" | l where "l \<in> set ls" "signed_amount D l = None" by auto
  then show ?thesis
  proof cases
    case 2
    then have "line_currency l = None" by (simp add: line_currency_signed [of _ D])
    with 2 show ?thesis by (auto simp: assert_balanced_def balanced_entry_def balanced_lines_Ok)
  qed (simp add: assert_balanced_def balanced_entry_def violated_def)
next
  case True
  let ?as = "map (\<lambda>l. amount (the (signed_amount D l))) ls"
  let ?cs = "fold List.insert (map (\<lambda>l. currency (the (signed_amount D l))) ls) []"
  have v: "val (amount (the (signed_amount D l))) = line_value val l" if "l \<in> set ls" for l
    using True that signed_val by (metis option.exhaust_sel)
  have vs: "map val ?as = map (line_value val) ls" using v by simp
  have "\<forall>x\<in>set ?as. multiple k (val x)" using assms(1) v by (auto simp: lines_multiple_def)
  moreover have "(\<Sum>x\<leftarrow>?as. \<bar>val x\<bar>) = lines_gross val ls"
    unfolding lines_gross_def by (rule arg_cong [of _ _ sum_list]) (use v in simp)
  ultimately obtain t where t: "checked_sum D ?as Balanced = Ok t" "val t = (\<Sum>l\<leftarrow>ls. line_value val l)"
    using checked_sum_gross [of ?as k Balanced] assms(2) vs by metis
  have d: "distinct ?cs" "?cs \<noteq> []"
    using True by (auto simp: List_insert_distinct set_fold_insert simp flip: set_empty)
  let ?f = "\<lambda>l. currency (the (signed_amount D l))"
  have lc: "line_currency l = Some (?f l)" if "l \<in> set ls" for l
    using True that by (auto simp: line_currency_signed [of _ D])
  have "set ?cs = ?f ` set ls" by (simp add: set_fold_insert)
  then have "(\<exists>c. set ?cs = {c}) \<longleftrightarrow> (\<exists>c. \<forall>l\<in>set ls. ?f l = c)"
    using image_singleton_iff [of "set ls" ?f] True by simp
  then have one: "\<not> 1 < length ?cs \<longleftrightarrow> (\<exists>c. \<forall>l\<in>set ls. line_currency l = Some c)"
    unfolding single_currency [OF d] using lc by simp
  have "res_fold (balanced_line D) ls ([], []) = Ok (?as, ?cs)" using True by (simp add: balanced_lines_Ok)
  then have "assert_balanced D ls = Ok () \<longleftrightarrow> \<not> 1 < length ?cs \<and> val t = 0"
    using True t(1) by (simp add: assert_balanced_def violated_def)
  then show ?thesis unfolding one t(2) using True by (auto simp: balanced_entry_def)
qed

end

section \<open>The other verdicts\<close>

lemma monotonic_iff: "assert_monotonic_sequence xs = (Ok () :: 'd checked) \<longleftrightarrow> sorted_wrt (<) xs"
proof (induction xs rule: assert_monotonic_sequence.induct)
  case (1 previous nxt rest)
  then show ?case by (auto simp: violated_def)
qed auto

lemma mutations_rejected_iff:
  "assert_all_mutations_rejected ms = (Ok () :: 'd checked) \<longleftrightarrow> ms \<noteq> [] \<and> (\<forall>m\<in>set ms. rejected m)"
  by (auto simp: assert_all_mutations_rejected_def res_fold_unit check_attempt_def violated_def)

text \<open>
  A zero that carries a minus sign: the debit side is the only one that refuses it.
\<close>

lemma negative_zero_side:
  assumes "is_zero D x" "is_sign_negative D x"
  shows "on_normal_side D a x \<longleftrightarrow> normal_balance a = NormalCredit"
  using assms by (cases "normal_balance a") (simp_all add: on_normal_side_def)

context decimal_laws
begin

lemma money_eq_refl: "money_eq D m m"
  by (simp add: money_eq_def)

lemma line_eq_refl: "line_eq D l l"
  by (auto simp: line_eq_def option.rel_refl money_eq_refl)

lemma state_eq_refl: "state_eq D s s"
  by (auto simp: state_eq_def money_eq_refl line_eq_refl intro!: list.rel_refl)

lemma replay_stable_iff:
  "assert_replay_stable D evs live = Ok () \<longleftrightarrow>
     (\<exists>s. replay D evs = (Ok s :: ('d invariant_violation, 'd ledger_state) res) \<and> state_eq D s live)"
  by (cases "replay D evs :: ('d invariant_violation, 'd ledger_state) res")
    (simp_all add: assert_replay_stable_def state_eq_refl violated_def)

lemma roll_forward_verdict:
  "assert_roll_forward D closing opening = Ok () \<longleftrightarrow>
     (\<forall>a. val (amount_or_zero D closing a) = val (amount_or_zero D opening a))"
proof -
  have none: "val (amount_or_zero D m a) = 0" if "a \<notin> set (bt_keys m)" for m a
  proof -
    have "bt_get m a = None" using that by (simp add: bt_get_map_of map_of_eq_None_iff bt_keys_def)
    then show ?thesis by (simp add: amount_or_zero_def)
  qed
  have "assert_roll_forward D closing opening = Ok () \<longleftrightarrow>
      (\<forall>a\<in>set (bt_keys closing) \<union> set (bt_keys opening).
         val (amount_or_zero D closing a) = val (amount_or_zero D opening a))"
    by (simp add: assert_roll_forward_def res_fold_unit carries_forward_def Let_def violated_def)
  with none show ?thesis by (metis Un_iff)
qed

end

end
