(* ===== verification/Generator.thy ===== *)
theory Generator
  imports Assertion_Proofs
begin

unbundle bit_operations_syntax

text \<open>
  \<open>crates/testkit/src/generator.rs\<close> and \<open>fixtures.rs\<close>: balanced ledgers drawn from a seed.
  The generator is \<open>splitmix64\<close> on 64-bit words. The account identifier a code stands for
  is the runner's \<open>account_id\<close>, an argument here.
\<close>

section \<open>The generator\<close>

datatype Rng = Rng (rng_state: "64 word")

definition rng_new :: "64 word \<Rightarrow> Rng" where
  "rng_new seed = Rng seed"

definition next_u64 :: "Rng \<Rightarrow> 64 word \<times> Rng" where
  "next_u64 r =
     (let s = rng_state r + 0x9E3779B97F4A7C15;
          z = (s XOR (drop_bit 30 s)) * 0xBF58476D1CE4E5B9;
          z = (z XOR (drop_bit 27 z)) * 0x94D049BB133111EB
      in (z XOR (drop_bit 31 z), Rng s))"

definition below :: "64 word \<Rightarrow> Rng \<Rightarrow> 64 word \<times> Rng" where
  "below n r = (if n = 0 then (0, r) else let (x, r') = next_u64 r in (x mod n, r'))"

text \<open>\<open>low..=high\<close>; the span is computed in \<open>u64\<close>, which wraps in a release build.\<close>

definition between :: "64 word \<Rightarrow> 64 word \<Rightarrow> Rng \<Rightarrow> 64 word \<times> Rng" where
  "between low high r =
     (if high \<le> low then (low, r)
      else let (x, r') = below (high - low + 1) r in (low + x, r'))"

section \<open>What a ledger may contain\<close>

record generator_spec =
  g_accounts :: "string list"
  g_currency :: Currency
  g_entries :: nat
  g_min_lines :: nat
  g_max_lines :: nat
  g_max_minor_units :: "64 word"
  g_scale :: nat

definition spec_small :: generator_spec where
  "spec_small = \<lparr>g_accounts = [''1000'', ''1100'', ''1400'', ''2000'', ''2400'', ''4000'', ''5000'', ''6000''],
     g_currency = Usd, g_entries = 25, g_min_lines = 2, g_max_lines = 6, g_max_minor_units = 5000000, g_scale = 2\<rparr>"

definition spec_with_currency :: "generator_spec \<Rightarrow> Currency \<Rightarrow> nat \<Rightarrow> generator_spec" where
  "spec_with_currency g c s = g\<lparr>g_currency := c, g_scale := s\<rparr>"

record 'd generated_entry =
  ge_lines :: "'d journal_line list"

record 'd generated_ledger =
  gl_seed :: "64 word"
  gl_currency :: Currency
  gl_entries :: "'d generated_entry list"

definition all_lines :: "'d generated_ledger \<Rightarrow> 'd journal_line list" where
  "all_lines L = concat (map ge_lines (gl_entries L))"

text \<open>The balances, accumulated without the aggregate.\<close>

definition truth_line ::
  "'d decimal_ops \<Rightarrow> 'd journal_line \<Rightarrow> (AccountId, 'd) btree \<Rightarrow> (AccountId, 'd) btree" where
  "truth_line D l b =
     (case (case (debit l, credit l) of
              (Some d, None) \<Rightarrow> Some (amount d)
            | (None, Some c) \<Rightarrow> Some (dec_neg D (amount c))
            | _ \<Rightarrow> None) of
        None \<Rightarrow> b
      | Some delta \<Rightarrow>
          let slot = (case bt_get b (account l) of Some x \<Rightarrow> x | None \<Rightarrow> dec_zero D)
          in bt_insert (account l) (case checked_add D slot delta of Some x \<Rightarrow> x | None \<Rightarrow> slot) b)"

definition ground_truth :: "'d decimal_ops \<Rightarrow> 'd generated_ledger \<Rightarrow> (AccountId, 'd) btree" where
  "ground_truth D L = fold (\<lambda>e b. fold (truth_line D) (ge_lines e) b) (gl_entries L) []"

section \<open>Generation\<close>

text \<open>\<open>Decimal::new(i64::try_from(minor).unwrap_or(i64::MAX), scale)\<close>.\<close>

definition minor_amount :: "'d decimal_ops \<Rightarrow> 64 word \<Rightarrow> nat \<Rightarrow> ('e, 'd) res" where
  "minor_amount D minor s = or_panic (dec_new D (min (uint minor) (2 ^ 63 - 1)) s)"

text \<open>One draw of the inner loop, on the generator, the lines and the running sum.\<close>

definition draw_line ::
  "'d decimal_ops \<Rightarrow> (string \<Rightarrow> AccountId) \<Rightarrow> generator_spec \<Rightarrow> 64 word \<Rightarrow> nat
     \<Rightarrow> Rng \<times> 'd journal_line list \<times> 'd \<Rightarrow> ('e, Rng \<times> 'd journal_line list \<times> 'd) res" where
  "draw_line D account_id g account_count _ st =
     (case st of (r, ls, running) \<Rightarrow>
      let (i, r1) = below account_count r in
      if length (g_accounts g) \<le> unat i then Ok (r1, ls, running)
      else
        let (minor, r2) = between 1 (max (g_max_minor_units g) 1) r1 in
        res_bind (minor_amount D minor (g_scale g)) (\<lambda>magnitude.
        let m = money_new magnitude (g_currency g); a = account_id (g_accounts g ! unat i);
            (coin, r3) = next_u64 r2
        in if coin mod 2 = 0
           then Ok (r3, ls @ [journal_line_debit a m],
             case checked_add D running magnitude of Some x \<Rightarrow> x | None \<Rightarrow> running)
           else Ok (r3, ls @ [journal_line_credit a m],
             case checked_sub D running magnitude of Some x \<Rightarrow> x | None \<Rightarrow> running)))"

text \<open>The plug: the negation of the running sum, on an account drawn last.\<close>

definition draw_plug ::
  "'d decimal_ops \<Rightarrow> (string \<Rightarrow> AccountId) \<Rightarrow> generator_spec \<Rightarrow> 64 word
     \<Rightarrow> Rng \<times> 'd journal_line list \<times> 'd \<Rightarrow> Rng \<times> 'd journal_line list" where
  "draw_plug D account_id g account_count st =
     (case st of (r, ls, running) \<Rightarrow>
      let (i, r1) = below account_count r in
      if length (g_accounts g) \<le> unat i then (r1, ls)
      else
        let a = account_id (g_accounts g ! unat i); m = money_new (dec_abs D running) (g_currency g)
        in if is_sign_negative D running then (r1, ls @ [journal_line_debit a m])
           else (r1, ls @ [journal_line_credit a m]))"

definition draw_entry ::
  "'d decimal_ops \<Rightarrow> (string \<Rightarrow> AccountId) \<Rightarrow> generator_spec \<Rightarrow> nat
     \<Rightarrow> Rng \<times> 'd generated_entry list \<Rightarrow> ('e, Rng \<times> 'd generated_entry list) res" where
  "draw_entry D account_id g _ st =
     (case st of (r, es) \<Rightarrow>
      let account_count = of_nat (max (length (g_accounts g)) 2);
          min_lines = of_nat (max (g_min_lines g) 2);
          max_lines = max (of_nat (g_max_lines g)) min_lines;
          (line_count, r1) = between min_lines max_lines r
      in res_bind (res_fold (draw_line D account_id g account_count) [0..<unat line_count - 1] (r1, [], dec_zero D)) (\<lambda>st.
         let (r2, ls) = draw_plug D account_id g account_count st
         in Ok (r2, es @ [\<lparr>ge_lines = ls\<rparr>])))"

definition generate ::
  "'d decimal_ops \<Rightarrow> (string \<Rightarrow> AccountId) \<Rightarrow> 64 word \<Rightarrow> generator_spec \<Rightarrow> ('e, 'd generated_ledger) res" where
  "generate D account_id seed g =
     res_bind (res_fold (draw_entry D account_id g) [0..<g_entries g] (rng_new seed, [])) (\<lambda>(r, es).
     Ok \<lparr>gl_seed = seed, gl_currency = g_currency g, gl_entries = es\<rparr>)"

section \<open>The demo ledger\<close>

definition demo_seed :: "64 word" where
  "demo_seed = 0x0FA1C0DE2026"

definition demo_accounts :: "string list" where
  "demo_accounts = [''1000'', ''1100'', ''1400'', ''1500'', ''2000'', ''2400'', ''4000'', ''5000'', ''6100'']"

definition demo_spec :: generator_spec where
  "demo_spec = \<lparr>g_accounts = demo_accounts, g_currency = Usd, g_entries = 120, g_min_lines = 2,
     g_max_lines = 5, g_max_minor_units = 5000000, g_scale = 2\<rparr>"

definition demo_with_seed ::
  "'d decimal_ops \<Rightarrow> (string \<Rightarrow> AccountId) \<Rightarrow> 64 word \<Rightarrow> ('e, 'd generated_ledger) res" where
  "demo_with_seed D account_id seed = generate D account_id seed demo_spec"

definition demo :: "'d decimal_ops \<Rightarrow> (string \<Rightarrow> AccountId) \<Rightarrow> ('e, 'd generated_ledger) res" where
  "demo D account_id = demo_with_seed D account_id demo_seed"

end
