(* ===== verification/Generator_Proofs.thy ===== *)
theory Generator_Proofs
  imports Generator
begin

text \<open>
  Drawn entries balance: the draws stay in range, every line is a multiple of the minor unit
  in one currency, and the plug is the negation of what was drawn.
\<close>

section \<open>Draws\<close>

lemma unat_bound: "unat (w :: 64 word) < 2 ^ 64"
  using unsigned_less [of w] by simp

lemma below_less: "n \<noteq> 0 \<Longrightarrow> fst (below n r) < n"
  by (cases "next_u64 r") (simp add: below_def word_gt_0 word_mod_less_divisor)

lemma between_range:
  assumes "low \<le> high" "0 < low"
  shows "low \<le> fst (between low high r) \<and> fst (between low high r) \<le> high"
proof (cases "high \<le> low")
  case False
  let ?n = "high - low + 1"
  have n: "?n \<noteq> 0" "unat ?n = unat high - unat low + 1"
  proof -
    have "unat (high - low) = unat high - unat low" using assms(1) by (simp add: unat_sub)
    moreover have "unat high < 2 ^ 64" "0 < unat low" using unat_bound [of high] assms(2) by (simp_all add: word_gt_0 unat_gt_0)
    moreover have "unat low \<le> unat high" using assms(1) by (simp add: word_le_nat_alt)
    ultimately have "unat (high - low) + unat (1 :: 64 word) < 2 ^ 64" by simp
    then have "unat ?n = unat (high - low) + 1" using unat_add_lem [of "high - low" 1] by simp
    with \<open>unat (high - low) = unat high - unat low\<close> show "unat ?n = unat high - unat low + 1" "?n \<noteq> 0"
      by (auto simp: unat_eq_0 [symmetric] simp del: unat_eq_0)
  qed
  let ?x = "fst (below ?n r)"
  have x: "unat ?x \<le> unat high - unat low" using below_less [OF n(1), of r] n(2) by (simp add: word_less_nat_alt)
  have le: "unat low \<le> unat high" using assms(1) by (simp add: word_le_nat_alt)
  have "unat low + unat ?x < 2 ^ 64" using x le unat_bound [of high] by simp
  then have "unat (low + ?x) = unat low + unat ?x" by (simp add: unat_word_ariths)
  with x le have "low \<le> low + ?x" "low + ?x \<le> high" by (simp_all add: word_le_nat_alt)
  moreover have "fst (between low high r) = low + ?x" using False by (simp add: between_def case_prod_unfold Let_def)
  ultimately show ?thesis by simp
qed (use assms in \<open>simp add: between_def\<close>)

lemma pick_in_range:
  assumes "2 \<le> n" "n < 2 ^ 64"
  shows "unat (fst (below (of_nat n) r)) < n"
proof -
  have "unat (of_nat n :: 64 word) = n" using assms(2) by (simp add: unat_of_nat)
  moreover from this have "(of_nat n :: 64 word) \<noteq> 0" using assms(1) by (metis unat_0 not_numeral_le_zero)
  ultimately show ?thesis using below_less [of "of_nat n" r] by (simp add: word_less_nat_alt)
qed

section \<open>Lines\<close>

lemma line_sides [simp]:
  "line_currency (journal_line_debit a m) = Some (currency m)"
  "line_currency (journal_line_credit a m) = Some (currency m)"
  "line_value val (journal_line_debit a m) = val (amount m)"
  "line_value val (journal_line_credit a m) = - val (amount m)"
  by (simp_all add: journal_line_debit_def journal_line_credit_def line_currency_def line_value_def)

definition drawn :: "nat \<Rightarrow> ('d \<Rightarrow> rat) \<Rightarrow> Currency \<Rightarrow> rat \<Rightarrow> 'd journal_line list \<Rightarrow> bool" where
  "drawn s val c M ls \<longleftrightarrow>
     (\<forall>l\<in>set ls. line_currency l = Some c \<and> multiple s (line_value val l) \<and> \<bar>line_value val l\<bar> \<le> M)"

lemma drawn_append [simp]: "drawn s val c M (xs @ ys) \<longleftrightarrow> drawn s val c M xs \<and> drawn s val c M ys"
  by (auto simp: drawn_def)

lemma drawn_Nil [simp]: "drawn s val c M []"
  by (simp add: drawn_def)

lemma drawn_sum:
  assumes "drawn s val c M ls"
  shows "multiple s (\<Sum>l\<leftarrow>ls. line_value val l)" "\<bar>\<Sum>l\<leftarrow>ls. line_value val l\<bar> \<le> of_nat (length ls) * M"
    "lines_gross val ls \<le> of_nat (length ls) * M"
  using assms
  by (induction ls) (auto simp: drawn_def algebra_simps intro: order_trans [OF abs_triangle_ineq add_mono])

text \<open>The largest amount a single draw can have.\<close>

definition largest_draw :: "generator_spec \<Rightarrow> rat" where
  "largest_draw g = of_int (uint (max (g_max_minor_units g) 1)) / 10 ^ g_scale g"

definition usable :: "generator_spec \<Rightarrow> bool" where
  "usable g \<longleftrightarrow> 2 \<le> length (g_accounts g) \<and> length (g_accounts g) < 2 ^ 64 \<and> g_scale g \<le> 28"

lemma largest_draw_nonneg [simp]: "0 \<le> largest_draw g"
  unfolding largest_draw_def by (intro divide_nonneg_nonneg) (simp_all only: of_int_0_le_iff, simp_all)

context decimal_laws
begin

lemma minor_amount_value:
  assumes "usable g" "1 \<le> minor" "minor \<le> max (g_max_minor_units g) 1"
  obtains x where "minor_amount D minor (g_scale g) = (Ok x :: ('e, 'd) res)" "multiple (g_scale g) (val x)"
    "0 \<le> val x" "val x \<le> largest_draw g"
proof -
  let ?m = "min (uint minor) (2 ^ 63 - 1)"
  have m: "0 \<le> ?m" "\<bar>?m\<bar> < 2 ^ 63" "?m \<le> uint (max (g_max_minor_units g) 1)"
    using assms(3) by (auto simp: word_le_def min_def)
  obtain x where x: "dec_new D ?m (g_scale g) = Some x" "val x = of_int ?m / 10 ^ g_scale g"
    using new_val [OF _ m(2)] assms(1) unfolding usable_def by blast
  have "val x \<le> largest_draw g"
    unfolding x(2) largest_draw_def using m(3) by (intro divide_right_mono) (simp_all only: of_int_le_iff, simp)
  moreover have "multiple (g_scale g) (val x)" unfolding x(2) multiple_def by blast
  ultimately show ?thesis using that x(1,2) m(1) by (simp add: minor_amount_def)
qed

lemma draw_line_step:
  assumes g: "usable g" and d: "drawn (g_scale g) val (g_currency g) (largest_draw g) ls"
    and r: "val running = (\<Sum>l\<leftarrow>ls. line_value val l)"
    and fit: "fits_gross (g_scale g) (of_nat (Suc (length ls)) * largest_draw g)"
  shows "\<exists>r' l running'. draw_line D aid g (of_nat (length (g_accounts g))) k (rng, ls, running) =
      (Ok (r', ls @ [l], running') :: ('e, _) res) \<and>
    drawn (g_scale g) val (g_currency g) (largest_draw g) [l] \<and> val running' = val running + line_value val l"
proof -
  let ?n = "of_nat (length (g_accounts g))" and ?s = "g_scale g" and ?M = "largest_draw g"
  obtain i r1 where i: "below ?n rng = (i, r1)" by (cases "below ?n rng")
  have pick: "\<not> length (g_accounts g) \<le> unat i"
    using pick_in_range [of "length (g_accounts g)" rng] g i by (simp add: usable_def)
  obtain minor r2 where b: "between 1 (max (g_max_minor_units g) 1) r1 = (minor, r2)"
    by (cases "between 1 (max (g_max_minor_units g) 1) r1")
  have "1 \<le> minor" "minor \<le> max (g_max_minor_units g) 1"
    using between_range [of 1 "max (g_max_minor_units g) 1" r1] b by simp_all
  from minor_amount_value [OF g this] obtain x where x: "minor_amount D minor ?s = (Ok x :: ('e, 'd) res)"
    "multiple ?s (val x)" "0 \<le> val x" "val x \<le> ?M" by metis
  obtain coin r3 where c: "next_u64 r2 = (coin, r3)" by (cases "next_u64 r2")
  have rm: "multiple ?s (val running)" "\<bar>val running\<bar> \<le> of_nat (length ls) * ?M"
    unfolding r using drawn_sum [OF d] by blast+
  have f: "fits_gross ?s (\<bar>val running\<bar> + val x)"
    by (rule fits_gross_mono [OF fit]) (use rm(2) x(4) in \<open>simp add: algebra_simps\<close>)
  have "representable (val running + val x)" "representable (val running - val x)"
    by (rule multiple_representable [of ?s]; use rm(1) x(2,3) in \<open>auto intro!: fits_gross_mono [OF f]\<close>)+
  then obtain up dn where ud: "checked_add D running x = Some up" "val up = val running + val x"
    "checked_sub D running x = Some dn" "val dn = val running - val x" using add_exact sub_exact by blast
  let ?a = "aid (g_accounts g ! unat i)" and ?m = "money_new x (g_currency g)"
  show ?thesis
  proof (cases "coin mod 2 = 0")
    case True
    then have "draw_line D aid g ?n k (rng, ls, running) = (Ok (r3, ls @ [journal_line_debit ?a ?m], up) :: ('e, _) res)"
      using i pick b x(1) c ud by (simp add: draw_line_def)
    moreover have "drawn ?s val (g_currency g) ?M [journal_line_debit ?a ?m]"
      using x by (simp add: drawn_def money_new_def)
    ultimately show ?thesis using ud by (fastforce simp: money_new_def)
  next
    case False
    then have "draw_line D aid g ?n k (rng, ls, running) = (Ok (r3, ls @ [journal_line_credit ?a ?m], dn) :: ('e, _) res)"
      using i pick b x(1) c ud by (simp add: draw_line_def)
    moreover have "drawn ?s val (g_currency g) ?M [journal_line_credit ?a ?m]"
      using x by (simp add: drawn_def money_new_def)
    ultimately show ?thesis using ud by (fastforce simp: money_new_def)
  qed
qed

lemma draw_lines:
  assumes "usable g" "drawn (g_scale g) val (g_currency g) (largest_draw g) ls"
    "val running = (\<Sum>l\<leftarrow>ls. line_value val l)"
    "fits_gross (g_scale g) (of_nat (length ls + length ks) * largest_draw g)"
  shows "\<exists>r' ls' running'. res_fold (draw_line D aid g (of_nat (length (g_accounts g)))) ks (rng, ls, running) =
      (Ok (r', ls', running') :: ('e, _) res) \<and> length ls' = length ls + length ks \<and>
    drawn (g_scale g) val (g_currency g) (largest_draw g) ls' \<and> val running' = (\<Sum>l\<leftarrow>ls'. line_value val l)"
  using assms(2-4)
proof (induction ks arbitrary: rng ls running)
  case (Cons k ks)
  have "fits_gross (g_scale g) (of_nat (Suc (length ls)) * largest_draw g)"
    by (rule fits_gross_mono [OF Cons.prems(3)]) (simp add: mult_right_mono)
  from draw_line_step [OF assms(1) Cons.prems(1,2) this, of aid k rng] obtain r' l running' where
    1: "draw_line D aid g (of_nat (length (g_accounts g))) k (rng, ls, running) =
        (Ok (r', ls @ [l], running') :: ('e, _) res)"
      "drawn (g_scale g) val (g_currency g) (largest_draw g) [l]" "val running' = val running + line_value val l"
    by blast
  have "drawn (g_scale g) val (g_currency g) (largest_draw g) (ls @ [l])"
    "val running' = (\<Sum>l\<leftarrow>ls @ [l]. line_value val l)"
    "fits_gross (g_scale g) (of_nat (length (ls @ [l]) + length ks) * largest_draw g)"
    using 1(2,3) Cons.prems by simp_all
  from Cons.IH [OF this, of r'] 1(1) show ?case by auto
qed auto

lemma draw_plug_closes:
  assumes g: "usable g" and d: "drawn (g_scale g) val (g_currency g) (largest_draw g) ls"
    and r: "val running = (\<Sum>l\<leftarrow>ls. line_value val l)"
  shows "\<exists>r' p. draw_plug D aid g (of_nat (length (g_accounts g))) (rng, ls, running) = (r', ls @ [p]) \<and>
    line_currency p = Some (g_currency g) \<and> line_value val p = - val running"
proof -
  let ?n = "of_nat (length (g_accounts g))"
  obtain i r1 where i: "below ?n rng = (i, r1)" by (cases "below ?n rng")
  have pick: "\<not> length (g_accounts g) \<le> unat i"
    using pick_in_range [of "length (g_accounts g)" rng] g i by (simp add: usable_def)
  have "is_sign_negative D running \<Longrightarrow> \<bar>val running\<bar> = - val running"
    "\<not> is_sign_negative D running \<Longrightarrow> \<bar>val running\<bar> = val running"
    using sign_val [of running] by (cases "val running = 0"; simp)+
  with i pick show ?thesis by (simp add: draw_plug_def money_new_def Let_def)
qed

end

section \<open>Entries and ledgers\<close>

definition line_limit :: "generator_spec \<Rightarrow> nat" where
  "line_limit g = max (g_max_lines g) (max (g_min_lines g) 2)"

definition entry_ok :: "('d \<Rightarrow> rat) \<Rightarrow> generator_spec \<Rightarrow> 'd generated_entry \<Rightarrow> bool" where
  "entry_ok val g e \<longleftrightarrow> balanced_entry val (g_currency g) (ge_lines e) \<and> lines_multiple (g_scale g) val (ge_lines e) \<and>
     lines_gross val (ge_lines e) \<le> of_nat (2 * line_limit g) * largest_draw g \<and>
     2 \<le> length (ge_lines e) \<and> length (ge_lines e) \<le> line_limit g"

lemma line_count_range:
  assumes "line_limit g < 2 ^ 64" "between (of_nat (max (g_min_lines g) 2))
      (max (of_nat (g_max_lines g)) (of_nat (max (g_min_lines g) 2))) r = (n, r')"
  shows "2 \<le> unat n \<and> unat n \<le> line_limit g"
proof -
  let ?lo = "of_nat (max (g_min_lines g) 2) :: 64 word" and ?hi = "of_nat (g_max_lines g) :: 64 word"
  have lo: "unat ?lo = max (g_min_lines g) 2" using assms(1) by (simp add: line_limit_def unat_of_nat del: of_nat_max)
  have hi: "unat ?hi = g_max_lines g" using assms(1) by (simp add: line_limit_def unat_of_nat)
  have "0 < ?lo" using lo by (simp add: word_less_nat_alt del: of_nat_max)
  with between_range [of ?lo "max ?hi ?lo" r] assms(2) have "?lo \<le> n" "n \<le> max ?hi ?lo" by auto
  then have "max (g_min_lines g) 2 \<le> unat n" "unat n \<le> max (unat ?hi) (unat ?lo)"
    using lo by (simp_all add: word_le_nat_alt max_def split: if_splits)
  with lo hi show ?thesis by (simp add: line_limit_def)
qed

context decimal_laws
begin

lemma draw_entry_ok:
  assumes g: "usable g" and lim: "line_limit g < 2 ^ 64"
    and fit: "fits_gross (g_scale g) (of_nat (2 * line_limit g) * largest_draw g)"
  shows "\<exists>r' e. draw_entry D aid g k (rng, es) = (Ok (r', es @ [e]) :: ('e, _) res) \<and> entry_ok val g e"
proof -
  let ?n = "of_nat (length (g_accounts g)) :: 64 word" and ?M = "largest_draw g" and ?s = "g_scale g"
  have mx: "max (length (g_accounts g)) 2 = length (g_accounts g)" using g by (simp add: usable_def)
  obtain lc r1 where lc: "between (of_nat (max (g_min_lines g) 2))
      (max (of_nat (g_max_lines g)) (of_nat (max (g_min_lines g) 2))) rng = (lc, r1)" by fastforce
  note range = line_count_range [OF lim lc]
  let ?ks = "[0..<unat lc - 1]"
  have "length ([] :: 'd journal_line list) + length ?ks \<le> 2 * line_limit g" using range by auto
  then have "of_nat (length ([] :: 'd journal_line list) + length ?ks) * ?M \<le> of_nat (2 * line_limit g) * ?M"
    by (intro mult_right_mono) (simp_all only: of_nat_le_iff largest_draw_nonneg)
  then have "fits_gross ?s (of_nat (length ([] :: 'd journal_line list) + length ?ks) * ?M)"
    by (rule fits_gross_mono [OF fit])
  from draw_lines [OF g _ _ this, of "dec_zero D" aid r1] obtain r2 ls running where
    ls: "res_fold (draw_line D aid g ?n) ?ks (r1, [], dec_zero D) = (Ok (r2, ls, running) :: ('e, _) res)"
      "length ls = unat lc - 1" "drawn ?s val (g_currency g) ?M ls" "val running = (\<Sum>l\<leftarrow>ls. line_value val l)"
    by auto
  obtain r3 p where p: "draw_plug D aid g ?n (r2, ls, running) = (r3, ls @ [p])"
    "line_currency p = Some (g_currency g)" "line_value val p = - val running"
    using draw_plug_closes [OF g ls(3,4)] by blast
  note sums = drawn_sum [OF ls(3)]
  have len: "2 * length ls \<le> 2 * line_limit g" using range ls(2) by auto
  have "balanced_entry val (g_currency g) (ls @ [p])"
    using ls(3,4) p(2,3) by (auto simp: balanced_entry_def drawn_def)
  moreover have "lines_multiple ?s val (ls @ [p])"
    using ls(3,4) p(3) sums(1) by (auto simp: lines_multiple_def drawn_def)
  moreover have "lines_gross val (ls @ [p]) \<le> of_nat (2 * line_limit g) * ?M"
  proof -
    have "lines_gross val (ls @ [p]) = lines_gross val ls + \<bar>val running\<bar>" by (simp add: lines_gross_def p(3))
    also have "\<dots> \<le> of_nat (2 * length ls) * ?M" using sums(2,3) ls(4) by simp
    also have "\<dots> \<le> of_nat (2 * line_limit g) * ?M" 
      using len by (intro mult_right_mono) (simp_all only: of_nat_le_iff largest_draw_nonneg)
    finally show ?thesis .
  qed
  ultimately have "entry_ok val g \<lparr>ge_lines = ls @ [p]\<rparr>" using ls(2) range by (simp add: entry_ok_def)
  moreover have "draw_entry D aid g k (rng, es) = (Ok (r3, es @ [\<lparr>ge_lines = ls @ [p]\<rparr>]) :: ('e, _) res)"
    by (simp add: draw_entry_def Let_def mx lc ls(1) p(1) del: of_nat_max res_bind_eq_Ok One_nat_def)
  ultimately show ?thesis by blast
qed

lemma draw_entries_ok:
  assumes "usable g" "line_limit g < 2 ^ 64"
    "fits_gross (g_scale g) (of_nat (2 * line_limit g) * largest_draw g)" "\<forall>e\<in>set es. entry_ok val g e"
  shows "\<exists>r' es'. res_fold (draw_entry D aid g) ks (rng, es) = (Ok (r', es') :: ('e, _) res) \<and>
    length es' = length es + length ks \<and> (\<forall>e\<in>set es'. entry_ok val g e)"
  using assms(4)
proof (induction ks arbitrary: rng es)
  case (Cons k ks)
  from draw_entry_ok [OF assms(1-3)] obtain r' e where
    e: "draw_entry D aid g k (rng, es) = (Ok (r', es @ [e]) :: ('e, _) res)" "entry_ok val g e" by blast
  then have "\<forall>x\<in>set (es @ [e]). entry_ok val g x" using Cons.prems by simp
  from Cons.IH [OF this, of r'] e(1) show ?case by auto
qed auto

lemma generate_ok:
  assumes "usable g" "line_limit g < 2 ^ 64"
    "fits_gross (g_scale g) (of_nat (2 * line_limit g) * largest_draw g)"
  shows "\<exists>L. generate D aid seed g = (Ok L :: ('e, 'd generated_ledger) res) \<and> gl_seed L = seed \<and>
    gl_currency L = g_currency g \<and> length (gl_entries L) = g_entries g \<and> (\<forall>e\<in>set (gl_entries L). entry_ok val g e)"
proof -
  obtain r es where es: "res_fold (draw_entry D aid g) [0..<g_entries g] (rng_new seed, []) = (Ok (r, es) :: ('e, _) res)"
    "length es = g_entries g" "\<forall>e\<in>set es. entry_ok val g e"
    using draw_entries_ok [OF assms, of "[]" aid "[0..<g_entries g]" "rng_new seed"] by auto
  then show ?thesis
    by (intro exI [of _ "\<lparr>gl_seed = seed, gl_currency = g_currency g, gl_entries = es\<rparr>"]) (simp add: generate_def)
qed

end

text \<open>
  With no accounts there is nothing to draw and no plug: the entries are empty, which no
  ledger accepts.
\<close>

lemma no_accounts_no_lines:
  assumes "g_accounts g = []" "draw_entry D aid g k (rng, es) = (Ok (r', es') :: ('e, _) res)"
  shows "es' = es @ [\<lparr>ge_lines = []\<rparr>]"
proof -
  have "res_fold (draw_line D aid g n) ks (r, [], x) = (Ok (r'', ls, y) :: ('e, _) res) \<Longrightarrow> ls = []" for n ks r x r'' ls y
    by (induction ks arbitrary: r) (auto simp: draw_line_def assms(1) split: prod.splits)
  with assms show ?thesis
    by (auto simp: draw_entry_def draw_plug_def Let_def split: prod.splits)
qed

end
