(* ===== verification/Generator_Properties.thy ===== *)
theory Generator_Properties
  imports Generator_Proofs
begin

text \<open>
  What the test kit's generator and assertions are for: generated entries are balanced and
  accepted, the aggregate agrees with the generator's own balances, and the verdicts are
  the invariants they name.
\<close>

section \<open>The ground truth\<close>

definition truth_value :: "('d \<Rightarrow> rat) \<Rightarrow> (AccountId, 'd) btree \<Rightarrow> AccountId \<Rightarrow> rat" where
  "truth_value val b a = (case bt_get b a of Some x \<Rightarrow> val x | None \<Rightarrow> 0)"

lemma post_effect_append:
  assumes "post_effect k val c xs b b1" "post_effect k val c ys b1 b2"
  shows "post_effect k val c (xs @ ys) b b2"
  using assms by (auto simp: post_effect_def account_total_def lines_gross_def split: option.splits)

context decimal_laws
begin

lemma truth_line_value:
  assumes "bt_wf b" "\<forall>a. multiple k (truth_value val b a) \<and> \<bar>truth_value val b a\<bar> \<le> G"
    "line_currency l = Some c" "multiple k (line_value val l)" "fits_gross k (G + \<bar>line_value val l\<bar>)"
  shows "bt_wf (truth_line D l b) \<and> (\<forall>a. truth_value val (truth_line D l b) a =
    truth_value val b a + account_total val a [l])"
proof -
  define slot where "slot = (case bt_get b (account l) of Some x \<Rightarrow> x | None \<Rightarrow> dec_zero D)"
  have s: "val slot = truth_value val b (account l)" by (auto simp: slot_def truth_value_def split: option.splits)
  obtain d where d: "(case (debit l, credit l) of (Some d, None) \<Rightarrow> Some (amount d)
      | (None, Some c) \<Rightarrow> Some (dec_neg D (amount c)) | _ \<Rightarrow> None) = Some d" "val d = line_value val l"
    using assms(3) by (auto simp: line_currency_def line_value_def split: option.splits)
  have "fits_gross k \<bar>val slot + val d\<bar>"
    by (rule fits_gross_mono [OF assms(5)]) (use assms(2) s d(2) abs_triangle_ineq [of "val slot" "val d"] in \<open>auto intro: order_trans\<close>)
  then have "representable (val slot + val d)"
    using assms(2,4) s d(2) by (intro multiple_representable [of k]) auto
  then obtain x where "checked_add D slot d = Some x" "val x = val slot + val d" using add_exact by blast
  then have "truth_line D l b = bt_insert (account l) x b" "val x = truth_value val b (account l) + line_value val l"
    unfolding truth_line_def d(1) option.case slot_def [symmetric] Let_def using s d(2) by simp_all
  then show ?thesis using assms(1) by (auto simp: truth_value_def)
qed

lemma truth_lines_value:
  assumes "bt_wf b" "\<forall>a. multiple k (truth_value val b a) \<and> \<bar>truth_value val b a\<bar> \<le> G"
    "\<forall>l\<in>set ls. line_currency l = Some c \<and> multiple k (line_value val l)" "fits_gross k (G + lines_gross val ls)"
  shows "truth_value val (fold (truth_line D) ls b) a = truth_value val b a + account_total val a ls"
  using assms
proof (induction ls arbitrary: b G)
  case (Cons l ls)
  let ?v = "\<bar>line_value val l\<bar>"
  have "fits_gross k (G + ?v)" by (rule fits_gross_mono [OF Cons.prems(4)]) simp
  with truth_line_value [OF Cons.prems(1,2)] Cons.prems(3) have
    s: "bt_wf (truth_line D l b)" "\<And>a. truth_value val (truth_line D l b) a = truth_value val b a + account_total val a [l]"
    by auto
  have "\<forall>a. multiple k (truth_value val (truth_line D l b) a) \<and> \<bar>truth_value val (truth_line D l b) a\<bar> \<le> G + ?v"
  proof
    fix a
    have "\<bar>truth_value val b a\<bar> \<le> G" "multiple k (truth_value val b a)" using Cons.prems(2) by auto
    then show "multiple k (truth_value val (truth_line D l b) a) \<and> \<bar>truth_value val (truth_line D l b) a\<bar> \<le> G + ?v"
      using Cons.prems(3) by (auto simp: s(2) intro: order_trans [OF abs_triangle_ineq])
  qed
  from Cons.IH [OF s(1) this] Cons.prems(3,4) show ?case by (simp add: s(2) add.assoc)
qed simp

lemma ground_truth_value:
  assumes "\<forall>l\<in>set (all_lines L). line_currency l = Some c \<and> multiple k (line_value val l)"
    "fits_gross k (lines_gross val (all_lines L))"
  shows "truth_value val (ground_truth D L) a = account_total val a (all_lines L)"
proof -
  have "fold (\<lambda>e b. fold (truth_line D) (ge_lines e) b) es b = fold (truth_line D) (concat (map ge_lines es)) b" for es b
    by (induction es arbitrary: b) simp_all
  then have "ground_truth D L = fold (truth_line D) (all_lines L) []" by (simp add: ground_truth_def all_lines_def)
  with truth_lines_value [of "[]" k 0 "all_lines L" c a] assms show ?thesis by (simp add: truth_value_def)
qed

text \<open>Posting one entry after another is posting all their lines.\<close>

lemma post_all:
  assumes "\<forall>l\<in>set (concat lss). line_currency l = Some c \<and> multiple k (line_value val l)"
    "balances_ok k val (balances s)" "fits_gross k (gross val (balances s) + lines_gross val (concat lss))"
    "length ids = length lss"
  shows "\<exists>s'. replay_from D s (map2 (\<lambda>i ls. JournalEntryPosted i ls dims t) ids lss) =
      (Ok s' :: ('e, 'd ledger_state) res) \<and> post_effect k val c (concat lss) (balances s) (balances s')"
  using assms(4,1-3)
proof (induction ids lss arbitrary: s rule: list_induct2)
  case Nil
  then show ?case by (simp add: replay_from_def post_effect_Nil)
next
  case (Cons i ids ls lss)
  have "lines_gross val (concat (ls # lss)) = lines_gross val ls + lines_gross val (concat lss)"
    by (simp add: lines_gross_def)
  note split = this Cons.prems(3)
  have f1: "fits_gross k (gross val (balances s) + lines_gross val ls)"
    by (rule fits_gross_mono [OF Cons.prems(3)]) (use split(1) in simp)
  obtain b' where b': "res_fold (post_line D) ls (balances s) = (Ok b' :: ('e, 'd balance_map) res)"
    "post_effect k val c ls (balances s) b'"
    using post_lines_effect [OF Cons.prems(2) _ f1, of c] Cons.prems(1) by auto
  let ?s = "s\<lparr>balances := b', entries := bt_insert i ls (entries s)\<rparr>"
  have p: "post D s i ls = (Ok ?s :: ('e, 'd ledger_state) res)" by (simp add: post_def b'(1))
  have ok: "balances_ok k val (balances ?s)" using b'(2) by (simp add: post_effect_def)
  have "gross val (balances ?s) \<le> gross val (balances s) + lines_gross val ls" using b'(2) by (simp add: post_effect_def)
  then have "fits_gross k (gross val (balances ?s) + lines_gross val (concat lss))"
    by (intro fits_gross_mono [OF Cons.prems(3)]) (use split(1) in simp)
  from Cons.IH [OF _ ok this] Cons.prems(1) obtain s' where
    s': "replay_from D ?s (map2 (\<lambda>i ls. JournalEntryPosted i ls dims t) ids lss) = (Ok s' :: ('e, 'd ledger_state) res)"
      "post_effect k val c (concat lss) b' (balances s')" by auto
  have "post_effect k val c (ls @ concat lss) (balances s) (balances s')"
    using b'(2) s'(2) by (rule post_effect_append)
  with p s'(1) show ?case by (simp add: replay_from_def)
qed

end

text \<open>The lines of all entries together.\<close>

lemma all_lines_ok:
  assumes "\<forall>e\<in>set (gl_entries L). entry_ok val g e"
  shows "\<forall>l\<in>set (all_lines L). line_currency l = Some (g_currency g) \<and> multiple (g_scale g) (line_value val l)"
    "lines_gross val (all_lines L) \<le> of_nat (length (gl_entries L)) * (of_nat (2 * line_limit g) * largest_draw g)"
proof -
  show "\<forall>l\<in>set (all_lines L). line_currency l = Some (g_currency g) \<and> multiple (g_scale g) (line_value val l)"
    using assms by (auto simp: all_lines_def entry_ok_def balanced_entry_def lines_multiple_def)
  have "lines_gross val (concat (map ge_lines es)) \<le> of_nat (length es) * B"
    if "\<forall>e\<in>set es. lines_gross val (ge_lines e) \<le> B" for es and B :: rat
    using that by (induction es) (auto simp: lines_gross_def algebra_simps)
  then show "lines_gross val (all_lines L) \<le> of_nat (length (gl_entries L)) * (of_nat (2 * line_limit g) * largest_draw g)"
    using assms unfolding all_lines_def entry_ok_def by blast
qed

section \<open>Generated ledgers\<close>

text \<open>
  With two accounts to draw from, whatever the seed, generation succeeds and every entry
  it draws is balanced: the assertion passes and the ledger accepts it as a posting.
\<close>

theorem generated_entries_balance:
  assumes "decimal_laws D val" "usable g" "line_limit g < 2 ^ 64"
    "fits_gross (g_scale g) (of_nat (2 * line_limit g) * largest_draw g)"
  shows "\<exists>L. generate D aid seed g = (Ok L :: ('e, 'd generated_ledger) res) \<and> length (gl_entries L) = g_entries g \<and>
    (\<forall>e\<in>set (gl_entries L). assert_balanced D (ge_lines e) = Ok () \<and>
       handle_command D s (PostJournalEntry (ge_lines e) dims) i now = Ok [JournalEntryPosted i (ge_lines e) dims now])"
proof -
  obtain L where L: "generate D aid seed g = (Ok L :: ('e, 'd generated_ledger) res)"
    "length (gl_entries L) = g_entries g" "\<forall>e\<in>set (gl_entries L). entry_ok val g e"
    using decimal_laws.generate_ok [OF assms] by blast
  have "assert_balanced D (ge_lines e) = Ok () \<and>
      handle_command D s (PostJournalEntry (ge_lines e) dims) i now = Ok [JournalEntryPosted i (ge_lines e) dims now]"
    if "entry_ok val g e" for e
  proof -
    have m: "lines_multiple (g_scale g) val (ge_lines e)" and b: "balanced_entry val (g_currency g) (ge_lines e)"
      using that by (simp_all add: entry_ok_def)
    have f: "fits_gross (g_scale g) (lines_gross val (ge_lines e))"
      by (rule fits_gross_mono [OF assms(4)]) (use that in \<open>simp add: entry_ok_def\<close>)
    from b decimal_laws.balanced_Ok_iff [OF assms(1) m f] decimal_laws.handle_post_Ok_iff [OF assms(1) m f]
    show ?thesis by auto
  qed
  with L show ?thesis by blast
qed

lemma small_spec: "usable spec_small" "line_limit spec_small < 2 ^ 64" "g_entries spec_small = 25"
  "fits_gross (g_scale spec_small) (of_nat 25 * (of_nat (2 * line_limit spec_small) * largest_draw spec_small))"
  by (simp_all add: usable_def spec_small_def line_limit_def largest_draw_def fits_gross_def max_mantissa_def max_def word_le_def)

lemma small_fits: "fits_gross (g_scale spec_small) (of_nat (2 * line_limit spec_small) * largest_draw spec_small)"
  by (rule fits_gross_mono [OF small_spec(4)]) simp

theorem generated_entries_balance_witness:
  "\<exists>L. generate ref_ops (\<lambda>_. cash) 42 spec_small = (Ok L :: (unit, refdec generated_ledger) res) \<and>
     length (gl_entries L) = 25 \<and> (\<forall>e\<in>set (gl_entries L). assert_balanced ref_ops (ge_lines e) = Ok ())"
  using generated_entries_balance [OF ref_laws small_spec(1,2) small_fits, of "\<lambda>_. cash" 42 _ no_dims "EntryId 1" 0]
    small_spec(3) by auto

text \<open>
  C38: the ledger agrees with the generator's own arithmetic: posting all generated entries in
  order, under any identifiers, replays without a failure and leaves every account at the
  balance the accumulator computed without the aggregate.
\<close>

theorem aggregate_matches_ground_truth:
  assumes "decimal_laws D val" "usable g" "line_limit g < 2 ^ 64" "length ids = g_entries g"
    "fits_gross (g_scale g) (of_nat (g_entries g) * (of_nat (2 * line_limit g) * largest_draw g))"
    "generate D aid seed g = (Ok L :: ('e, 'd generated_ledger) res)"
    "fits_gross (g_scale g) (of_nat (2 * line_limit g) * largest_draw g)"
  shows "\<exists>s. replay D (map2 (\<lambda>i e. JournalEntryPosted i (ge_lines e) dims t) ids (gl_entries L)) =
      (Ok s :: ('f, 'd ledger_state) res) \<and>
    (\<forall>a. balance_value val (balances s) a = truth_value val (ground_truth D L) a)"
proof -
  from assms(6) decimal_laws.generate_ok [OF assms(1-3,7), of aid seed, where 'e = 'e]
  have L: "length (gl_entries L) = g_entries g" "\<forall>e\<in>set (gl_entries L). entry_ok val g e" by auto
  note lines = all_lines_ok [OF L(2)]
  have f: "fits_gross (g_scale g) (lines_gross val (all_lines L))"
    by (rule fits_gross_mono [OF assms(5)]) (use lines(2) L(1) in simp)
  have e: "map2 (\<lambda>i e. JournalEntryPosted i (ge_lines e) dims t) ids (gl_entries L) =
      map2 (\<lambda>i ls. JournalEntryPosted i ls dims t) ids (map ge_lines (gl_entries L))"
    by (simp add: zip_map2 case_prod_unfold)
  have start: "balances_ok (g_scale g) val (balances ledger_default)" "gross val (balances ledger_default) = 0"
    by (simp_all add: balances_ok_def ledger_default_def gross_def)
  obtain s where s: "replay D (map2 (\<lambda>i e. JournalEntryPosted i (ge_lines e) dims t) ids (gl_entries L)) =
      (Ok s :: ('f, 'd ledger_state) res)"
    "post_effect (g_scale g) val (g_currency g) (all_lines L) (balances ledger_default) (balances s)"
    using decimal_laws.post_all [OF assms(1), of "map ge_lines (gl_entries L)" "g_currency g" "g_scale g" ledger_default ids
        dims t, where 'e = 'f] lines(1) f start assms(4) L(1) unfolding e replay_def all_lines_def by auto
  have "balance_value val (balances s) a = account_total val a (all_lines L)" for a
    using s(2) by (simp add: post_effect_def balance_value_def ledger_default_def accepts_def account_currency_def)
  with s(1) decimal_laws.ground_truth_value [OF assms(1) lines(1) f] show ?thesis by simp
qed

theorem aggregate_matches_ground_truth_witness:
  "\<exists>L s. generate ref_ops (\<lambda>c. if c = ''1000'' then cash else training) 7 spec_small =
      (Ok L :: (unit, refdec generated_ledger) res) \<and>
    replay ref_ops (map2 (\<lambda>i e. JournalEntryPosted i (ge_lines e) no_dims 0)
      (map (EntryId \<circ> of_nat) [0..<25]) (gl_entries L)) = (Ok s :: (unit, refdec ledger_state) res) \<and>
    balance_value ref_val (balances s) cash = truth_value ref_val (ground_truth ref_ops L) cash"
proof -
  let ?aid = "\<lambda>c. if c = ''1000'' then cash else training"
  obtain L where L: "generate ref_ops ?aid 7 spec_small = (Ok L :: (unit, refdec generated_ledger) res)"
    using decimal_laws.generate_ok [OF ref_laws small_spec(1,2) small_fits] by blast
  have "length (map (EntryId \<circ> of_nat) [0..<25]) = g_entries spec_small" using small_spec(3) by simp
  from aggregate_matches_ground_truth [OF ref_laws small_spec(1,2) this _ L small_fits, of no_dims 0] small_spec(3,4) L
  show ?thesis by auto
qed

section \<open>The verdicts\<close>

text \<open>
  C39: the test kit and the ledger agree on what a balanced entry is: for lines whose amounts
  fit, \<open>assert_balanced\<close> passes exactly when the posting is accepted.
\<close>

theorem assert_balanced_iff_accepted:
  assumes "decimal_laws D val" "lines_multiple k val ls" "fits_gross k (lines_gross val ls)"
  shows "assert_balanced D ls = Ok () \<longleftrightarrow>
    (\<exists>evs. handle_command D s (PostJournalEntry ls dims) i now = Ok evs)"
  using decimal_laws.balanced_Ok_iff [OF assms] decimal_laws.handle_post_Ok_iff [OF assms] by auto

theorem assert_balanced_iff_accepted_witness: "assert_balanced ref_ops gpu_bill = Ok ()"
proof -
  have "fits_gross 2 (lines_gross ref_val gpu_bill)" by (simp add: bills_gross fits_gross_def max_mantissa_def)
  from assert_balanced_iff_accepted [OF ref_laws bills_multiple(1) this] gpu_bill_accepted show ?thesis by blast
qed

text \<open>
  Every state the ledger reaches passes the replay assertion on its own log, and the
  assertion passes for nothing but a state numerically equal to the replay.
\<close>

theorem replay_assertion_exact:
  assumes "decimal_laws D val" "ledger_history D h s"
  shows "assert_replay_stable D h s = Ok () \<and> (assert_replay_stable D h live = Ok () \<longleftrightarrow> state_eq D s live)"
  using decimal_laws.replay_stable_iff [OF assms(1), of h] history_replays [OF assms(2)]
    decimal_laws.state_eq_refl [OF assms(1)] by auto

theorem replay_assertion_exact_witness:
  "assert_replay_stable ref_ops
     [JournalEntryPosted (EntryId 10) gpu_bill no_dims 0, EntryReversed (EntryId 10) (EntryId 11) ''void'']
     after_reversal = Ok ()"
  using replay_assertion_exact [OF ref_laws history_reversal] by blast

text \<open>
  The roll-forward assertion passes exactly when every account, whether it appears in the
  closing set, in the opening set or in both, carries the same amount across.
\<close>

theorem roll_forward_iff:
  assumes "decimal_laws D val"
  shows "assert_roll_forward D closing opening = Ok () \<longleftrightarrow>
    (\<forall>a. val (amount_or_zero D closing a) = val (amount_or_zero D opening a))"
  by (rule decimal_laws.roll_forward_verdict [OF assms])

theorem roll_forward_iff_witness:
  "assert_roll_forward ref_ops [(''1000-Cash'', Dec 100 0)] [(''1000-Cash'', Dec 100 0), (''1100-AR'', Dec 50 0)] \<noteq> Ok ()"
  unfolding roll_forward_iff [OF ref_laws]
  by (simp add: amount_or_zero_def) (simp add: ref_val_def)

end
