(* ===== verification/Catalog.thy ===== *)
theory Catalog
  imports Rust_String "HOL-Library.Word"
begin

text \<open>
  \<open>crates/testkit/src/catalog.rs\<close>: the phases of the roadmap and the table of every
  operation a scenario may use, with the phase that delivers it.
\<close>

section \<open>Phases\<close>

datatype Phase = Phase (phase_number: "8 word")

instantiation Phase :: linorder
begin

definition less_eq_Phase :: "Phase \<Rightarrow> Phase \<Rightarrow> bool" where
  "less_eq_Phase a b \<longleftrightarrow> phase_number a \<le> phase_number b"

definition less_Phase :: "Phase \<Rightarrow> Phase \<Rightarrow> bool" where
  "less_Phase a b \<longleftrightarrow> phase_number a < phase_number b"

instance
  by standard (auto simp: less_eq_Phase_def less_Phase_def Phase.expand)

end

definition P02 :: Phase where
  "P02 = Phase 2"

definition P03 :: Phase where
  "P03 = Phase 3"

definition P04 :: Phase where
  "P04 = Phase 4"

definition P05 :: Phase where
  "P05 = Phase 5"

definition P06 :: Phase where
  "P06 = Phase 6"

definition P07 :: Phase where
  "P07 = Phase 7"

definition P08 :: Phase where
  "P08 = Phase 8"

definition P09 :: Phase where
  "P09 = Phase 9"

definition P10 :: Phase where
  "P10 = Phase 10"

definition P11 :: Phase where
  "P11 = Phase 11"

definition P12 :: Phase where
  "P12 = Phase 12"

definition P15 :: Phase where
  "P15 = Phase 15"

definition P18 :: Phase where
  "P18 = Phase 18"

definition delivered_through :: Phase where
  "delivered_through = P02"

definition is_delivered :: "Phase \<Rightarrow> bool" where
  "is_delivered p \<longleftrightarrow> phase_number p \<le> phase_number delivered_through"

definition phase_display :: "Phase \<Rightarrow> string" where
  "phase_display p = ''P'' @ show_padded 2 (unat (phase_number p))"

datatype phase_parse_error = PhaseParseError string

definition phase_from_str :: "string \<Rightarrow> (phase_parse_error, Phase) res" where
  "phase_from_str s =
     res_map (\<lambda>n. Phase (of_nat n))
       (ok_or (case Option.bind (strip_prefix ''P'' s) parse_u8 of
            Some n \<Rightarrow> if 2 \<le> n \<and> n \<le> 21 then Some n else None
          | None \<Rightarrow> None) (PhaseParseError s))"

section \<open>The table\<close>

record operation_spec =
  op_kind :: string
  op_phase :: Phase
  op_summary :: string

definition op :: "string \<Rightarrow> Phase \<Rightarrow> string \<Rightarrow> operation_spec" where
  "op k p s = \<lparr>op_kind = k, op_phase = p, op_summary = s\<rparr>"

definition operations_p02 :: "operation_spec list" where
  "operations_p02 =
     [op ''post_entry'' P02
        ''Post an explicit, hand-written journal entry'',
      op ''reverse_entry'' P02
        ''Reverse a previously posted entry by its `ref`'',
      op ''set_capitalization'' P02
        ''Change a run's capitalize-vs-expense status'']"

definition operations_p03 :: "operation_spec list" where
  "operations_p03 =
     [op ''open_balances'' P03
        ''Seed opening balances for a period (posts against opening equity)'',
      op ''post_by_rule'' P03
        ''Post an entry derived from a business event by a posting rule'',
      op ''void_entry'' P03
        ''Void an entry before it is posted (distinct from reversing a posted one)'']"

definition operations_p04 :: "operation_spec list" where
  "operations_p04 =
     [op ''advance_to'' P04
        ''Move the scenario clock to a date'',
      op ''accrue'' P04
        ''Post an accrual'',
      op ''reverse_accrual'' P04
        ''Auto-reverse an accrual in the following period'',
      op ''amortize_prepaid'' P04
        ''Run one period of a prepaid amortization schedule'',
      op ''close_period'' P04
        ''Close a period for a book'',
      op ''close_year'' P04
        ''Close revenue and expense to retained earnings'',
      op ''lock_subledger'' P04
        ''Lock one subledger while leaving GL open'',
      op ''post_close_adjustment'' P04
        ''Post an adjustment into a closed period'',
      op ''reopen_period'' P04
        ''Reopen a closed period'',
      op ''attempt_mutation'' P04
        ''Attempt a mutation that must be refused, naming the entry point'',
      op ''restate'' P04
        ''Big-R restatement of a prior issued period'',
      op ''revise'' P04
        ''little-r revision recorded in the current period'']"

definition operations_p05 :: "operation_spec list" where
  "operations_p05 =
     [op ''set_fx_rate'' P05
        ''Publish an FX rate for a date'',
      op ''revalue_monetary'' P05
        ''ASC 830 period-end remeasurement of monetary balances'',
      op ''translate_entity'' P05
        ''Translate a foreign entity's balances, producing CTA'',
      op ''settle_balance'' P05
        ''Settle a foreign-currency balance, realizing FX'',
      op ''flag_long_term_intercompany'' P05
        ''Mark or unmark an intercompany balance as long-term-investment nature'',
      op ''mark_currency_non_exchangeable'' P05
        ''IAS 21 lack-of-exchangeability estimation'',
      op ''release_cta'' P05
        ''Release CTA to income on disposal of a foreign operation'']"

definition operations_p06 :: "operation_spec list" where
  "operations_p06 =
     [op ''create_contract'' P06
        ''Open an ASC 606 contract'',
      op ''allocate_price'' P06
        ''Allocate the transaction price across performance obligations'',
      op ''invoice'' P06
        ''Raise an invoice'',
      op ''recognize_ratably'' P06
        ''Recognize one period of a ratable schedule'',
      op ''record_usage'' P06
        ''Record metered usage'',
      op ''sell_credits'' P06
        ''Sell prepaid credits, possibly at a discount'',
      op ''consume_credits'' P06
        ''Consume prepaid credits'',
      op ''expire_credits'' P06
        ''Expire unconsumed credits'',
      op ''true_up_commitment'' P06
        ''True up a minimum commitment against actual usage'',
      op ''modify_contract'' P06
        ''Apply a contract modification (prospective or cumulative catch-up)'',
      op ''issue_credit_memo'' P06
        ''Issue a credit memo against an invoice'',
      op ''record_agent_revenue'' P06
        ''Record resold third-party inference gross or net'']"

definition operations_p07 :: "operation_spec list" where
  "operations_p07 =
     [op ''receive_payment'' P07
        ''Apply cash to a receivable'',
      op ''record_cecl_allowance'' P07
        ''Record or adjust the CECL allowance'',
      op ''write_off_receivable'' P07
        ''Write a receivable off against the allowance'']"

definition operations_p08 :: "operation_spec list" where
  "operations_p08 =
     [op ''receive_goods'' P08
        ''Goods receipt into GR/IR'',
      op ''record_vendor_invoice'' P08
        ''Record a vendor invoice'',
      op ''pay_vendor'' P08
        ''Pay a vendor invoice'']"

definition operations_p09 :: "operation_spec list" where
  "operations_p09 =
     [op ''acquire_asset'' P09
        ''Acquire a depreciable asset'',
      op ''place_in_service'' P09
        ''Place an asset in service on a date'',
      op ''depreciate'' P09
        ''Run one period of depreciation'',
      op ''change_useful_life'' P09
        ''Change an asset's remaining life (prospective only)'',
      op ''test_impairment'' P09
        ''Run the two-step long-lived asset impairment test'',
      op ''dispose_asset'' P09
        ''Dispose of an asset, fully or partly'',
      op ''commence_lease'' P09
        ''Recognize a lease at commencement'',
      op ''identify_embedded_lease'' P09
        ''Identify a lease embedded in a services contract and separate its components'',
      op ''lease_payment'' P09
        ''Record one lease payment period'',
      op ''remeasure_lease'' P09
        ''Remeasure a lease on a change in term or payments'',
      op ''record_commitment_disclosure'' P09
        ''Record a non-lease purchase commitment for the ASC 440 table'']"

definition operations_p10 :: "operation_spec list" where
  "operations_p10 =
     [op ''determine_tax'' P10
        ''Run tax determination on a sale'',
      op ''apply_exemption_certificate'' P10
        ''Apply (or fail to apply) an exemption certificate'',
      op ''record_withholding'' P10
        ''Record withholding tax on an inbound payment'']"

definition operations_p11 :: "operation_spec list" where
  "operations_p11 =
     [op ''run_payroll'' P11
        ''Run one payroll'',
      op ''accrue_bonus'' P11
        ''Accrue a bonus'',
      op ''pay_bonus'' P11
        ''Pay an accrued bonus'',
      op ''grant_equity'' P11
        ''Grant options or RSUs'',
      op ''vest_tranche'' P11
        ''Recognize one vesting tranche'',
      op ''forfeit_grant'' P11
        ''Forfeit an unvested grant'',
      op ''liquidity_event'' P11
        ''Satisfy the second trigger on double-trigger RSUs'',
      op ''modify_grant'' P11
        ''Reprice or otherwise modify a grant'',
      op ''early_exercise'' P11
        ''Early-exercise unvested options'']"

definition operations_p12 :: "operation_spec list" where
  "operations_p12 =
     [op ''eliminate_intercompany'' P12
        ''Eliminate intercompany balances and profit'',
      op ''attribute_to_nci'' P12
        ''Attribute income and unrealized profit to non-controlling interests'',
      op ''consolidate'' P12
        ''Roll subsidiaries up to the parent'',
      op ''record_equity_method'' P12
        ''Record an equity-method investee's results'']"

definition operations_p15 :: "operation_spec list" where
  "operations_p15 =
     [op ''assert_export'' P15
        ''Produce a statutory export and reconcile it to the ledger'']"

definition operations :: "operation_spec list" where
  "operations = operations_p02 @ operations_p03 @ operations_p04 @ operations_p05 @ operations_p06 @
     operations_p07 @ operations_p08 @ operations_p09 @ operations_p10 @ operations_p11 @ operations_p12 @
     operations_p15"

definition spec :: "string \<Rightarrow> operation_spec option" where
  "spec kind = find (\<lambda>x. op_kind x = kind) operations"

definition catalog :: "operation_spec list" where
  "catalog = operations"

end
