(* ===== verification/Scenario.thy ===== *)
theory Scenario
  imports Catalog Assertions
begin

text \<open>
  \<open>crates/testkit/src/scenario.rs\<close>: the scenario format and everything about a scenario
  that is checked before it runs. TOML text is decoded by arguments; a defect keeps the
  kind of its message and the values printed in it. A path is the list of its components.
\<close>

section \<open>TOML values and operations\<close>

datatype toml =
    TString string
  | TInteger int
  | TFloat string
  | TBoolean bool
  | TDatetime string
  | TArray "toml list"
  | TTable "(string, toml) btree"

fun toml_as_str :: "toml \<Rightarrow> string option" where
  "toml_as_str (TString s) = Some s"
| "toml_as_str _ = None"

fun toml_as_bool :: "toml \<Rightarrow> bool option" where
  "toml_as_bool (TBoolean b) = Some b"
| "toml_as_bool _ = None"

fun toml_as_array :: "toml \<Rightarrow> toml list option" where
  "toml_as_array (TArray xs) = Some xs"
| "toml_as_array _ = None"

datatype status = Ready | Blocked | Divergent

record scenario_meta =
  meta_id :: string
  meta_title :: string
  meta_standards :: "string list"
  meta_phase :: Phase
  meta_difficulty :: nat
  meta_status :: status
  meta_blocked_reason :: "string option"
  meta_divergence :: "string option"

record scenario_setup =
  set_entity :: string
  set_book :: string
  set_functional_ccy :: string
  set_period :: string
  set_calendar :: string

record operation =
  o_kind :: string
  o_params :: "(string, toml) btree"

record scenario_line =
  sl_account :: string
  sl_debit :: "string option"
  sl_credit :: "string option"
  sl_currency :: "string option"
  sl_sources :: "string list"

datatype param_error =
    MissingParam string string string
  | NotDecimal string string string
  | BadLine string string

definition bt_remove :: "'k \<Rightarrow> ('k, 'v) btree \<Rightarrow> ('k, 'v) btree" where
  "bt_remove k m = filter (\<lambda>(k', _). k' \<noteq> k) m"

text \<open>\<open>Deserialize for Operation\<close>: the kind is taken out of the table.\<close>

definition operation_from_table :: "(string, toml) btree \<Rightarrow> (string, operation) res" where
  "operation_from_table params =
     res_map (\<lambda>k. \<lparr>o_kind = k, o_params = bt_remove ''kind'' params\<rparr>)
       (ok_or (Option.bind (bt_get params ''kind'') toml_as_str) ''missing field kind'')"

definition opt_str_param :: "operation \<Rightarrow> string \<Rightarrow> string option" where
  "opt_str_param p name = Option.bind (bt_get (o_params p) name) toml_as_str"

definition str_param :: "operation \<Rightarrow> string \<Rightarrow> (param_error, string) res" where
  "str_param p name =
     ok_or (Option.bind (bt_get (o_params p) name) toml_as_str) (MissingParam (o_kind p) name ''string'')"

definition decimal_param :: "'d decimal_ops \<Rightarrow> operation \<Rightarrow> string \<Rightarrow> (param_error, 'd) res" where
  "decimal_param D p name =
     res_bind (str_param p name) (\<lambda>raw.
     ok_or (dec_from_str_exact D raw) (NotDecimal (o_kind p) name raw))"

definition op_lines :: "(toml \<Rightarrow> (string, scenario_line) res) \<Rightarrow> operation \<Rightarrow> (param_error, scenario_line list) res" where
  "op_lines decode p =
     res_bind (ok_or (Option.bind (bt_get (o_params p) ''lines'') toml_as_array)
       (MissingParam (o_kind p) ''lines'' ''array of tables'')) (\<lambda>vs.
     res_mapM (\<lambda>v. res_map_err (BadLine (o_kind p)) (decode v)) vs)"

text \<open>\<open>expect_rejection\<close>, which \<open>validate\<close> and the runner both read.\<close>

definition expects_rejection :: "operation \<Rightarrow> bool" where
  "expects_rejection p = (case Option.bind (bt_get (o_params p) ''expect_rejection'') toml_as_bool of
     Some b \<Rightarrow> b | None \<Rightarrow> False)"

section \<open>Scenarios\<close>

record expected_invariants =
  want_balanced :: bool
  want_replay_stable :: bool
  want_subledger_ties :: bool
  want_roll_forward :: bool
  want_intercompany_eliminated :: bool

record expected =
  ex_trial_balance :: "(string, string) btree"
  ex_by_entity :: "(string, (string, string) btree) btree"
  ex_subledgers :: "(string, string) btree"
  ex_unusual_balances :: "string list"
  ex_invariants :: expected_invariants
  ex_reasoning :: string

record scenario_file =
  sf_meta :: scenario_meta
  sf_setup :: scenario_setup
  sf_operations :: "operation list"
  sf_expected :: expected

record scenario =
  sc_path :: "string list"
  sc_meta :: scenario_meta
  sc_setup :: scenario_setup
  sc_operations :: "operation list"
  sc_expected :: expected

datatype scenario_error = ScenarioIo "string list" string | ScenarioParse "string list" string

definition scenario_load ::
  "(string list \<Rightarrow> (string, string) res) \<Rightarrow> (string \<Rightarrow> (string, scenario_file) res) \<Rightarrow> string list
     \<Rightarrow> (scenario_error, scenario) res" where
  "scenario_load read_file decode path =
     res_bind (res_map_err (ScenarioIo path) (read_file path)) (\<lambda>raw.
     res_bind (res_map_err (ScenarioParse path) (decode raw)) (\<lambda>f.
     Ok \<lparr>sc_path = path, sc_meta = sf_meta f, sc_setup = sf_setup f, sc_operations = sf_operations f,
       sc_expected = sf_expected f\<rparr>))"

text \<open>\<open>path.parent().and_then(file_name)\<close>.\<close>

definition category :: "scenario \<Rightarrow> string" where
  "category S = (case rev (sc_path S) of _ # d # _ \<Rightarrow> d | _ \<Rightarrow> '''')"

text \<open>\<open>Path::file_stem\<close>: up to the last dot, unless that dot is the first character.\<close>

definition file_stem :: "string list \<Rightarrow> string" where
  "file_stem path =
     (case rev path of [] \<Rightarrow> ''''
      | f # _ \<Rightarrow>
          (case split_once (CHR ''.'') (rev f) of
             None \<Rightarrow> f
           | Some (_, stem) \<Rightarrow> if stem = [] then f else rev stem))"

definition required_phase :: "scenario \<Rightarrow> Phase" where
  "required_phase S =
     (case List.map_filter (\<lambda>p. map_option op_phase (spec (o_kind p))) (sc_operations S) of
        [] \<Rightarrow> P02 | x # xs \<Rightarrow> fold max xs x)"

definition is_executable :: "scenario \<Rightarrow> bool" where
  "is_executable S \<longleftrightarrow> meta_status (sc_meta S) \<noteq> Blocked \<and> is_delivered (required_phase S)"

section \<open>Defects\<close>

datatype 'd defect_detail =
    IdIsNotTheFileName string string
  | IdLacksCategory string string
  | DifficultyOutside nat
  | ReasoningTooShort nat
  | NoStandards
  | BlockedWithoutReason
  | BlockedWithBalances
  | ReasonButNotBlocked status
  | NeedsTrialBalance
  | DivergentWithoutDivergence
  | DivergenceButNot status
  | UnknownSetupEntity string
  | UnknownBook string
  | UnknownFunctionalCurrency string
  | UnknownCalendar string
  | PeriodShape string
  | PeriodYear string
  | PeriodNumber string
  | NoOperations
  | UnknownKind string
  | PhaseDisagrees Phase Phase
  | LineHasBoth string
  | LineHasNeither string
  | BadParam param_error
  | NotExact string string
  | UnknownAccount string
  | BalanceOverflows
  | BalanceLeftOver 'd
  | UnusualUndeclared string 'd string
  | StaleAnnotation string 'd
  | UnusualNotExpected string
  | UnclaimedSubledger string
  | UnknownByEntity string
  | EntityLeftOver string 'd

record 'd defect =
  df_scenario :: string
  df_detail :: "'d defect_detail"

definition parse_balance ::
  "'d decimal_ops \<Rightarrow> string \<Rightarrow> string \<times> string \<Rightarrow> (string, 'd) btree \<Rightarrow> ('d defect, (string, 'd) btree) res" where
  "parse_balance D scen e out =
     (case e of (a, raw) \<Rightarrow>
      res_bind (ok_or (dec_from_str_exact D raw) \<lparr>df_scenario = scen, df_detail = NotExact a raw\<rparr>) (\<lambda>x.
      Ok (bt_insert a x out)))"

definition parse_balances ::
  "'d decimal_ops \<Rightarrow> string \<Rightarrow> (string, string) btree \<Rightarrow> ('d defect, (string, 'd) btree) res" where
  "parse_balances D scen raw = res_fold (parse_balance D scen) raw []"

definition expected_trial_balance :: "'d decimal_ops \<Rightarrow> scenario \<Rightarrow> ('d defect, (string, 'd) btree) res" where
  "expected_trial_balance D S = parse_balances D (meta_id (sc_meta S)) (ex_trial_balance (sc_expected S))"

definition validate_period :: "string \<Rightarrow> ('d defect_detail, unit) res" where
  "validate_period p =
     (case split_once (CHR ''-'') p of
        None \<Rightarrow> Err (PeriodShape p)
      | Some (year, rest) \<Rightarrow>
          if length year \<noteq> 4 \<or> parse_u16 year = None then Err (PeriodYear p)
          else
            let (digits, limit) = (case strip_prefix ''P'' rest of Some d \<Rightarrow> (d, 13) | None \<Rightarrow> (rest, 12)) in
            case parse_u8 digits of
              Some n \<Rightarrow> if 1 \<le> n \<and> n \<le> limit \<and> length digits = 2 then Ok () else Err (PeriodNumber p)
            | None \<Rightarrow> Err (PeriodNumber p))"

section \<open>Validation, check by check\<close>

definition min_reasoning_chars :: nat where
  "min_reasoning_chars = 120"

definition books :: "string list" where
  "books = [''US_GAAP'', ''IFRS'', ''TAX'', ''MGMT'']"

definition calendars :: "string list" where
  "calendars = [''gregorian'', ''4-4-5'', ''53-week'']"

definition given :: "bool \<Rightarrow> 'a \<Rightarrow> 'a list" where
  "given b x = (if b then [x] else [])"

definition identity_defects :: "scenario \<Rightarrow> 'd defect_detail list" where
  "identity_defects S =
     (let m = sc_meta S in
      given (file_stem (sc_path S) \<noteq> meta_id m) (IdIsNotTheFileName (meta_id m) (file_stem (sc_path S))) @
      given (\<not> starts_with (meta_id m) (category S @ ''-'')) (IdLacksCategory (meta_id m) (category S)) @
      given (meta_difficulty m < 1 \<or> 5 < meta_difficulty m) (DifficultyOutside (meta_difficulty m)))"

definition documentation_defects :: "scenario \<Rightarrow> 'd defect_detail list" where
  "documentation_defects S =
     (let reasoning = trim (ex_reasoning (sc_expected S)) in
      given (length reasoning < min_reasoning_chars) (ReasoningTooShort (length reasoning)) @
      given (meta_standards (sc_meta S) = []) NoStandards)"

definition status_defects :: "scenario \<Rightarrow> 'd defect_detail list" where
  "status_defects S =
     (let m = sc_meta S; tb = ex_trial_balance (sc_expected S) in
      (if meta_status m = Blocked
       then given (case meta_blocked_reason m of None \<Rightarrow> True | Some r \<Rightarrow> trim r = []) BlockedWithoutReason @
         given (tb \<noteq> []) BlockedWithBalances
       else given (meta_blocked_reason m \<noteq> None) (ReasonButNotBlocked (meta_status m)) @
         given (tb = []) NeedsTrialBalance) @
      (if meta_status m = Divergent
       then given (meta_divergence m = None \<or> meta_divergence m = Some []) DivergentWithoutDivergence
       else given (meta_divergence m \<noteq> None) (DivergenceButNot (meta_status m))))"

definition setup_defects :: "chart_of_accounts \<Rightarrow> scenario \<Rightarrow> 'd defect_detail list" where
  "setup_defects C S =
     (let u = sc_setup S in
      given (chart_entity_of C (set_entity u) = None) (UnknownSetupEntity (set_entity u)) @
      given (set_book u \<notin> set books) (UnknownBook (set_book u)) @
      given (currency_from_code (set_functional_ccy u) = None) (UnknownFunctionalCurrency (set_functional_ccy u)) @
      given (set_calendar u \<notin> set calendars) (UnknownCalendar (set_calendar u)) @
      (case validate_period (set_period u) of Err d \<Rightarrow> [d] | _ \<Rightarrow> []))"

definition operation_defects :: "scenario \<Rightarrow> 'd defect_detail list" where
  "operation_defects S =
     given (sc_operations S = [] \<and> meta_status (sc_meta S) \<noteq> Blocked) NoOperations @
     map (\<lambda>p. UnknownKind (o_kind p)) (filter (\<lambda>p. spec (o_kind p) = None) (sc_operations S)) @
     given (meta_status (sc_meta S) \<noteq> Blocked \<and> meta_phase (sc_meta S) \<noteq> required_phase S)
       (PhaseDisagrees (meta_phase (sc_meta S)) (required_phase S))"

text \<open>The lines of the postings: the accounts they name, and their malformed sides.\<close>

definition line_defect :: "scenario_line \<Rightarrow> 'd defect_detail list" where
  "line_defect l =
     (case (sl_debit l, sl_credit l) of
        (Some _, Some _) \<Rightarrow> [LineHasBoth (sl_account l)]
      | (None, None) \<Rightarrow> [LineHasNeither (sl_account l)]
      | _ \<Rightarrow> [])"

definition posting_defects ::
  "(toml \<Rightarrow> (string, scenario_line) res) \<Rightarrow> operation \<Rightarrow> string btset \<times> 'd defect_detail list
     \<Rightarrow> string btset \<times> 'd defect_detail list" where
  "posting_defects decode p st =
     (case st of (referenced, ds) \<Rightarrow>
      if o_kind p \<noteq> ''post_entry'' then st
      else case op_lines decode p of
        Ok ls \<Rightarrow> (fold (\<lambda>l. bs_insert (sl_account l)) ls referenced,
          ds @ (if expects_rejection p then [] else concat (map line_defect ls)))
      | Err e \<Rightarrow> (referenced, ds @ [BadParam e])
      | Panic \<Rightarrow> st)"

text \<open>The running total of the trial balance: an addition that overflows leaves it where it was.\<close>

definition tally_balance :: "'d decimal_ops \<Rightarrow> 'd \<Rightarrow> 'd \<times> bool \<Rightarrow> 'd \<times> bool" where
  "tally_balance D x st =
     (case st of (t, overflowed) \<Rightarrow>
      case checked_add D t x of Some t' \<Rightarrow> (t', overflowed) | None \<Rightarrow> (t, True))"

definition zero_sum_defects :: "'d decimal_ops \<Rightarrow> scenario \<Rightarrow> (string, 'd) btree \<Rightarrow> 'd defect_detail list" where
  "zero_sum_defects D S bals =
     (case fold (tally_balance D) (bt_values bals) (dec_zero D, False) of
        (t, overflowed) \<Rightarrow>
          if overflowed then [BalanceOverflows]
          else given (\<not> is_zero D t \<and> meta_status (sc_meta S) \<noteq> Blocked) (BalanceLeftOver t))"

definition side_defects ::
  "'d decimal_ops \<Rightarrow> chart_of_accounts \<Rightarrow> string list \<Rightarrow> string \<times> 'd \<Rightarrow> 'd defect_detail list" where
  "side_defects D C declared e =
     (case e of (reference, x) \<Rightarrow>
      case resolve C reference of
        None \<Rightarrow> []
      | Some a \<Rightarrow>
          given (\<not> on_normal_side D a x \<and> \<not> permits_opposite_sign a \<and> reference \<notin> set declared)
            (UnusualUndeclared reference x (normal_balance_as_str (normal_balance a))) @
          given (on_normal_side D a x \<and> reference \<in> set declared) (StaleAnnotation reference x))"

definition entity_defects ::
  "'d decimal_ops \<Rightarrow> chart_of_accounts \<Rightarrow> string \<Rightarrow> string \<times> (string, string) btree \<Rightarrow> 'd defect list" where
  "entity_defects D C scen e =
     (case e of (entity, raw) \<Rightarrow>
      map (\<lambda>d. \<lparr>df_scenario = scen, df_detail = d\<rparr>) (given (chart_entity_of C entity = None) (UnknownByEntity entity)) @
      (case parse_balances D scen raw of
         Ok parsed \<Rightarrow>
           let t = fold (\<lambda>x acc. case checked_add D acc x of Some s \<Rightarrow> s | None \<Rightarrow> acc) (bt_values parsed) (dec_zero D)
           in map (\<lambda>d. \<lparr>df_scenario = scen, df_detail = d\<rparr>) (given (\<not> is_zero D t) (EntityLeftOver entity t))
       | Err d \<Rightarrow> [d]
       | Panic \<Rightarrow> []))"

definition validate ::
  "'d decimal_ops \<Rightarrow> (toml \<Rightarrow> (string, scenario_line) res) \<Rightarrow> chart_of_accounts \<Rightarrow> scenario \<Rightarrow> 'd defect list" where
  "validate D decode C S =
     (let scen = meta_id (sc_meta S);
          defect = (\<lambda>d. \<lparr>df_scenario = scen, df_detail = d\<rparr>);
          (referenced, lines) = fold (posting_defects decode) (sc_operations S) ([], []);
          (bals, unparsed) = (case expected_trial_balance D S of Ok b \<Rightarrow> (b, []) | Err d \<Rightarrow> ([], [d]) | Panic \<Rightarrow> ([], []));
          declared = bt_keys (bs_of_list (ex_unusual_balances (sc_expected S)))
      in map defect (identity_defects S @ documentation_defects S @ status_defects S @ setup_defects C S @
           operation_defects S @ lines) @
         unparsed @
         map (defect \<circ> UnknownAccount) (filter (\<lambda>a. resolve C a = None) (bt_keys referenced @ bt_keys bals)) @
         map defect (zero_sum_defects D S bals) @
         map defect (concat (map (side_defects D C declared) bals)) @
         map (defect \<circ> UnusualNotExpected) (filter (\<lambda>a. \<not> bt_contains bals a) declared) @
         map (defect \<circ> UnclaimedSubledger)
           (filter (\<lambda>n. control_account C n = None) (bt_keys (ex_subledgers (sc_expected S)))) @
         concat (map (entity_defects D C scen) (ex_by_entity (sc_expected S))))"

end
