(* ===== verification/Runner.thy ===== *)
theory Runner
  imports Scenario
begin

text \<open>
  \<open>crates/testkit/src/runner.rs\<close>: the runner, which turns the operations of a scenario into
  ledger commands, replays what the ledger accepts and keeps the rejections the scenario
  asked for. SHA-256, date parsing, the decoding of a line, the fresh entry identifiers and
  the clock are arguments, the last two indexed by the operation.
\<close>

section \<open>Identifiers\<close>

datatype naive_date = NaiveDate int nat nat

record run_env =
  env_sha256 :: "string \<Rightarrow> string"
  env_parse_date :: "string \<Rightarrow> naive_date option"
  env_decode_line :: "toml \<Rightarrow> (string, scenario_line) res"
  env_fresh :: "nat \<Rightarrow> EntryId"
  env_clock :: "nat \<Rightarrow> datetime"

text \<open>\<open>Uuid::from_bytes\<close>: sixteen bytes, most significant first.\<close>

definition uuid_from_bytes :: "string \<Rightarrow> uuid" where
  "uuid_from_bytes bs = foldl (\<lambda>w c. w * 256 + of_char c) 0 bs"

definition stable_uuid :: "run_env \<Rightarrow> string \<Rightarrow> string \<Rightarrow> uuid" where
  "stable_uuid N namespace name =
     uuid_from_bytes (take 16 (env_sha256 N (namespace @ [CHR 0x1F] @ name)))"

definition account_id :: "run_env \<Rightarrow> string \<Rightarrow> AccountId" where
  "account_id N code = AccountId (stable_uuid N ''falkr.corpus.account'' code)"

section \<open>What a run leaves\<close>

record 'd entry_record =
  er_entry_id :: EntryId
  er_entry_ref :: "string option"
  er_journal_id :: string
  er_effective_date :: naive_date
  er_description :: string
  er_source :: string
  er_entity :: string
  er_lines :: "'d journal_line list"
  er_reversal_of :: "EntryId option"

record 'd ledger_run =
  lr_scenario_id :: string
  lr_entity :: string
  lr_book :: string
  lr_period :: string
  lr_currency :: Currency
  lr_events :: "'d ledger_event list"
  lr_state :: "'d ledger_state"
  lr_entries :: "'d entry_record list"
  lr_labels :: "(AccountId, string) btree"
  lr_rejections :: "(string \<times> 'd ledger_error) list"

definition run_trial_balance :: "(uuid \<Rightarrow> string) \<Rightarrow> 'd ledger_run \<Rightarrow> (string, 'd) btree" where
  "run_trial_balance show_uuid R =
     bt_of_list (map (\<lambda>(i, m). (case bt_get (lr_labels R) i of Some l \<Rightarrow> l | None \<Rightarrow> show_uuid (account_as_uuid i), amount m))
       (accounts (lr_state R)))"

datatype 'd run_outcome = Executed "'d ledger_run" | Deferred Phase "string list" | RunBlocked string

datatype 'd run_error =
    RunParam string param_error
  | RunUnknownAccount string string
  | UnknownScenarioCurrency string string
  | UnknownRef string string
  | UnknownCapitalization string string
  | NoHandler string string
  | UnknownLineCurrency string string
  | InexactAmount string string
  | Rejected string "'d ledger_error"
  | ExpectedRejection string nat

section \<open>Commands\<close>

definition spine :: "run_env \<Rightarrow> scenario \<Rightarrow> dimensions" where
  "spine N S =
     (let i = meta_id (sc_meta S) in
      dimensions_new (TenantId (stable_uuid N ''falkr.corpus.tenant'' (set_entity (sc_setup S))))
        (ProjectId (stable_uuid N ''falkr.corpus.project'' i)) (TeamId (stable_uuid N ''falkr.corpus.team'' i))
        (ProviderId (stable_uuid N ''falkr.corpus.provider'' i)) OpEx)"

definition line_amount :: "'d decimal_ops \<Rightarrow> string \<Rightarrow> Currency \<Rightarrow> string \<Rightarrow> ('d run_error, 'd money) res" where
  "line_amount D scen c raw =
     res_map (\<lambda>x. money_new x c) (ok_or (dec_from_str_exact D raw) (InexactAmount scen raw))"

definition sided_line ::
  "'d decimal_ops \<Rightarrow> string \<Rightarrow> Currency \<Rightarrow> AccountId \<Rightarrow> scenario_line \<Rightarrow> ('d run_error, 'd journal_line) res" where
  "sided_line D scen c i l =
     (case (sl_debit l, sl_credit l) of
        (Some d, None) \<Rightarrow> res_map (journal_line_debit i) (line_amount D scen c d)
      | (None, Some k) \<Rightarrow> res_map (journal_line_credit i) (line_amount D scen c k)
      | (Some d, Some k) \<Rightarrow>
          res_bind (line_amount D scen c d) (\<lambda>dm.
          res_bind (line_amount D scen c k) (\<lambda>km.
          Ok \<lparr>account = i, debit = Some dm, credit = Some km, source_usage_event_ids = []\<rparr>))
      | (None, None) \<Rightarrow> Ok \<lparr>account = i, debit = None, credit = None, source_usage_event_ids = []\<rparr>)"

definition journal_line_of ::
  "'d decimal_ops \<Rightarrow> run_env \<Rightarrow> chart_of_accounts \<Rightarrow> string \<Rightarrow> Currency \<Rightarrow> scenario_line
     \<Rightarrow> 'd journal_line list \<times> (AccountId, string) btree
     \<Rightarrow> ('d run_error, 'd journal_line list \<times> (AccountId, string) btree) res" where
  "journal_line_of D N C scen default_ccy l st =
     (case st of (ls, labels) \<Rightarrow>
      res_bind (ok_or (resolve C (sl_account l)) (RunUnknownAccount scen (sl_account l))) (\<lambda>a.
      let i = account_id N (ca_code a) in
      res_bind (case sl_currency l of
          Some code \<Rightarrow> ok_or (currency_from_code code) (UnknownLineCurrency scen code)
        | None \<Rightarrow> Ok default_ccy) (\<lambda>c.
      res_bind (sided_line D scen c i l) (\<lambda>jl.
      let jl = (if sl_sources l = [] then jl
                else with_sources (map (\<lambda>s. UsageEventId (stable_uuid N ''falkr.corpus.usage'' s)) (sl_sources l)) jl)
      in Ok (ls @ [jl], bt_insert i (account_label a) labels)))))"

definition journal_lines ::
  "'d decimal_ops \<Rightarrow> run_env \<Rightarrow> chart_of_accounts \<Rightarrow> scenario \<Rightarrow> operation \<Rightarrow> Currency \<Rightarrow> (AccountId, string) btree
     \<Rightarrow> ('d run_error, 'd journal_line list \<times> (AccountId, string) btree) res" where
  "journal_lines D N C S p default_ccy labels =
     (let scen = meta_id (sc_meta S) in
      res_bind (res_map_err (RunParam scen) (op_lines (env_decode_line N) p)) (\<lambda>raw.
      res_fold (journal_line_of D N C scen default_ccy) raw ([], labels)))"

definition command_of ::
  "'d decimal_ops \<Rightarrow> run_env \<Rightarrow> chart_of_accounts \<Rightarrow> scenario \<Rightarrow> Currency \<Rightarrow> operation \<Rightarrow> 'd entry_record list
     \<Rightarrow> (AccountId, string) btree \<Rightarrow> ('d run_error, 'd ledger_command \<times> (AccountId, string) btree) res" where
  "command_of D N C S c p ents labels =
     (let scen = meta_id (sc_meta S) in
      if o_kind p = ''post_entry'' then
        res_bind (journal_lines D N C S p c labels) (\<lambda>(ls, labels').
        Ok (PostJournalEntry ls (spine N S), labels'))
      else if o_kind p = ''reverse_entry'' then
        res_bind (res_map_err (RunParam scen) (str_param p ''ref'')) (\<lambda>target.
        res_bind (ok_or (find (\<lambda>e. er_entry_ref e = Some target) ents) (UnknownRef scen target)) (\<lambda>original.
        Ok (ReverseEntry (er_entry_id original)
          (case opt_str_param p ''reason'' of Some r \<Rightarrow> r | None \<Rightarrow> ''corpus''), labels)))
      else if o_kind p = ''set_capitalization'' then
        res_bind (res_map_err (RunParam scen) (str_param p ''run'')) (\<lambda>run.
        res_bind (res_map_err (RunParam scen) (str_param p ''to'')) (\<lambda>raw.
        res_bind (ok_or (capitalization_from_stored raw) (UnknownCapitalization scen raw)) (\<lambda>to.
        Ok (ChangeCapitalizationStatus (RunId (stable_uuid N ''falkr.corpus.run'' run)) to
          (PolicyId (stable_uuid N ''falkr.corpus.policy''
             (case opt_str_param p ''policy'' of Some q \<Rightarrow> q | None \<Rightarrow> ''default''))), labels))))
      else Err (NoHandler scen (o_kind p)))"

section \<open>Records\<close>

text \<open>The runner's own statement of a reversal, independent of the aggregate's.\<close>

definition runner_mirror :: "'d journal_line list \<Rightarrow> 'd journal_line list" where
  "runner_mirror ls = map (\<lambda>l. \<lparr>account = account l, debit = credit l, credit = debit l, source_usage_event_ids = []\<rparr>) ls"

definition entry_date :: "run_env \<Rightarrow> operation \<Rightarrow> naive_date" where
  "entry_date N p =
     (case Option.bind (opt_str_param p ''date'') (env_parse_date N) of Some d \<Rightarrow> d | None \<Rightarrow> NaiveDate 2026 1 1)"

definition entry_source :: "operation \<Rightarrow> string" where
  "entry_source p = (case opt_str_param p ''source'' of Some s \<Rightarrow> s | None \<Rightarrow> ''MANUAL'')"

fun record_entry ::
  "run_env \<Rightarrow> 'd entry_record list \<Rightarrow> 'd ledger_event \<Rightarrow> operation \<Rightarrow> scenario \<Rightarrow> nat \<Rightarrow> 'd entry_record list" where
  "record_entry N ents (JournalEntryPosted i ls d t) p S index =
     ents @ [\<lparr>er_entry_id = i, er_entry_ref = opt_str_param p ''ref'',
       er_journal_id = meta_id (sc_meta S) @ ''-'' @ show_padded 3 index, er_effective_date = entry_date N p,
       er_description = (case opt_str_param p ''description'' of Some s \<Rightarrow> s | None \<Rightarrow> ''''),
       er_source = entry_source p,
       er_entity = (case opt_str_param p ''entity'' of Some s \<Rightarrow> s | None \<Rightarrow> set_entity (sc_setup S)),
       er_lines = ls, er_reversal_of = None\<rparr>]"
| "record_entry N ents (EntryReversed original reversal reason) p S index =
     ents @ [\<lparr>er_entry_id = reversal, er_entry_ref = opt_str_param p ''ref'',
       er_journal_id = meta_id (sc_meta S) @ ''-'' @ show_padded 3 index, er_effective_date = entry_date N p,
       er_description = ''Reversal: '' @ reason, er_source = entry_source p,
       er_entity = set_entity (sc_setup S),
       er_lines = (case find (\<lambda>e. er_entry_id e = original) ents of
          Some e \<Rightarrow> runner_mirror (er_lines e) | None \<Rightarrow> []),
       er_reversal_of = Some original\<rparr>]"
| "record_entry N ents (CapitalizationStatusChanged r f t q) p S index = ents"

section \<open>Execution\<close>

record 'd exec_state =
  xs_state :: "'d ledger_state"
  xs_events :: "'d ledger_event list"
  xs_entries :: "'d entry_record list"
  xs_labels :: "(AccountId, string) btree"
  xs_rejections :: "(string \<times> 'd ledger_error) list"

definition exec_start :: "'d exec_state" where
  "exec_start = \<lparr>xs_state = ledger_default, xs_events = [], xs_entries = [], xs_labels = [], xs_rejections = []\<rparr>"

definition absorb ::
  "'d decimal_ops \<Rightarrow> run_env \<Rightarrow> scenario \<Rightarrow> nat \<Rightarrow> operation \<Rightarrow> 'd ledger_event \<Rightarrow> 'd exec_state
     \<Rightarrow> ('d run_error, 'd exec_state) res" where
  "absorb D N S index p e x =
     res_bind (apply_event D (xs_state x) e) (\<lambda>s.
     Ok (x\<lparr>xs_entries := record_entry N (xs_entries x) e p S index, xs_state := s, xs_events := xs_events x @ [e]\<rparr>))"

definition exec_op ::
  "'d decimal_ops \<Rightarrow> run_env \<Rightarrow> chart_of_accounts \<Rightarrow> scenario \<Rightarrow> Currency \<Rightarrow> nat \<times> operation \<Rightarrow> 'd exec_state
     \<Rightarrow> ('d run_error, 'd exec_state) res" where
  "exec_op D N C S c ip x =
     (case ip of (index, p) \<Rightarrow>
      res_bind (command_of D N C S c p (xs_entries x) (xs_labels x)) (\<lambda>(cmd, labels).
      let x = x\<lparr>xs_labels := labels\<rparr> in
      case handle_command D (xs_state x) cmd (env_fresh N index) (env_clock N index) of
        Ok produced \<Rightarrow>
          if expects_rejection p then Err (ExpectedRejection (meta_id (sc_meta S)) index)
          else res_fold (absorb D N S index p) produced x
      | Err e \<Rightarrow>
          if \<not> expects_rejection p then Err (Rejected (meta_id (sc_meta S)) e)
          else Ok (x\<lparr>xs_rejections := xs_rejections x @ [(o_kind p, e)]\<rparr>)
      | Panic \<Rightarrow> Panic))"

definition execute ::
  "'d decimal_ops \<Rightarrow> run_env \<Rightarrow> chart_of_accounts \<Rightarrow> scenario \<Rightarrow> ('d run_error, 'd ledger_run) res" where
  "execute D N C S =
     res_bind (ok_or (currency_from_code (set_functional_ccy (sc_setup S)))
       (UnknownScenarioCurrency (meta_id (sc_meta S)) (set_functional_ccy (sc_setup S)))) (\<lambda>c.
     res_bind (res_fold (exec_op D N C S c) (enumerate 0 (sc_operations S)) exec_start) (\<lambda>x.
     Ok \<lparr>lr_scenario_id = meta_id (sc_meta S), lr_entity = set_entity (sc_setup S), lr_book = set_book (sc_setup S),
       lr_period = set_period (sc_setup S), lr_currency = c, lr_events = xs_events x, lr_state = xs_state x,
       lr_entries = xs_entries x, lr_labels = xs_labels x, lr_rejections = xs_rejections x\<rparr>))"

definition undeliverable :: "scenario \<Rightarrow> string list" where
  "undeliverable S = map o_kind (filter (\<lambda>p. case spec (o_kind p) of
       None \<Rightarrow> True | Some x \<Rightarrow> \<not> is_delivered (op_phase x)) (sc_operations S))"

definition run_scenario ::
  "'d decimal_ops \<Rightarrow> run_env \<Rightarrow> chart_of_accounts \<Rightarrow> scenario \<Rightarrow> ('d run_error, 'd run_outcome) res" where
  "run_scenario D N C S =
     (if meta_status (sc_meta S) = Blocked
      then Ok (RunBlocked (case meta_blocked_reason (sc_meta S) of Some r \<Rightarrow> r | None \<Rightarrow> ''no reason given''))
      else if undeliverable S \<noteq> [] then Ok (Deferred (required_phase S) (undeliverable S))
      else res_map Executed (execute D N C S))"

end
