(* ===== verification/Runner_Proofs.thy ===== *)
theory Runner_Proofs
  imports Runner Assertion_Proofs
begin

text \<open>
  The runner as a driver of the ledger: each operation it executes is one accepted command
  whose single event is replayed and recorded, so a run is a history of the ledger and its
  records are the entries the ledger holds.
\<close>

section \<open>Replaying one event\<close>

lemma apply_any_Ok:
  assumes "apply_event D s e = (Ok s' :: ('e, 'd ledger_state) res)"
  shows "apply_event D s e = (Ok s' :: ('f, 'd ledger_state) res)"
proof -
  have "res_map_err (undefined :: 'e \<Rightarrow> 'f) (apply_event D s e) = apply_event D s e" by (rule apply_any)
  with assms show ?thesis by simp
qed

lemma produced_single: "handle_command D s cmd i now = Ok evs \<Longrightarrow> \<exists>e. evs = [e]"
  by (cases cmd) (auto simp: handle_post_def Let_def split: list.splits if_splits)

section \<open>Records and entries\<close>

definition recorded :: "'d entry_record list \<Rightarrow> 'd ledger_state \<Rightarrow> bool" where
  "recorded ents s \<longleftrightarrow> distinct (map er_entry_id ents) \<and> bt_wf (entries s) \<and>
     bt_get (entries s) = map_of (map (\<lambda>e. (er_entry_id e, er_lines e)) ents)"

lemma recorded_find:
  assumes "recorded ents s" "bt_get (entries s) i = Some ls"
  shows "\<exists>e. find (\<lambda>e. er_entry_id e = i) ents = Some e \<and> er_lines e = ls"
proof -
  have "map_of (map (\<lambda>e. (er_entry_id e, er_lines e)) ents) i = map_option er_lines (find (\<lambda>e. er_entry_id e = i) ents)"
    by (induction ents) auto
  with assms show ?thesis by (auto simp: recorded_def)
qed

lemma map_of_snoc:
  assumes "k \<notin> fst ` set xs"
  shows "map_of (xs @ [(k, v)]) = (map_of xs)(k \<mapsto> v)"
proof -
  from assms have "map_of xs k = None" by (simp add: map_of_eq_None_iff)
  then show ?thesis by (auto simp: fun_eq_iff map_add_def split: option.splits)
qed

lemma recorded_snoc:
  assumes "recorded ents s" "\<not> bt_contains (entries s) i" "er_entry_id e = i" "er_lines e = ls"
    "entries s' = bt_insert i ls (entries s)"
  shows "recorded (ents @ [e]) s'"
proof -
  have f: "i \<notin> er_entry_id ` set ents"
    using assms(1,2) by (auto simp: recorded_def bt_contains_def map_of_eq_None_iff image_image)
  then have "i \<notin> fst ` set (map (\<lambda>e. (er_entry_id e, er_lines e)) ents)" by (auto simp: image_image)
  with assms f show ?thesis by (simp add: recorded_def bt_get_insert map_of_snoc del: map_of_append)
qed

lemma runner_mirror_eq: "runner_mirror ls = mirror ls"
  by (simp add: runner_mirror_def mirror_def)

section \<open>The invariant of the execution\<close>

definition exec_inv :: "'d decimal_ops \<Rightarrow> run_env \<Rightarrow> nat \<Rightarrow> 'd exec_state \<Rightarrow> bool" where
  "exec_inv D N n x \<longleftrightarrow> ledger_history D (xs_events x) (xs_state x) \<and> recorded (xs_entries x) (xs_state x) \<and>
     (\<forall>i. bt_contains (entries (xs_state x)) i \<longrightarrow> i \<in> env_fresh N ` {..<n})"

lemma exec_inv_start: "exec_inv D N 0 exec_start"
  by (simp add: exec_inv_def exec_start_def recorded_def ledger_default_def bt_contains_def
      ledger_history.start [unfolded ledger_default_def] fun_eq_iff)

lemma exec_inv_mono: "exec_inv D N n x \<Longrightarrow> n \<le> m \<Longrightarrow> exec_inv D N m x"
  unfolding exec_inv_def by (meson image_mono lessThan_subset_iff subsetD)

lemma exec_inv_frame:
  assumes "exec_inv D N n x" "xs_state y = xs_state x" "xs_events y = xs_events x" "xs_entries y = xs_entries x"
  shows "exec_inv D N n y"
  using assms by (simp add: exec_inv_def)

text \<open>One accepted command: its event is replayed, logged and recorded.\<close>

lemma absorb_inv:
  assumes inv: "exec_inv D N n x" and inj: "inj_on (env_fresh N) {..n}"
    and h: "handle_command D (xs_state x) cmd (env_fresh N n) now = Ok [e]"
    and a: "absorb D N S n p e x = Ok y"
  shows "exec_inv D N (Suc n) y"
proof -
  let ?i = "env_fresh N n"
  from a obtain s' where s': "apply_event D (xs_state x) e = (Ok s' :: ('a run_error, 'a ledger_state) res)"
    "y = x\<lparr>xs_entries := record_entry N (xs_entries x) e p S n, xs_state := s', xs_events := xs_events x @ [e]\<rparr>"
    by (auto simp: absorb_def)
  have ap: "replay_from D (xs_state x) [e] = (Ok s' :: (unit, 'a ledger_state) res)"
    using apply_any_Ok [OF s'(1)] by simp
  have hist: "ledger_history D (xs_events x) (xs_state x)" and rec: "recorded (xs_entries x) (xs_state x)"
    and ids: "\<And>i. bt_contains (entries (xs_state x)) i \<Longrightarrow> i \<in> env_fresh N ` {..<n}"
    using inv by (auto simp: exec_inv_def)
  have fresh: "\<not> bt_contains (entries (xs_state x)) ?i"
  proof
    assume "bt_contains (entries (xs_state x)) ?i"
    then obtain j where "j < n" "env_fresh N j = ?i" using ids [of ?i] by auto
    with inj_onD [OF inj, of j n] show False by simp
  qed
  have wf: "bt_wf (entries (xs_state x))" using rec by (simp add: recorded_def)
  note hist' = ledger_history.step [OF hist fresh h ap]
  have new: "recorded (record_entry N (xs_entries x) e p S n) s' \<and>
      (\<forall>i. bt_contains (entries s') i \<longrightarrow> i = ?i \<or> bt_contains (entries (xs_state x)) i)"
    using h ap
  proof (cases rule: accepted_cases)
    case (posted ls dims)
    note fr = post_frame [OF posted(4)]
    have "recorded (record_entry N (xs_entries x) e p S n) s'"
      using posted(3) fr by (auto intro: recorded_snoc [OF rec fresh])
    with fr wf show ?thesis by auto
  next
    case (reversed old r ls s1)
    note fr = post_frame [OF reversed(5)]
    obtain q where q: "find (\<lambda>e. er_entry_id e = old) (xs_entries x) = Some q" "er_lines q = ls"
      using recorded_find [OF rec reversed(3)] by blast
    have "recorded (record_entry N (xs_entries x) e p S n) s'"
      using reversed(2,6) fr q by (auto simp: runner_mirror_eq intro: recorded_snoc [OF rec fresh])
    with reversed(6) fr wf show ?thesis by auto
  next
    case (capitalized run old to q)
    then have "entries s' = entries (xs_state x)" "record_entry N (xs_entries x) e p S n = xs_entries x" by auto
    with rec show ?thesis by (simp add: recorded_def)
  qed
  then have "\<forall>i. bt_contains (entries s') i \<longrightarrow> i \<in> env_fresh N ` {..<Suc n}"
    using ids by (fastforce simp: lessThan_Suc)
  with hist' new s'(2) show ?thesis by (simp add: exec_inv_def)
qed

lemma exec_op_inv:
  assumes "exec_inv D N n x" "inj_on (env_fresh N) {..n}" "exec_op D N C S c (n, p) x = Ok y"
  shows "exec_inv D N (Suc n) y"
proof -
  from assms(3) obtain cmd labels where c: "command_of D N C S c p (xs_entries x) (xs_labels x) = Ok (cmd, labels)"
    "(let x = x\<lparr>xs_labels := labels\<rparr> in
      case handle_command D (xs_state x) cmd (env_fresh N n) (env_clock N n) of
        Ok produced \<Rightarrow>
          if expects_rejection p then Err (ExpectedRejection (meta_id (sc_meta S)) n)
          else res_fold (absorb D N S n p) produced x
      | Err e \<Rightarrow>
          if \<not> expects_rejection p then Err (Rejected (meta_id (sc_meta S)) e)
          else Ok (x\<lparr>xs_rejections := xs_rejections x @ [(o_kind p, e)]\<rparr>)
      | Panic \<Rightarrow> Panic) = Ok y"
    by (auto simp: exec_op_def)
  let ?x = "x\<lparr>xs_labels := labels\<rparr>"
  have inv: "exec_inv D N n ?x" by (rule exec_inv_frame [OF assms(1)]) simp_all
  show ?thesis
  proof (cases "handle_command D (xs_state x) cmd (env_fresh N n) (env_clock N n)")
    case (Ok produced)
    then obtain e where e: "produced = [e]" using produced_single by blast
    with Ok c(2) have a: "absorb D N S n p e ?x = Ok y" by (auto simp: Let_def split: if_splits)
    have h: "handle_command D (xs_state ?x) cmd (env_fresh N n) (env_clock N n) = Ok [e]" using Ok e by simp
    show ?thesis by (rule absorb_inv [OF inv assms(2) h a])
  next
    case (Err e)
    with c(2) have "y = ?x\<lparr>xs_rejections := xs_rejections ?x @ [(o_kind p, e)]\<rparr>"
      by (auto simp: Let_def split: if_splits)
    then have "exec_inv D N n y" by (intro exec_inv_frame [OF inv]) simp_all
    then show ?thesis by (rule exec_inv_mono) simp
  next
    case Panic
    with c(2) show ?thesis by simp
  qed
qed

lemma exec_ops_inv:
  "exec_inv D N n x \<Longrightarrow> inj_on (env_fresh N) {..<n + length ps} \<Longrightarrow> res_fold (exec_op D N C S c) (enumerate n ps) x = Ok y \<Longrightarrow>
   exec_inv D N (n + length ps) y"
proof (induction ps arbitrary: n x)
  case (Cons p ps)
  from Cons.prems(3) obtain z where z: "exec_op D N C S c (n, p) x = Ok z"
    "res_fold (exec_op D N C S c) (enumerate (Suc n) ps) z = Ok y" by auto
  have i: "inj_on (env_fresh N) {..n}" "inj_on (env_fresh N) {..<Suc n + length ps}"
    by (rule inj_on_subset [OF Cons.prems(2)], auto)+
  from Cons.IH [OF exec_op_inv [OF Cons.prems(1) i(1) z(1)] i(2) z(2)] show ?case by simp
qed simp

lemma execute_inv:
  assumes "inj_on (env_fresh N) {..<length (sc_operations S)}" "execute D N C S = Ok R"
  shows "ledger_history D (lr_events R) (lr_state R) \<and> recorded (lr_entries R) (lr_state R)"
proof -
  from assms(2) obtain c x where x: "res_fold (exec_op D N C S c) (enumerate 0 (sc_operations S)) exec_start = Ok x"
    "lr_events R = xs_events x" "lr_state R = xs_state x" "lr_entries R = xs_entries x"
    by (auto simp: execute_def)
  from exec_ops_inv [OF exec_inv_start _ x(1)] assms(1) x(2-4) show ?thesis by (simp add: exec_inv_def)
qed

section \<open>Labels\<close>

text \<open>Every label of a run is that of a chart account, under the identifier of its code.\<close>

definition chart_labels :: "run_env \<Rightarrow> chart_of_accounts \<Rightarrow> (AccountId, string) btree \<Rightarrow> bool" where
  "chart_labels N C labels \<longleftrightarrow> bt_wf labels \<and> (\<forall>i s. bt_get labels i = Some s \<longrightarrow>
     (\<exists>ref a. resolve C ref = Some a \<and> i = account_id N (ca_code a) \<and> s = account_label a))"

definition lines_labelled :: "(AccountId, string) btree \<Rightarrow> 'd journal_line list \<Rightarrow> bool" where
  "lines_labelled labels ls \<longleftrightarrow> (\<forall>l\<in>set ls. bt_contains labels (account l))"

definition more_labels :: "(AccountId, string) btree \<Rightarrow> (AccountId, string) btree \<Rightarrow> bool" where
  "more_labels labels labels' \<longleftrightarrow> (\<forall>i. bt_contains labels i \<longrightarrow> bt_contains labels' i)"

lemma lines_labelled_mono: "lines_labelled labels ls \<Longrightarrow> more_labels labels labels' \<Longrightarrow> lines_labelled labels' ls"
  by (simp add: lines_labelled_def more_labels_def)

lemma sided_line_account: "sided_line D scen c i l = Ok jl \<Longrightarrow> account jl = i"
  by (auto simp: sided_line_def journal_line_debit_def journal_line_credit_def split: option.splits)

lemma journal_line_labels:
  assumes "journal_line_of D N C scen c l (ls, labels) = Ok (ls', labels')" "chart_labels N C labels" "lines_labelled labels ls"
  shows "chart_labels N C labels' \<and> more_labels labels labels' \<and> lines_labelled labels' ls'"
proof -
  from assms(1) obtain a c' jl where j: "resolve C (sl_account l) = Some a"
    "labels' = bt_insert (account_id N (ca_code a)) (account_label a) labels"
    "sided_line D scen c' (account_id N (ca_code a)) l = Ok jl"
    "ls' = ls @ [if sl_sources l = [] then jl
      else with_sources (map (\<lambda>s. UsageEventId (stable_uuid N ''falkr.corpus.usage'' s)) (sl_sources l)) jl]"
    by (auto simp: journal_line_of_def Let_def split: if_splits)
  obtain jl' where a: "resolve C (sl_account l) = Some a"
    "labels' = bt_insert (account_id N (ca_code a)) (account_label a) labels"
    "ls' = ls @ [jl']" "account jl' = account_id N (ca_code a)"
    using j sided_line_account [OF j(3)] by (simp add: with_sources_def)
  have wf: "bt_wf labels" using assms(2) by (simp add: chart_labels_def)
  have "chart_labels N C labels'" using assms(2) a(1) by (auto simp: chart_labels_def a(2))
  moreover have m: "more_labels labels labels'" using wf by (simp add: more_labels_def a(2))
  moreover have "lines_labelled labels' ls'"
    using lines_labelled_mono [OF assms(3) m] wf a by (simp add: lines_labelled_def)
  ultimately show ?thesis by blast
qed

lemma journal_fold_labels:
  assumes "res_fold (journal_line_of D N C scen c) raw (ls, labels) = Ok (ls', labels')" "chart_labels N C labels" "lines_labelled labels ls"
  shows "chart_labels N C labels' \<and> more_labels labels labels' \<and> lines_labelled labels' ls'"
  using assms
proof (induction raw arbitrary: ls labels)
  case (Cons l raw)
  then obtain ls1 labels1 where one: "journal_line_of D N C scen c l (ls, labels) = Ok (ls1, labels1)"
    "res_fold (journal_line_of D N C scen c) raw (ls1, labels1) = Ok (ls', labels')" by auto
  note k = journal_line_labels [OF one(1) Cons.prems(2,3)]
  from Cons.IH [OF one(2)] k show ?case by (auto simp: more_labels_def)
qed (simp add: more_labels_def)

lemma command_labels:
  assumes "command_of D N C S c p ents labels = Ok (cmd, labels')" "chart_labels N C labels"
  shows "chart_labels N C labels' \<and> more_labels labels labels' \<and>
    (\<forall>ls dims. cmd = PostJournalEntry ls dims \<longrightarrow> lines_labelled labels' ls)"
  using assms
  by (auto simp: command_of_def journal_lines_def Let_def more_labels_def lines_labelled_def
    dest!: journal_fold_labels split: if_splits)

definition labels_inv :: "run_env \<Rightarrow> chart_of_accounts \<Rightarrow> 'd exec_state \<Rightarrow> bool" where
  "labels_inv N C x \<longleftrightarrow> chart_labels N C (xs_labels x) \<and> (\<forall>e\<in>set (xs_entries x). lines_labelled (xs_labels x) (er_lines e))"

lemma find_in_set: "find P xs = Some x \<Longrightarrow> x \<in> set xs"
  by (auto simp: find_Some_iff)

lemma record_labelled:
  assumes "\<forall>e\<in>set ents. lines_labelled labels (er_lines e)" "handle_command D s cmd i now = Ok [ev]"
    "\<forall>ls dims. cmd = PostJournalEntry ls dims \<longrightarrow> lines_labelled labels ls"
  shows "\<forall>e\<in>set (record_entry N ents ev p S n). lines_labelled labels (er_lines e)"
  using assms
  by (cases cmd) (auto simp: handle_post_def Let_def lines_labelled_def runner_mirror_def dest!: find_in_set
    split: list.splits if_splits option.splits)

lemma exec_op_labels:
  assumes "exec_op D N C S c (n, p) x = Ok y" "labels_inv N C x"
  shows "labels_inv N C y"
proof -
  from assms(1) obtain cmd labels where c: "command_of D N C S c p (xs_entries x) (xs_labels x) = Ok (cmd, labels)"
    by (auto simp: exec_op_def)
  note k = command_labels [OF c]
  have l: "chart_labels N C labels" "\<forall>e\<in>set (xs_entries x). lines_labelled labels (er_lines e)"
    "\<forall>ls dims. cmd = PostJournalEntry ls dims \<longrightarrow> lines_labelled labels ls"
    using k assms(2) by (auto simp: labels_inv_def intro: lines_labelled_mono)
  show ?thesis
  proof (cases "handle_command D (xs_state x) cmd (env_fresh N n) (env_clock N n)")
    case (Ok produced)
    then obtain ev where e: "produced = [ev]" using produced_single by blast
    with Ok c assms(1) have "absorb D N S n p ev (x\<lparr>xs_labels := labels\<rparr>) = Ok y"
      by (auto simp: exec_op_def Let_def split: if_splits)
    then have "xs_labels y = labels" "xs_entries y = record_entry N (xs_entries x) ev p S n" by (auto simp: absorb_def)
    with record_labelled [OF l(2) Ok [unfolded e] l(3)] l(1) show ?thesis by (simp add: labels_inv_def)
  next
    case (Err e)
    with c assms(1) have "xs_labels y = labels" "xs_entries y = xs_entries x"
      by (auto simp: exec_op_def Let_def split: if_splits)
    with l show ?thesis by (simp add: labels_inv_def)
  next
    case Panic
    with c assms(1) show ?thesis by (simp add: exec_op_def Let_def)
  qed
qed

lemma exec_ops_labels:
  "res_fold (exec_op D N C S c) (enumerate n ps) x = Ok y \<Longrightarrow> labels_inv N C x \<Longrightarrow> labels_inv N C y"
proof (induction ps arbitrary: n x)
  case (Cons p ps)
  then obtain z where "exec_op D N C S c (n, p) x = Ok z" "res_fold (exec_op D N C S c) (enumerate (Suc n) ps) z = Ok y" by auto
  with Cons exec_op_labels show ?case by blast
qed simp

lemma execute_labels:
  assumes "execute D N C S = Ok R" "e \<in> set (lr_entries R)" "l \<in> set (er_lines e)"
  shows "\<exists>ref a. resolve C ref = Some a \<and> account l = account_id N (ca_code a) \<and>
    bt_get (lr_labels R) (account l) = Some (account_label a)"
proof -
  from assms(1) obtain c x where x: "res_fold (exec_op D N C S c) (enumerate 0 (sc_operations S)) exec_start = Ok x"
    "lr_entries R = xs_entries x" "lr_labels R = xs_labels x"
    by (auto simp: execute_def)
  have "labels_inv N C (exec_start :: 'a exec_state)" by (simp add: labels_inv_def chart_labels_def exec_start_def)
  from exec_ops_labels [OF x(1) this] have i: "chart_labels N C (lr_labels R)" "bt_contains (lr_labels R) (account l)"
    using assms(2,3) by (auto simp: labels_inv_def lines_labelled_def x(2,3))
  then obtain s where "bt_get (lr_labels R) (account l) = Some s" by (auto simp: bt_contains_def)
  with i(1) show ?thesis unfolding chart_labels_def by blast
qed

section \<open>Which scenarios run\<close>

lemma delivered_kinds:
  "map op_kind (filter (\<lambda>x. is_delivered (op_phase x)) operations) = [''post_entry'', ''reverse_entry'', ''set_capitalization'']"
  by code_simp

lemma delivered_kind_cases:
  assumes "spec k = Some x" "is_delivered (op_phase x)"
  shows "k \<in> {''post_entry'', ''reverse_entry'', ''set_capitalization''}"
proof -
  from assms(1) have "x \<in> set operations" "op_kind x = k" by (auto simp: spec_def find_Some_iff)
  with assms(2) have "k \<in> set (map op_kind (filter (\<lambda>x. is_delivered (op_phase x)) operations))" by auto
  then show ?thesis unfolding delivered_kinds by simp
qed

lemma undeliverable_Nil:
  "undeliverable S = [] \<longleftrightarrow>
   (\<forall>p\<in>set (sc_operations S). \<exists>x. spec (o_kind p) = Some x \<and> is_delivered (op_phase x))"
  by (auto simp: undeliverable_def filter_empty_conv split: option.splits)

lemma required_phase_max:
  "required_phase S \<le> P02 \<longleftrightarrow> (\<forall>p\<in>set (sc_operations S). \<forall>x. spec (o_kind p) = Some x \<longrightarrow> op_phase x \<le> P02)"
proof -
  let ?xs = "List.map_filter (\<lambda>p. map_option op_phase (spec (o_kind p))) (sc_operations S)"
  have "fold max xs x \<le> b \<longleftrightarrow> x \<le> b \<and> (\<forall>y\<in>set xs. y \<le> b)" for xs and x b :: Phase
    by (induction xs arbitrary: x) auto
  then have "required_phase S \<le> P02 \<longleftrightarrow> (\<forall>y\<in>set ?xs. y \<le> P02)"
    by (auto simp: required_phase_def split: list.split)
  moreover have "set ?xs = {y. \<exists>p\<in>set (sc_operations S). \<exists>x. spec (o_kind p) = Some x \<and> y = op_phase x}"
    by (auto simp: List.map_filter_def image_iff Bex_def) force
  ultimately show ?thesis by auto
qed

lemma delivered_le: "is_delivered p \<longleftrightarrow> p \<le> P02"
  by (simp add: is_delivered_def delivered_through_def less_eq_Phase_def)

lemma executable_iff:
  assumes "\<forall>p\<in>set (sc_operations S). spec (o_kind p) \<noteq> None"
  shows "is_delivered (required_phase S) \<longleftrightarrow> undeliverable S = []"
  unfolding delivered_le required_phase_max undeliverable_Nil using assms by (metis option.exhaust_sel option.sel)

lemma res_fold_Err: "res_fold f xs s = Err e \<Longrightarrow> \<exists>x\<in>set xs. \<exists>s'. f x s' = Err e"
  by (induction xs arbitrary: s) auto

lemma journal_line_no_handler: "journal_line_of D N C scen c l st \<noteq> Err (NoHandler n k)"
  by (auto simp: journal_line_of_def sided_line_def line_amount_def Let_def split: prod.splits option.splits)

lemma no_handler_free:
  assumes "undeliverable S = []" "p \<in> set (sc_operations S)"
  shows "command_of D N C S c p ents labels \<noteq> Err (NoHandler scen k)"
proof -
  from assms obtain x where "spec (o_kind p) = Some x" "is_delivered (op_phase x)"
    by (auto simp: undeliverable_Nil)
  from delivered_kind_cases [OF this] show ?thesis
  proof (elim insertE)
    assume "o_kind p = ''post_entry''"
    then show ?thesis
      by (auto simp: command_of_def journal_lines_def Let_def journal_line_no_handler dest!: res_fold_Err)
  qed (auto simp: command_of_def Let_def)
qed

lemma absorb_not_Err: "res_fold (absorb D N S n p) es x \<noteq> Err e"
  by (auto simp: absorb_def dest!: res_fold_Err)

lemma exec_op_no_handler:
  assumes "exec_op D N C S c (n, p) x = Err (NoHandler scen k)"
  shows "command_of D N C S c p (xs_entries x) (xs_labels x) = Err (NoHandler scen k)"
proof (cases "command_of D N C S c p (xs_entries x) (xs_labels x)")
  case (Ok r)
  then show ?thesis
    using assms by (auto simp: exec_op_def absorb_not_Err Let_def split: res.splits if_splits prod.splits)
qed (use assms in \<open>auto simp: exec_op_def\<close>)

end
