(* ===== verification/Runner_Properties.thy ===== *)
theory Runner_Properties
  imports Runner_Proofs
begin

text \<open>
  Properties of the test kit's scenarios and runner: what validation establishes, which
  scenarios run, and what a run leaves behind, with a scenario executed as the witness.
\<close>

section \<open>A scenario\<close>

definition demo_chart :: chart_of_accounts where
  "demo_chart =
     (let a = (\<lambda>c n k. \<lparr>ca_code = c, ca_name = n, ca_kind = k, ca_contra = False, ca_allow_opposite_sign = None,
          ca_currency = None, ca_subledger = None, ca_intercompany = False, ca_fs_caption = ''''\<rparr>)
      in \<lparr>by_code = [(''1000'', a ''1000'' ''Cash'' Asset), (''4000'', a ''4000'' ''Revenue'' Revenue)],
        chart_entities = [(''CO'', \<lparr>en_code = ''CO'', en_name = ''Co'', en_functional_ccy = ''USD'', en_parent = None,
          en_ownership = None\<rparr>)], chart_sources = [], controls = []\<rparr>)"

definition demo_decode :: "toml \<Rightarrow> (string, scenario_line) res" where
  "demo_decode v =
     (let l = (\<lambda>a d c. \<lparr>sl_account = a, sl_debit = d, sl_credit = c, sl_currency = None, sl_sources = []\<rparr>) in
      case v of
        TString s \<Rightarrow>
          if s = ''D'' then Ok (l ''1000-Cash'' (Some ''25.00'') None)
          else if s = ''C'' then Ok (l ''4000-Revenue'' None (Some ''25.00'')) else Err s
      | _ \<Rightarrow> Err '''')"

definition demo_env :: run_env where
  "demo_env = \<lparr>env_sha256 = rev, env_parse_date = (\<lambda>_. None), env_decode_line = demo_decode,
     env_fresh = (\<lambda>n. EntryId (of_nat n)), env_clock = (\<lambda>_. 0)\<rparr>"

definition demo_scenario :: scenario where
  "demo_scenario = \<lparr>sc_path = [''corpus'', ''core'', ''core-1.toml''],
     sc_meta = \<lparr>meta_id = ''core-1'', meta_title = ''A sale'', meta_standards = [''ASC 606''], meta_phase = P02,
       meta_difficulty = 1, meta_status = Ready, meta_blocked_reason = None, meta_divergence = None\<rparr>,
     sc_setup = \<lparr>set_entity = ''CO'', set_book = ''US_GAAP'', set_functional_ccy = ''USD'', set_period = ''2026-01'',
       set_calendar = ''gregorian''\<rparr>,
     sc_operations = [\<lparr>o_kind = ''post_entry'', o_params = [(''lines'', TArray [TString ''D'', TString ''C'']), (''ref'', TString ''s'')]\<rparr>,
       \<lparr>o_kind = ''reverse_entry'', o_params = [(''ref'', TString ''s'')]\<rparr>],
     sc_expected = \<lparr>ex_trial_balance = [(''1000-Cash'', ''0.00''), (''4000-Revenue'', ''0.00'')], ex_by_entity = [], ex_subledgers = [],
       ex_unusual_balances = [], ex_invariants = \<lparr>want_balanced = True, want_replay_stable = True, want_subledger_ties = False,
         want_roll_forward = False, want_intercompany_eliminated = False\<rparr>, ex_reasoning = replicate 120 (CHR ''x'')\<rparr>\<rparr>"

lemma demo_scenario_valid: "validate ref_ops demo_decode demo_chart demo_scenario = []"
  by code_simp

lemma demo_executes:
  "case run_scenario ref_ops demo_env demo_chart demo_scenario of Ok (Executed R) \<Rightarrow> length (lr_entries R) = 2 | _ \<Rightarrow> False"
  by code_simp

lemma demo_fresh: "inj_on (env_fresh demo_env) {..<length (sc_operations demo_scenario)}"
  by (auto simp: demo_env_def demo_scenario_def inj_on_def lessThan_Suc numeral_2_eq_2)

section \<open>Runs\<close>

text \<open>
  C34: an executed scenario is a history of the ledger: as long as the identifiers drawn for
  its operations differ, its events are the log of accepted commands that leads to its state,
  and its records are exactly the entries of that state, each once and line for line, the
  reversals included although the runner mirrors them itself.
\<close>

theorem executed_run_is_history:
  assumes "inj_on (env_fresh N) {..<length (sc_operations S)}" "run_scenario D N C S = Ok (Executed R)"
  shows "ledger_history D (lr_events R) (lr_state R) \<and> distinct (map er_entry_id (lr_entries R)) \<and>
    bt_get (entries (lr_state R)) = map_of (map (\<lambda>e. (er_entry_id e, er_lines e)) (lr_entries R))"
proof -
  from assms(2) have "execute D N C S = Ok R" by (auto simp: run_scenario_def split: if_splits)
  from execute_inv [OF assms(1) this] show ?thesis by (simp add: recorded_def)
qed

theorem executed_run_is_history_witness:
  "\<exists>R. run_scenario ref_ops demo_env demo_chart demo_scenario = Ok (Executed R) \<and> length (lr_entries R) = 2 \<and>
     ledger_history ref_ops (lr_events R) (lr_state R)"
proof -
  from demo_executes obtain R where R: "run_scenario ref_ops demo_env demo_chart demo_scenario = Ok (Executed R)"
    "length (lr_entries R) = 2"
    by (auto split: res.splits run_outcome.splits)
  from executed_run_is_history [OF demo_fresh R(1)] R show ?thesis by blast
qed

text \<open>
  C35: a validated scenario that is not blocked is executed exactly when the phase it declares
  has been delivered, and is otherwise deferred under that phase with the operations not yet
  delivered; a blocked one is reported with its reason and never executed, whatever phase it
  declares. Where the operations of a scenario that is not blocked are all due, the runner
  never meets one it cannot handle.
\<close>

theorem validated_scenario_runs_when_due:
  assumes "validate D decode C S = []"
  shows "run_scenario D N C S =
     (if meta_status (sc_meta S) = Blocked then Ok (RunBlocked (the (meta_blocked_reason (sc_meta S))))
      else if is_delivered (meta_phase (sc_meta S)) then res_map Executed (execute D N C S)
      else Ok (Deferred (meta_phase (sc_meta S)) (undeliverable S))) \<and>
    (\<forall>scen k. execute D N C S \<noteq> Err (NoHandler scen k) \<or> \<not> is_executable S)"
proof -
  have d: "operation_defects S = ([] :: 'a defect_detail list)" "status_defects S = ([] :: 'a defect_detail list)"
    using assms by (auto simp: validate_def Let_def split: prod.splits)
  have known: "\<forall>p\<in>set (sc_operations S). spec (o_kind p) \<noteq> None"
    using d(1) by (auto simp: operation_defects_def filter_empty_conv)
  have phase: "meta_status (sc_meta S) \<noteq> Blocked \<Longrightarrow> meta_phase (sc_meta S) = required_phase S"
    using d(1) by (auto simp: operation_defects_def given_def split: if_splits)
  have reason: "meta_status (sc_meta S) = Blocked \<Longrightarrow> meta_blocked_reason (sc_meta S) \<noteq> None"
    using d(2) by (auto simp: status_defects_def given_def Let_def split: if_splits option.splits)
  have ex: "is_executable S \<Longrightarrow> undeliverable S = []"
    using executable_iff [OF known] by (simp add: is_executable_def)
  have "execute D N C S \<noteq> Err (NoHandler scen k)" if "is_executable S" for scen k
  proof
    assume "execute D N C S = Err (NoHandler scen k)"
    then obtain c ip x where "ip \<in> set (enumerate 0 (sc_operations S))" "exec_op D N C S c ip x = Err (NoHandler scen k)"
      by (auto simp: execute_def dest!: res_fold_Err)
    moreover obtain n p where "ip = (n, p)" by (cases ip)
    ultimately have "p \<in> set (sc_operations S)" "exec_op D N C S c (n, p) x = Err (NoHandler scen k)"
      by (auto simp: in_set_enumerate_eq)
    with no_handler_free [OF ex [OF that], of p D N C c "xs_entries x" "xs_labels x" scen k] exec_op_no_handler
    show False by blast
  qed
  moreover have "run_scenario D N C S =
     (if meta_status (sc_meta S) = Blocked then Ok (RunBlocked (the (meta_blocked_reason (sc_meta S))))
      else if is_delivered (meta_phase (sc_meta S)) then res_map Executed (execute D N C S)
      else Ok (Deferred (meta_phase (sc_meta S)) (undeliverable S)))"
    using executable_iff [OF known] phase reason by (auto simp: run_scenario_def)
  ultimately show ?thesis by blast
qed

theorem validated_scenario_runs_when_due_witness:
  "run_scenario ref_ops demo_env demo_chart demo_scenario = res_map Executed (execute ref_ops demo_env demo_chart demo_scenario)"
proof -
  have "meta_status (sc_meta demo_scenario) \<noteq> Blocked" "is_delivered (meta_phase (sc_meta demo_scenario))"
    by (code_simp, code_simp)
  with validated_scenario_runs_when_due [OF demo_scenario_valid, of demo_env] show ?thesis by simp
qed

text \<open>Each of the three kinds has its branch.\<close>

lemma command_no_handler:
  "command_of D N C S c p ents labels = Err (NoHandler scen k) \<longleftrightarrow> scen = meta_id (sc_meta S) \<and> k = o_kind p \<and>
   o_kind p \<notin> {''post_entry'', ''reverse_entry'', ''set_capitalization''}"
  by (auto simp: command_of_def journal_lines_def Let_def journal_line_no_handler dest!: res_fold_Err)

lemma delivered_kind_iff:
  "(\<exists>x. spec k = Some x \<and> is_delivered (op_phase x)) \<longleftrightarrow> k \<in> {''post_entry'', ''reverse_entry'', ''set_capitalization''}"
proof
  have "list_all (\<lambda>k. case spec k of Some x \<Rightarrow> is_delivered (op_phase x) | None \<Rightarrow> False)
      [''post_entry'', ''reverse_entry'', ''set_capitalization'']" by code_simp
  then show "k \<in> {''post_entry'', ''reverse_entry'', ''set_capitalization''} \<Longrightarrow> \<exists>x. spec k = Some x \<and> is_delivered (op_phase x)"
    by (auto split: option.splits)
qed (use delivered_kind_cases in blast)

text \<open>
  C40: the runner and the catalog agree on what runs. Whatever the scenario, chart and state,
  the runner answers \<open>NoHandler\<close> (with the scenario's and the operation's name) exactly for an
  operation whose kind the catalog does not list in a delivered phase; and the operations a
  deferral names are exactly those, in order.
\<close>

theorem handled_iff_delivered:
  "(command_of D N C S c p ents labels = Err (NoHandler scen k) \<longleftrightarrow> scen = meta_id (sc_meta S) \<and> k = o_kind p \<and>
     \<not> (\<exists>x. spec (o_kind p) = Some x \<and> is_delivered (op_phase x))) \<and>
   undeliverable S = map o_kind (filter (\<lambda>q. command_of D N C S c q ents labels = Err (NoHandler (meta_id (sc_meta S)) (o_kind q)))
     (sc_operations S))"
proof -
  have "(case spec (o_kind q) of None \<Rightarrow> True | Some x \<Rightarrow> \<not> is_delivered (op_phase x)) \<longleftrightarrow>
      command_of D N C S c q ents labels = Err (NoHandler (meta_id (sc_meta S)) (o_kind q))" for q
    using delivered_kind_iff [of "o_kind q"] by (auto simp: command_no_handler split: option.splits)
  then show ?thesis by (simp add: undeliverable_def command_no_handler delivered_kind_iff)
qed

text \<open>A kind the catalog lists under a later phase, and one it does not list.\<close>

theorem handled_iff_delivered_witness:
  "command_of ref_ops demo_env demo_chart demo_scenario Usd \<lparr>o_kind = op_kind (hd operations_p04), o_params = []\<rparr> [] [] =
     Err (NoHandler ''core-1'' (op_kind (hd operations_p04))) \<and>
   command_of ref_ops demo_env demo_chart demo_scenario Usd \<lparr>o_kind = ''post'', o_params = []\<rparr> [] [] = Err (NoHandler ''core-1'' ''post'')"
proof -
  have "meta_id (sc_meta demo_scenario) = ''core-1''" by (simp add: demo_scenario_def)
  moreover have "case spec (op_kind (hd operations_p04)) of Some x \<Rightarrow> \<not> is_delivered (op_phase x) | None \<Rightarrow> False" by code_simp
  moreover have "spec ''post'' = None" by code_simp
  ultimately show ?thesis
    using handled_iff_delivered [of ref_ops demo_env demo_chart demo_scenario Usd]
    by (auto split: option.splits)
qed

section \<open>Validation\<close>

lemma tally_fold:
  "res_fold (\<lambda>x acc. dec_add D acc x) xs t = (Ok t' :: (unit, 'd) res) \<Longrightarrow> fold (tally_balance D) xs (t, False) = (t', False)"
  by (induction xs arbitrary: t) (auto simp: dec_add_def tally_balance_def split: option.splits)

lemma zero_sum_exact:
  assumes "decimal_laws D val" "zero_sum_defects D S bals = []" "meta_status (sc_meta S) \<noteq> Blocked"
    "\<forall>x\<in>set (bt_values bals). multiple k (val x)" "fits_gross k (\<Sum>x\<leftarrow>bt_values bals. \<bar>val x\<bar>)"
  shows "(\<Sum>x\<leftarrow>bt_values bals. val x) = 0"
proof -
  obtain t where t: "res_fold (\<lambda>x acc. dec_add D acc x) (bt_values bals) (dec_zero D) = (Ok t :: (unit, 'a) res)"
    "val t = (\<Sum>x\<leftarrow>bt_values bals. val x)"
    using decimal_laws.dec_sum_gross [OF assms(1,4,5)] unfolding dec_sum_def by blast
  from assms(2,3) tally_fold [OF t(1)] have "is_zero D t"
    by (auto simp: zero_sum_defects_def given_def split: if_splits)
  with t(2) show ?thesis by (simp add: decimal_laws.is_zero_val [OF assms(1)])
qed

lemma referenced_fold: "set (bt_keys (fold (\<lambda>l. bs_insert (f l)) ls m)) = f ` set ls \<union> set (bt_keys m)"
  by (induction ls arbitrary: m) (auto simp: bs_insert_def bt_keys_def bt_keys_insert)

text \<open>What one pass over the postings collects: their accounts, and what is wrong with them.\<close>

lemma posting_step:
  "posting_defects decode p (r, ds) = (r1, ds1) \<Longrightarrow> set (bt_keys r) \<subseteq> set (bt_keys r1) \<and> set ds \<subseteq> set ds1 \<and>
   (o_kind p = ''post_entry'' \<longrightarrow> (\<forall>e. op_lines decode p = Err e \<longrightarrow> BadParam e \<in> set ds1) \<and>
     (\<forall>ls. op_lines decode p = Ok ls \<longrightarrow> (\<forall>l\<in>set ls. sl_account l \<in> set (bt_keys r1) \<and>
       (\<not> expects_rejection p \<longrightarrow> set (line_defect l) \<subseteq> set ds1))))"
  by (auto simp: posting_defects_def referenced_fold split: if_splits res.splits)

lemma posting_fold:
  assumes "fold (posting_defects decode) ps (r, ds) = (r', ds')"
  shows "set (bt_keys r) \<subseteq> set (bt_keys r') \<and> set ds \<subseteq> set ds' \<and>
    (\<forall>p\<in>set ps. o_kind p = ''post_entry'' \<longrightarrow> (\<forall>e. op_lines decode p = Err e \<longrightarrow> BadParam e \<in> set ds') \<and>
      (\<forall>ls. op_lines decode p = Ok ls \<longrightarrow> (\<forall>l\<in>set ls. sl_account l \<in> set (bt_keys r') \<and>
        (\<not> expects_rejection p \<longrightarrow> set (line_defect l) \<subseteq> set ds'))))"
  using assms
proof (induction ps arbitrary: r ds)
  case (Cons p ps)
  obtain r1 ds1 where one: "posting_defects decode p (r, ds) = (r1, ds1)" by fastforce
  note IH = Cons.IH [of r1 ds1] and st = posting_step [OF one]
  from Cons.prems one have "fold (posting_defects decode) ps (r1, ds1) = (r', ds')" by simp
  note rest = IH [OF this]
  have sub: "set (bt_keys r1) \<subseteq> set (bt_keys r')" "set ds1 \<subseteq> set ds'" using rest by blast+
  show ?case
  proof (intro conjI ballI)
    show "set (bt_keys r) \<subseteq> set (bt_keys r')" "set ds \<subseteq> set ds'" using st sub by blast+
    fix q assume "q \<in> set (p # ps)"
    then show "o_kind q = ''post_entry'' \<longrightarrow> (\<forall>e. op_lines decode q = Err e \<longrightarrow> BadParam e \<in> set ds') \<and>
      (\<forall>ls. op_lines decode q = Ok ls \<longrightarrow> (\<forall>l\<in>set ls. sl_account l \<in> set (bt_keys r') \<and>
        (\<not> expects_rejection q \<longrightarrow> set (line_defect l) \<subseteq> set ds')))"
      using st sub rest by (cases "q = p") (blast, auto)
  qed
qed simp

text \<open>So the postings of a scenario without defects decode, and every line names a known account.\<close>

lemma validated_postings:
  assumes "validate D decode C S = []"
  shows "\<forall>p\<in>set (sc_operations S). o_kind p = ''post_entry'' \<longrightarrow> (\<forall>e. op_lines decode p \<noteq> Err e) \<and>
    (\<forall>ls. op_lines decode p = Ok ls \<longrightarrow> (\<forall>l\<in>set ls. resolve C (sl_account l) \<noteq> None \<and>
      (expects_rejection p \<or> (sl_debit l = None) \<noteq> (sl_credit l = None))))"
proof -
  obtain referenced lines where f: "fold (posting_defects decode) (sc_operations S) ([], [] :: 'a defect_detail list) = (referenced, lines)"
    by fastforce
  have n: "lines = []" and r: "\<forall>a\<in>set (bt_keys referenced). resolve C a \<noteq> None"
    using assms f by (auto simp: validate_def Let_def filter_empty_conv split: prod.splits)
  have "line_defect l = ([] :: 'a defect_detail list) \<Longrightarrow> (sl_debit l = None) \<noteq> (sl_credit l = None)" for l
    by (auto simp: line_defect_def split: option.splits)
  with posting_fold [OF f] n r show ?thesis by fastforce
qed

text \<open>
  C36: a scenario that is not blocked and has no defects is well formed. The lines of every
  posting decode, each on an account of the chart and, unless the operation expects to be
  refused, with exactly one side. The expected trial balance parses, its accounts are in the
  chart, and it sums to exactly zero as long as its amounts stay within the decimal's mantissa.
  A balance stands on the wrong side of its account only where the account's policy
  (\<open>permits_opposite_sign\<close>) allows it or the scenario declares it.
\<close>

theorem validated_scenario_sound:
  assumes "decimal_laws D val" "validate D decode C S = []" "meta_status (sc_meta S) \<noteq> Blocked"
  shows "(\<forall>p\<in>set (sc_operations S). o_kind p = ''post_entry'' \<longrightarrow> (\<forall>e. op_lines decode p \<noteq> Err e) \<and>
      (\<forall>ls. op_lines decode p = Ok ls \<longrightarrow> (\<forall>l\<in>set ls. resolve C (sl_account l) \<noteq> None \<and>
        (expects_rejection p \<or> (sl_debit l = None) \<noteq> (sl_credit l = None))))) \<and>
    (\<exists>bals. expected_trial_balance D S = Ok bals \<and>
      (\<forall>(a, x)\<in>set bals. \<exists>acc. resolve C a = Some acc \<and>
         (on_normal_side D acc x \<or> permits_opposite_sign acc \<or> a \<in> set (ex_unusual_balances (sc_expected S)))) \<and>
      (\<forall>k. (\<forall>x\<in>set (bt_values bals). multiple k (val x)) \<longrightarrow> fits_gross k (\<Sum>x\<leftarrow>bt_values bals. \<bar>val x\<bar>) \<longrightarrow>
         (\<Sum>x\<leftarrow>bt_values bals. val x) = 0))"
proof -
  obtain referenced lines where f: "fold (posting_defects decode) (sc_operations S) ([], [] :: 'a defect_detail list) = (referenced, lines)"
    by fastforce
  have "expected_trial_balance D S \<noteq> Panic"
    unfolding expected_trial_balance_def parse_balances_def
    by (rule res_fold_total) (simp add: parse_balance_def split: prod.splits)
  then obtain bals where b: "expected_trial_balance D S = Ok bals"
    using assms(2) f by (cases "expected_trial_balance D S") (auto simp: validate_def Let_def)
  have res: "resolve C a \<noteq> None" if "(a, x) \<in> set bals" for a x
  proof -
    have "a \<in> set (bt_keys bals)" using that by (force simp: bt_keys_def)
    moreover have "filter (\<lambda>a. resolve C a = None) (bt_keys bals) = []"
      using assms(2) f b by (auto simp: validate_def Let_def)
    ultimately show ?thesis by (auto simp: filter_empty_conv)
  qed
  have "side_defects D C (bt_keys (bs_of_list (ex_unusual_balances (sc_expected S)))) e = []" if "e \<in> set bals" for e
    using assms(2) f b that by (auto simp: validate_def Let_def)
  then have side: "on_normal_side D acc x \<or> permits_opposite_sign acc \<or> a \<in> set (ex_unusual_balances (sc_expected S))"
    if "(a, x) \<in> set bals" "resolve C a = Some acc" for a x acc
    using that by (fastforce simp: side_defects_def given_def split: if_splits)
  have "zero_sum_defects D S bals = []" using assms(2) f b by (auto simp: validate_def Let_def)
  note zero = zero_sum_exact [OF assms(1) this assms(3)]
  have "\<exists>acc. resolve C a = Some acc \<and>
      (on_normal_side D acc x \<or> permits_opposite_sign acc \<or> a \<in> set (ex_unusual_balances (sc_expected S)))"
    if "(a, x) \<in> set bals" for a x
    using res [OF that] side [OF that] by blast
  with b zero have "\<exists>bals. expected_trial_balance D S = Ok bals \<and>
    (\<forall>(a, x)\<in>set bals. \<exists>acc. resolve C a = Some acc \<and>
       (on_normal_side D acc x \<or> permits_opposite_sign acc \<or> a \<in> set (ex_unusual_balances (sc_expected S)))) \<and>
    (\<forall>k. (\<forall>x\<in>set (bt_values bals). multiple k (val x)) \<longrightarrow> fits_gross k (\<Sum>x\<leftarrow>bt_values bals. \<bar>val x\<bar>) \<longrightarrow>
       (\<Sum>x\<leftarrow>bt_values bals. val x) = 0)"
    by (intro exI [of _ bals] conjI) blast+
  with validated_postings [OF assms(2)] show ?thesis by (rule conjI)
qed

theorem validated_scenario_sound_witness:
  "\<exists>bals. expected_trial_balance ref_ops demo_scenario = Ok bals \<and>
     (\<forall>(a, x)\<in>set bals. \<exists>acc. resolve demo_chart a = Some acc \<and>
       (on_normal_side ref_ops acc x \<or> permits_opposite_sign acc \<or>
        a \<in> set (ex_unusual_balances (sc_expected demo_scenario))))"
proof -
  have "meta_status (sc_meta demo_scenario) \<noteq> Blocked" by code_simp
  from validated_scenario_sound [OF ref_laws demo_scenario_valid this] show ?thesis by blast
qed

section \<open>What the checks let through\<close>

text \<open>
  Two period strings that are not \<open>YYYY-MM\<close>: the standard parser of unsigned integers takes a
  plus sign, and the length check counts it.
\<close>

lemma signed_periods_accepted:
  "validate_period ''2026-+1'' = (Ok () :: (refdec defect_detail, unit) res)"
  "validate_period ''+202-01'' = (Ok () :: (refdec defect_detail, unit) res)"
  by code_simp+

text \<open>
  A reversal is recorded under the name of the entry it reverses, because the operation's
  \<open>ref\<close> is its target: no later operation can name the reversal.
\<close>

lemma reversal_takes_the_targets_name:
  assumes "command_of D N C S c p ents labels = Ok (ReverseEntry old r, labels')"
  shows "\<exists>target e. find (\<lambda>e. er_entry_ref e = Some target) ents = Some e \<and> er_entry_id e = old \<and>
    map er_entry_ref (record_entry N ents (EntryReversed old new r) p S n) = map er_entry_ref ents @ [Some target] \<and>
    find (\<lambda>e. er_entry_ref e = Some target) (record_entry N ents (EntryReversed old new r) p S n) = Some e"
proof -
  from assms obtain target e where t: "str_param p ''ref'' = Ok target"
    "find (\<lambda>e. er_entry_ref e = Some target) ents = Some e" "er_entry_id e = old"
    by (auto simp: command_of_def Let_def split: if_splits)
  then have "opt_str_param p ''ref'' = Some target" by (auto simp: str_param_def opt_str_param_def)
  moreover have "find P (xs @ ys) = Some y" if "find P xs = Some y" for P xs ys and y :: "'a entry_record"
    using that by (induction xs) auto
  ultimately show ?thesis using t by (intro exI [of _ target] exI [of _ e]) simp
qed

end
