(* ===== verification/Catalog_Properties.thy ===== *)
theory Catalog_Properties
  imports Catalog
begin

text \<open>
  The catalog's table is what the scenarios and the runner take it for: kinds are unique,
  phases ascend, and phase identifiers can be read back.
\<close>

lemma find_kind_distinct: "distinct (map f xs) \<Longrightarrow> x \<in> set xs \<Longrightarrow> find (\<lambda>y. f y = f x) xs = Some x"
  by (induction xs) auto

lemma catalog_kinds_distinct: "distinct (map op_kind catalog)"
  by code_simp

text \<open>
  The catalog is well formed. No kind is listed twice, so a lookup of a listed kind finds
  that very entry; the phases never go back down the table; what is delivered is exactly the
  table's block of P02; and every phase from P02 to P21 is read back from its
  printed form, while the phases just outside are refused.
\<close>

theorem catalog_sound:
  "map (\<lambda>x. spec (op_kind x)) catalog = map Some catalog \<and> distinct (map op_kind catalog) \<and>
   sorted (map op_phase catalog) \<and> filter (\<lambda>x. is_delivered (op_phase x)) catalog = operations_p02 \<and>
   map (\<lambda>n. phase_from_str (phase_display (Phase (word_of_nat n)))) [2..<22] = map (\<lambda>n. Ok (Phase (word_of_nat n))) [2..<22] \<and>
   phase_from_str ''P01'' = Err (PhaseParseError ''P01'') \<and> phase_from_str ''P22'' = Err (PhaseParseError ''P22'')"
proof (intro conjI)
  show "map (\<lambda>x. spec (op_kind x)) catalog = map Some catalog"
    using find_kind_distinct [OF catalog_kinds_distinct] by (simp add: spec_def catalog_def)
  show "distinct (map op_kind catalog)" by (rule catalog_kinds_distinct)
  show "sorted (map op_phase catalog)" by code_simp
  show "filter (\<lambda>x. is_delivered (op_phase x)) catalog = operations_p02" by code_simp
  show "map (\<lambda>n. phase_from_str (phase_display (Phase (word_of_nat n)))) [2..<22] = map (\<lambda>n. Ok (Phase (word_of_nat n))) [2..<22]"
    by code_simp
  show "phase_from_str ''P01'' = Err (PhaseParseError ''P01'')" by code_simp
  show "phase_from_str ''P22'' = Err (PhaseParseError ''P22'')" by code_simp
qed

text \<open>Within a phase the kinds are not sorted, and a phase may be written without padding or with a sign.\<close>

lemma kinds_not_sorted_within_phase:
  "\<not> sorted (map op_kind operations_p04)" "phase_from_str ''P+6'' = Ok P06" "phase_from_str ''P6'' = Ok P06"
  by code_simp+

end
