(* ===== verification/Corpus.thy ===== *)
theory Corpus
  imports Scenario
begin

text \<open>
  \<open>crates/testkit/src/lib.rs\<close>: finding the scenarios of the corpus. A directory is the tree
  of what \<open>read_dir\<close> returns, in the order the file system lists it, with the listings and
  entries that cannot be read; symbolic links are followed into the tree. A path is the list
  of its components.
\<close>

datatype dir_tree = FileNode | DirNode "dir_entry list" | Unreadable string
  and dir_entry = Entry string dir_tree | EntryError string

definition is_reference :: "string list \<Rightarrow> bool" where
  "is_reference path \<longleftrightarrow> list_ex (\<lambda>c. starts_with c ''_'') path"

text \<open>\<open>Path::extension\<close>: after the last dot, unless that dot is the first character.\<close>

definition path_extension :: "string list \<Rightarrow> string option" where
  "path_extension path =
     (case rev path of [] \<Rightarrow> None
      | f # _ \<Rightarrow>
          (case split_once (CHR ''.'') (rev f) of
             None \<Rightarrow> None
           | Some (ext, stem) \<Rightarrow> if stem = [] then None else Some (rev ext)))"

definition is_scenario_file :: "string list \<Rightarrow> bool" where
  "is_scenario_file path \<longleftrightarrow> path_extension path = Some ''toml'' \<and> \<not> is_reference path"

fun collect_toml :: "string list \<Rightarrow> dir_tree \<Rightarrow> string list list \<Rightarrow> (scenario_error, string list list) res"
  and collect_entries :: "string list \<Rightarrow> dir_entry list \<Rightarrow> string list list
     \<Rightarrow> (scenario_error, string list list) res" where
  "collect_toml dir (DirNode es) out = collect_entries dir es out"
| "collect_toml dir (Unreadable e) out = Err (ScenarioIo dir e)"
| "collect_toml dir FileNode out = Err (ScenarioIo dir ''not a directory'')"
| "collect_entries dir [] out = Ok out"
| "collect_entries dir (EntryError e # es) out = Err (ScenarioIo dir e)"
| "collect_entries dir (Entry n FileNode # es) out =
     collect_entries dir es (if is_scenario_file (dir @ [n]) then out @ [dir @ [n]] else out)"
| "collect_entries dir (Entry n (DirNode ds) # es) out =
     (if is_reference (dir @ [n]) then collect_entries dir es out
      else res_bind (collect_toml (dir @ [n]) (DirNode ds) out) (collect_entries dir es))"
| "collect_entries dir (Entry n (Unreadable e) # es) out =
     (if is_reference (dir @ [n]) then collect_entries dir es out else Err (ScenarioIo (dir @ [n]) e))"

definition load_from ::
  "(string list \<Rightarrow> (string, string) res) \<Rightarrow> (string \<Rightarrow> (string, scenario_file) res) \<Rightarrow> string list \<Rightarrow> dir_tree
     \<Rightarrow> (scenario_error, scenario list) res" where
  "load_from read_file decode base tree =
     res_bind (collect_toml base tree []) (\<lambda>paths. res_mapM (scenario_load read_file decode) (sort paths))"

definition corpus_dir :: "string list \<Rightarrow> string list" where
  "corpus_dir manifest_dir = manifest_dir @ [''..'', ''..'', ''corpus'']"

definition load_all ::
  "(string list \<Rightarrow> (string, string) res) \<Rightarrow> (string \<Rightarrow> (string, scenario_file) res) \<Rightarrow> string list \<Rightarrow> dir_tree
     \<Rightarrow> (scenario_error, scenario list) res" where
  "load_all read_file decode manifest_dir tree = load_from read_file decode (corpus_dir manifest_dir) tree"

section \<open>What is collected\<close>

text \<open>The files of a tree, in the order of the listing, by their paths below \<open>dir\<close>.\<close>

fun files_below :: "string list \<Rightarrow> dir_tree \<Rightarrow> string list list"
  and files_among :: "string list \<Rightarrow> dir_entry list \<Rightarrow> string list list" where
  "files_below dir (DirNode es) = files_among dir es"
| "files_below dir (Unreadable e) = []"
| "files_below dir FileNode = [dir]"
| "files_among dir [] = []"
| "files_among dir (Entry n t # es) = files_below (dir @ [n]) t @ files_among dir es"
| "files_among dir (EntryError e # es) = files_among dir es"

lemma is_reference_prefix: "is_reference dir \<Longrightarrow> is_reference (dir @ p)"
  by (simp add: is_reference_def)

lemma files_prefix:
  "p \<in> set (files_below dir t) \<Longrightarrow> \<exists>q. p = dir @ q"
  "p \<in> set (files_among dir es) \<Longrightarrow> \<exists>q. p = dir @ q"
  by (induction dir t and dir es rule: files_below_files_among.induct) fastforce+

lemma reference_files:
  assumes "is_reference dir"
  shows "filter is_scenario_file (files_below dir t) = []" "filter is_scenario_file (files_among dir es) = []"
  using assms files_prefix is_reference_prefix
  by (auto simp: filter_empty_conv is_scenario_file_def) blast+

text \<open>Every file that is not reference data is collected, once for each time it is listed.\<close>

lemma collected:
  "collect_toml dir t out = Ok ps \<Longrightarrow> ps = out @ filter is_scenario_file (files_below dir t)"
  "collect_entries dir es out = Ok ps \<Longrightarrow> ps = out @ filter is_scenario_file (files_among dir es)"
  by (induction dir t out and dir es out arbitrary: ps and ps rule: collect_toml_collect_entries.induct)
    (auto simp: reference_files split: if_splits, fastforce)

lemma scenario_load_path: "scenario_load rd decode p = Ok S \<Longrightarrow> sc_path S = p"
  by (auto simp: scenario_load_def)

lemma loaded_paths: "res_mapM (scenario_load rd decode) ps = Ok Ss \<Longrightarrow> map sc_path Ss = ps"
  by (induction ps arbitrary: Ss) (auto dest: scenario_load_path)

text \<open>A successful load has every scenario file below the root, in the order of the paths.\<close>

lemma load_from_complete:
  "load_from rd decode base t = Ok Ss \<Longrightarrow> map sc_path Ss = sort (filter is_scenario_file (files_below base t))"
  by (auto simp: load_from_def dest!: collected loaded_paths)

text \<open>But the rule looks at the whole path: below a directory like \<open>_build\<close> nothing is ever found.\<close>

lemma reference_root_loads_nothing:
  assumes "is_reference base" "load_from rd decode base t = Ok Ss"
  shows "Ss = []"
  using load_from_complete [OF assms(2)] reference_files(1) [OF assms(1)] by simp

end
