(* ===== verification/Ads_Export.thy ===== *)
theory Ads_Export
  imports Runner
begin

text \<open>
  \<open>crates/testkit/src/ads_export.rs\<close>: the five files of the audit extract, built from an
  executed run, and their reconciliation. How a UUID and a date print are arguments;
  writing the files is in \<open>Ads_Files\<close>.
\<close>

section \<open>The files\<close>

definition missing_as2401 :: "string list" where
  "missing_as2401 = [''approved_by'', ''created_by'', ''entry_date'', ''is_post_close_adjustment'',
     ''is_topside'', ''posted_by'', ''reversed_by'', ''supporting_document_ref'']"

record gl_detail_row =
  gd_journal_id :: string
  gd_line_number :: nat
  gd_header_description :: string
  gd_line_description :: string
  gd_source :: string
  gd_business_unit :: string
  gd_effective_date :: string
  gd_fiscal_year :: string
  gd_period :: string
  gd_account_number :: string
  gd_amount :: string
  gd_indicator :: string
  gd_currency :: string
  gd_entered_by :: string
  gd_entered_date :: string
  gd_approved_by :: string
  gd_approved_date :: string
  gd_reversal_indicator :: string
  gd_reversal_journal_id :: string
  gd_source_usage_event_ids :: string

record trial_balance_row =
  tr_business_unit :: string
  tr_account_number :: string
  tr_fiscal_year :: string
  tr_period :: string
  tr_beginning_balance :: string
  tr_ending_balance :: string
  tr_currency :: string

record chart_row =
  cr_account_number :: string
  cr_account_name :: string
  cr_account_type :: string
  cr_fs_caption :: string
  cr_normal_balance :: string
  cr_is_contra :: bool
  cr_subledger :: string

record source_row =
  sr_source :: string
  sr_description :: string
  sr_automated :: bool

record business_unit_row =
  bu_code :: string
  bu_name :: string
  bu_parent :: string
  bu_functional_currency :: string

record 'd control_totals =
  ct_debits :: 'd
  ct_credits :: 'd
  ct_line_count :: nat
  ct_entry_count :: nat

record ads_extract =
  ax_gl_detail :: "gl_detail_row list"
  ax_trial_balance :: "trial_balance_row list"
  ax_chart_of_accounts :: "chart_row list"
  ax_source_listing :: "source_row list"
  ax_business_unit_listing :: "business_unit_row list"

record printers =
  show_uuid_of :: "uuid \<Rightarrow> string"
  show_date_of :: "naive_date \<Rightarrow> string"

section \<open>Building the extract\<close>

definition split_period :: "string \<Rightarrow> string \<times> string" where
  "split_period p = (case split_once (CHR ''-'') p of None \<Rightarrow> (p, '''') | Some (year, rest) \<Rightarrow> (year, rest))"

text \<open>The account number is the label up to its first dash.\<close>

definition number_of_label :: "string \<Rightarrow> string" where
  "number_of_label l = (case split_once (CHR ''-'') l of None \<Rightarrow> l | Some (code, _) \<Rightarrow> code)"

fun join_with :: "string \<Rightarrow> string list \<Rightarrow> string" where
  "join_with sep [] = ''''"
| "join_with sep [x] = x"
| "join_with sep (x # y # ys) = x @ sep @ join_with sep (y # ys)"

definition detail_row ::
  "'d decimal_ops \<Rightarrow> printers \<Rightarrow> 'd ledger_run \<Rightarrow> 'd entry_record \<Rightarrow> nat \<times> 'd journal_line \<Rightarrow> gl_detail_row option" where
  "detail_row D W R e il =
     (case il of (index, l) \<Rightarrow>
      case signed_amount D l of
        None \<Rightarrow> None
      | Some signed_money \<Rightarrow>
          let (year, p) = split_period (lr_period R);
              label = (case bt_get (lr_labels R) (account l) of Some s \<Rightarrow> s
                | None \<Rightarrow> show_uuid_of W (account_as_uuid (account l)))
          in Some \<lparr>gd_journal_id = er_journal_id e, gd_line_number = min (index + 1) (2 ^ 32 - 1),
            gd_header_description = er_description e, gd_line_description = er_description e,
            gd_source = er_source e, gd_business_unit = er_entity e,
            gd_effective_date = show_date_of W (er_effective_date e), gd_fiscal_year = year, gd_period = p,
            gd_account_number = number_of_label label,
            gd_amount = dec_to_string D (dec_abs D (amount signed_money)),
            gd_indicator = (if is_sign_negative D (amount signed_money) then ''C'' else ''D''),
            gd_currency = currency_code (currency signed_money),
            gd_entered_by = '''', gd_entered_date = '''', gd_approved_by = '''', gd_approved_date = '''',
            gd_reversal_indicator = (if er_reversal_of e \<noteq> None then ''Y'' else ''N''),
            gd_reversal_journal_id = (case er_reversal_of e of Some i \<Rightarrow> show_uuid_of W (entry_as_uuid i) | None \<Rightarrow> ''''),
            gd_source_usage_event_ids =
              join_with ''|'' (map (\<lambda>u. show_uuid_of W (usage_event_as_uuid u)) (source_usage_event_ids l))\<rparr>)"

definition entry_rows ::
  "'d decimal_ops \<Rightarrow> printers \<Rightarrow> 'd ledger_run \<Rightarrow> 'd entry_record \<Rightarrow> gl_detail_row list" where
  "entry_rows D W R e = List.map_filter (detail_row D W R e) (enumerate 0 (er_lines e))"

definition balance_row ::
  "'d decimal_ops \<Rightarrow> 'd ledger_run \<Rightarrow> string \<times> 'd \<Rightarrow> trial_balance_row" where
  "balance_row D R e =
     (case e of (label, a) \<Rightarrow>
      let (year, p) = split_period (lr_period R) in
      \<lparr>tr_business_unit = lr_entity R, tr_account_number = number_of_label label, tr_fiscal_year = year, tr_period = p,
       tr_beginning_balance = ''0'', tr_ending_balance = dec_to_string D a, tr_currency = currency_code (lr_currency R)\<rparr>)"

definition chart_row_of :: "chart_account \<Rightarrow> chart_row" where
  "chart_row_of a =
     \<lparr>cr_account_number = ca_code a, cr_account_name = ca_name a, cr_account_type = account_kind_as_str (ca_kind a),
      cr_fs_caption = ca_fs_caption a, cr_normal_balance = normal_balance_as_str (normal_balance a),
      cr_is_contra = ca_contra a, cr_subledger = (case ca_subledger a of Some s \<Rightarrow> s | None \<Rightarrow> '''')\<rparr>"

definition source_row_of :: "journal_source \<Rightarrow> source_row" where
  "source_row_of s = \<lparr>sr_source = so_code s, sr_description = so_description s, sr_automated = so_automated s\<rparr>"

definition business_unit_row_of :: "chart_entity \<Rightarrow> business_unit_row" where
  "business_unit_row_of e =
     \<lparr>bu_code = en_code e, bu_name = en_name e, bu_parent = (case en_parent e of Some p \<Rightarrow> p | None \<Rightarrow> ''''),
      bu_functional_currency = en_functional_ccy e\<rparr>"

definition from_run :: "'d decimal_ops \<Rightarrow> printers \<Rightarrow> 'd ledger_run \<Rightarrow> chart_of_accounts \<Rightarrow> ads_extract" where
  "from_run D W R C =
     \<lparr>ax_gl_detail = concat (map (entry_rows D W R) (lr_entries R)),
      ax_trial_balance = map (balance_row D R) (run_trial_balance (show_uuid_of W) R),
      ax_chart_of_accounts = map chart_row_of (chart_accounts C),
      ax_source_listing = map source_row_of (source_list C),
      ax_business_unit_listing = map business_unit_row_of (entity_list C)\<rparr>"

section \<open>Reconciliation\<close>

definition control_row ::
  "'d decimal_ops \<Rightarrow> gl_detail_row \<Rightarrow> 'd \<times> 'd \<times> string btset \<Rightarrow> ('d invariant_violation, 'd \<times> 'd \<times> string btset) res" where
  "control_row D r st =
     (case st of (debits, credits, journals) \<Rightarrow>
      res_bind (ok_or (dec_from_str_exact D (gd_amount r)) (violation_new Balanced (NotADecimal (gd_amount r)))) (\<lambda>x.
      let overflow = violation_new Balanced ControlTotalOverflowed in
      if gd_indicator r = ''D''
      then res_bind (ok_or (checked_add D debits x) overflow) (\<lambda>d. Ok (d, credits, bs_insert (gd_journal_id r) journals))
      else res_bind (ok_or (checked_add D credits x) overflow) (\<lambda>c. Ok (debits, c, bs_insert (gd_journal_id r) journals))))"

definition control_total :: "'d decimal_ops \<Rightarrow> ads_extract \<Rightarrow> ('d invariant_violation, 'd control_totals) res" where
  "control_total D X =
     res_bind (res_fold (control_row D) (ax_gl_detail X) (dec_zero D, dec_zero D, [])) (\<lambda>(debits, credits, journals).
     Ok \<lparr>ct_debits = debits, ct_credits = credits, ct_line_count = length (ax_gl_detail X),
       ct_entry_count = length journals\<rparr>)"

definition derive_row ::
  "'d decimal_ops \<Rightarrow> gl_detail_row \<Rightarrow> (string, 'd) btree \<Rightarrow> ('d invariant_violation, (string, 'd) btree) res" where
  "derive_row D r derived =
     res_bind (ok_or (dec_from_str_exact D (gd_amount r)) (violation_new TrialBalanceZero (NotADecimal (gd_amount r)))) (\<lambda>x.
     let signed_x = (if gd_indicator r = ''D'' then x else dec_neg D x) in
     res_bind (ok_or (checked_add D (amount_or_zero D derived (gd_account_number r)) signed_x)
       (violation_new TrialBalanceZero DerivedOverflowed)) (\<lambda>t.
     Ok (bt_insert (gd_account_number r) t derived)))"

definition compare_account ::
  "'d decimal_ops \<Rightarrow> string \<Rightarrow> (string, 'd) btree \<Rightarrow> (string, 'd) btree \<Rightarrow> string \<Rightarrow> unit \<Rightarrow> 'd checked" where
  "compare_account D what left right a _ =
     (let l = amount_or_zero D left a; r = amount_or_zero D right a in
      if \<not> dec_eq D l r then violated TrialBalanceZero (ExtractDiffers what a l r) else Ok ())"

definition compare :: "'d decimal_ops \<Rightarrow> string \<Rightarrow> (string, 'd) btree \<Rightarrow> (string, 'd) btree \<Rightarrow> 'd checked" where
  "compare D what left right =
     res_fold (compare_account D what left right) (bt_keys (bs_of_list (bt_keys left @ bt_keys right))) ()"

definition balances_in_file :: "'d decimal_ops \<Rightarrow> trial_balance_row list \<Rightarrow> (string, 'd) btree" where
  "balances_in_file D rows =
     bt_of_list (List.map_filter (\<lambda>r. map_option (Pair (tr_account_number r)) (dec_from_str_exact D (tr_ending_balance r))) rows)"

definition reconcile :: "'d decimal_ops \<Rightarrow> ads_extract \<Rightarrow> (string, 'd) btree \<Rightarrow> 'd checked" where
  "reconcile D X wanted =
     res_bind (control_total D X) (\<lambda>t.
     if \<not> dec_eq D (ct_debits t) (ct_credits t)
     then violated Balanced (DoesNotFoot (ct_debits t) (ct_credits t))
     else
       res_bind (res_fold (derive_row D) (ax_gl_detail X) []) (\<lambda>derived.
       res_bind (compare D ''GL detail vs trial balance file'' derived (balances_in_file D (ax_trial_balance X))) (\<lambda>_.
       compare D ''ADS extract vs expected'' derived
         (bt_of_list (map (\<lambda>(label, a). (number_of_label label, a)) wanted)))))"

definition missing_as2401_attributes :: "ads_extract \<Rightarrow> string list" where
  "missing_as2401_attributes X =
     filter (\<lambda>a.
       if a = ''created_by'' then list_all (\<lambda>r. gd_entered_by r = '''') (ax_gl_detail X)
       else if a = ''approved_by'' then list_all (\<lambda>r. gd_approved_by r = '''') (ax_gl_detail X)
       else if a = ''entry_date'' then list_all (\<lambda>r. gd_entered_date r = '''') (ax_gl_detail X)
       else True) missing_as2401"

text \<open>An extract of a run lacks every attribute of the list.\<close>

lemma detail_row_Some:
  assumes "detail_row D W R e (index, l) = Some r"
  obtains m where "signed_amount D l = Some m" "gd_amount r = dec_to_string D (dec_abs D (amount m))"
    "gd_indicator r = (if is_sign_negative D (amount m) then ''C'' else ''D'')" "gd_journal_id r = er_journal_id e"
    "gd_entered_by r = ''''" "gd_approved_by r = ''''" "gd_entered_date r = ''''"
proof (cases "signed_amount D l")
  case (Some m)
  with assms show ?thesis by (intro that [of m]) (auto simp: detail_row_def Let_def case_prod_unfold)
qed (use assms in \<open>simp add: detail_row_def\<close>)

lemma from_run_lacks_all: "missing_as2401_attributes (from_run D W R C) = missing_as2401"
proof -
  have "gd_entered_by r = '''' \<and> gd_approved_by r = '''' \<and> gd_entered_date r = ''''"
    if r: "r \<in> set (ax_gl_detail (from_run D W R C))" for r
  proof -
    from r obtain e il where "detail_row D W R e il = Some r"
      by (auto simp: from_run_def entry_rows_def List.map_filter_def)
    then show ?thesis by (cases il) (auto elim: detail_row_Some)
  qed
  then show ?thesis unfolding missing_as2401_attributes_def by (intro filter_True) (simp add: list_all_iff)
qed

end
