(* ===== verification/Ads_Properties.thy ===== *)
theory Ads_Properties
  imports Ads_Export Runner_Properties
begin

text \<open>
  The extract of an executed run foots: the lemmas follow the rows of the GL detail file back
  to the lines of the ledger's entries.
\<close>

section \<open>The control totals\<close>

definition row_magnitude :: "'d decimal_ops \<Rightarrow> ('d \<Rightarrow> rat) \<Rightarrow> gl_detail_row \<Rightarrow> rat" where
  "row_magnitude D val r = (case dec_from_str_exact D (gd_amount r) of Some y \<Rightarrow> val y | None \<Rightarrow> 0)"

definition row_readable :: "'d decimal_ops \<Rightarrow> ('d \<Rightarrow> rat) \<Rightarrow> nat \<Rightarrow> gl_detail_row \<Rightarrow> bool" where
  "row_readable D val k r \<longleftrightarrow> dec_from_str_exact D (gd_amount r) \<noteq> None \<and> multiple k (row_magnitude D val r) \<and>
     0 \<le> row_magnitude D val r"

lemma control_rows:
  assumes "decimal_laws D val" "\<forall>r\<in>set rs. row_readable D val k r" "multiple k (val d)" "multiple k (val c)"
    "0 \<le> val d" "0 \<le> val c" "fits_gross k (val d + val c + (\<Sum>r\<leftarrow>rs. row_magnitude D val r))"
  shows "\<exists>d' c' js'. res_fold (control_row D) rs (d, c, js) = Ok (d', c', js') \<and>
    val d' = val d + (\<Sum>r\<leftarrow>rs. if gd_indicator r = ''D'' then row_magnitude D val r else 0) \<and>
    val c' = val c + (\<Sum>r\<leftarrow>rs. if gd_indicator r = ''D'' then 0 else row_magnitude D val r)"
  using assms(2-)
proof (induction rs arbitrary: d c js)
  case (Cons r rs)
  let ?v = "row_magnitude D val r"
  obtain y where y: "dec_from_str_exact D (gd_amount r) = Some y" "val y = ?v"
    using Cons.prems(1) by (auto simp: row_readable_def row_magnitude_def)
  have n: "0 \<le> ?v" "multiple k ?v" "0 \<le> (\<Sum>r\<leftarrow>rs. row_magnitude D val r)"
    using Cons.prems(1) by (auto simp: row_readable_def intro!: sum_list_nonneg)
  have f: "fits_gross k \<bar>val x + val y\<bar>" if "x = d \<or> x = c" for x
    by (rule fits_gross_mono [OF Cons.prems(6)]) (use that n Cons.prems(4,5) y in auto)
  have a: "\<exists>z. checked_add D x y = Some z \<and> val z = val x + ?v" if "x = d \<or> x = c" for x
  proof -
    have "representable (val x + val y)"
      using that n y Cons.prems(2,3) f [OF that] by (intro multiple_representable [of k]) auto
    with decimal_laws.add_exact [OF assms(1)] y show ?thesis by metis
  qed
  show ?case
  proof (cases "gd_indicator r = ''D''")
    case True
    obtain z where z: "checked_add D d y = Some z" "val z = val d + ?v" using a [of d] by auto
    with n Cons.prems obtain d' c' js' where
      "res_fold (control_row D) rs (z, c, bs_insert (gd_journal_id r) js) = Ok (d', c', js')"
      "val d' = val z + (\<Sum>r\<leftarrow>rs. if gd_indicator r = ''D'' then row_magnitude D val r else 0)"
      "val c' = val c + (\<Sum>r\<leftarrow>rs. if gd_indicator r = ''D'' then 0 else row_magnitude D val r)"
      using Cons.IH [of z c "bs_insert (gd_journal_id r) js"] by (auto simp: add.assoc add.left_commute)
    moreover have "control_row D r (d, c, js) = Ok (z, c, bs_insert (gd_journal_id r) js)"
      using True y z by (simp add: control_row_def)
    ultimately show ?thesis using True z by (simp add: add.assoc)
  next
    case False
    obtain z where z: "checked_add D c y = Some z" "val z = val c + ?v" using a [of c] by auto
    with n Cons.prems obtain d' c' js' where
      "res_fold (control_row D) rs (d, z, bs_insert (gd_journal_id r) js) = Ok (d', c', js')"
      "val d' = val d + (\<Sum>r\<leftarrow>rs. if gd_indicator r = ''D'' then row_magnitude D val r else 0)"
      "val c' = val z + (\<Sum>r\<leftarrow>rs. if gd_indicator r = ''D'' then 0 else row_magnitude D val r)"
      using Cons.IH [of d z "bs_insert (gd_journal_id r) js"] by (auto simp: add.assoc add.left_commute)
    moreover have "control_row D r (d, c, js) = Ok (d, z, bs_insert (gd_journal_id r) js)"
      using False y z by (simp add: control_row_def)
    ultimately show ?thesis using False z by (simp add: add.assoc)
  qed
qed simp

text \<open>What the rows of one entry hold: the magnitudes of its lines, each on its side.\<close>

definition prints_exactly :: "'d decimal_ops \<Rightarrow> ('d \<Rightarrow> rat) \<Rightarrow> 'd journal_line \<Rightarrow> bool" where
  "prints_exactly D val l \<longleftrightarrow> (\<forall>m. signed_amount D l = Some m \<longrightarrow>
     (\<exists>y. dec_from_str_exact D (dec_to_string D (dec_abs D (amount m))) = Some y \<and> val y = \<bar>val (amount m)\<bar>))"

lemma detail_row_value:
  assumes "decimal_laws D val" "line_currency l = Some c" "prints_exactly D val l"
  shows "\<exists>r. detail_row D W R e (n, l) = Some r \<and> dec_from_str_exact D (gd_amount r) \<noteq> None \<and>
    row_magnitude D val r = \<bar>line_value val l\<bar> \<and>
    (if gd_indicator r = ''D'' then row_magnitude D val r else - row_magnitude D val r) = line_value val l"
proof -
  obtain m where m: "signed_amount D l = Some m"
    using assms(2) by (auto simp: signed_amount_def line_currency_def split: option.splits)
  have v: "val (amount m) = line_value val l"
    using m decimal_laws.val_neg [OF assms(1)]
    by (auto simp: signed_amount_def line_value_def money_negate_def money_new_def split: option.splits)
  from m obtain r where r: "detail_row D W R e (n, l) = Some r" by (auto simp: detail_row_def Let_def case_prod_unfold)
  then obtain m' where "signed_amount D l = Some m'" "gd_amount r = dec_to_string D (dec_abs D (amount m'))"
    "gd_indicator r = (if is_sign_negative D (amount m') then ''C'' else ''D'')" by (rule detail_row_Some)
  with m have g: "gd_amount r = dec_to_string D (dec_abs D (amount m))"
    "gd_indicator r = (if is_sign_negative D (amount m) then ''C'' else ''D'')" by simp_all
  obtain y where y: "dec_from_str_exact D (gd_amount r) = Some y" "val y = \<bar>line_value val l\<bar>"
    using assms(3) m v g by (auto simp: prints_exactly_def)
  have "is_sign_negative D (amount m) \<longleftrightarrow> line_value val l < 0" if "line_value val l \<noteq> 0"
    using decimal_laws.sign_val [OF assms(1), of "amount m"] v that by simp
  with r y g show ?thesis by (cases "line_value val l = 0") (auto simp: row_magnitude_def)
qed

lemma entry_rows_value:
  assumes "decimal_laws D val" "\<forall>l\<in>set ls. line_currency l = Some c \<and> prints_exactly D val l \<and> multiple k (line_value val l)"
  shows "let rows = \<lambda>n. List.map_filter (detail_row D W R e) (enumerate n ls) in length (rows n) = length ls \<and> (\<forall>r\<in>set (rows n). row_readable D val k r) \<and>
    (\<Sum>r\<leftarrow>rows n. row_magnitude D val r) = lines_gross val ls \<and>
    (\<Sum>r\<leftarrow>rows n. if gd_indicator r = ''D'' then row_magnitude D val r else - row_magnitude D val r) =
      (\<Sum>l\<leftarrow>ls. line_value val l)"
  using assms(2) unfolding Let_def
proof (induction ls arbitrary: n)
  case (Cons l ls)
  obtain r where r: "detail_row D W R e (n, l) = Some r" "dec_from_str_exact D (gd_amount r) \<noteq> None"
    "row_magnitude D val r = \<bar>line_value val l\<bar>"
    "(if gd_indicator r = ''D'' then row_magnitude D val r else - row_magnitude D val r) = line_value val l"
    using detail_row_value [OF assms(1), of l c W R e n] Cons.prems by auto
  have "multiple k \<bar>line_value val l\<bar>" using Cons.prems by (simp add: abs_if)
  with r have "row_readable D val k r" by (simp add: row_readable_def)
  with Cons.IH [of "Suc n"] Cons.prems r show ?case by (simp add: List.map_filter_simps)
qed (simp add: List.map_filter_simps)

text \<open>
  What a row must say of a line: the journal of its entry, the code of the chart account its
  account identifier was made from, its magnitude, its side and its currency.
\<close>

definition row_shows ::
  "'d decimal_ops \<Rightarrow> ('d \<Rightarrow> rat) \<Rightarrow> run_env \<Rightarrow> chart_of_accounts \<Rightarrow> 'd entry_record \<times> 'd journal_line \<Rightarrow> gl_detail_row \<Rightarrow> bool" where
  "row_shows D val N C el r \<longleftrightarrow> (case el of (e, l) \<Rightarrow>
     gd_journal_id r = er_journal_id e \<and>
     (\<exists>ref a. resolve C ref = Some a \<and> account l = account_id N (ca_code a) \<and>
        (CHR ''-'' \<notin> set (ca_code a) \<longrightarrow> gd_account_number r = ca_code a)) \<and>
     (\<exists>y. dec_from_str_exact D (gd_amount r) = Some y \<and> val y = \<bar>line_value val l\<bar>) \<and>
     (0 < line_value val l \<longrightarrow> gd_indicator r = ''D'') \<and> (line_value val l < 0 \<longrightarrow> gd_indicator r = ''C'') \<and>
     (\<exists>c. line_currency l = Some c \<and> gd_currency r = currency_code c))"

lemma number_of_account_label: "CHR ''-'' \<notin> set (ca_code a) \<Longrightarrow> number_of_label (account_label a) = ca_code a"
  by (simp add: number_of_label_def account_label_def split_once_append)

lemma detail_row_shows:
  assumes "decimal_laws D val" "line_currency l = Some c" "prints_exactly D val l"
    "\<exists>ref a. resolve C ref = Some a \<and> account l = account_id N (ca_code a) \<and> bt_get (lr_labels R) (account l) = Some (account_label a)"
  shows "\<exists>r. detail_row D W R e (n, l) = Some r \<and> row_shows D val N C (e, l) r"
proof -
  obtain m where m: "signed_amount D l = Some m" "currency m = c"
    using assms(2) by (auto simp: signed_amount_def line_currency_def money_negate_def money_new_def split: option.splits)
  obtain r where r: "detail_row D W R e (n, l) = Some r" "dec_from_str_exact D (gd_amount r) \<noteq> None"
    "row_magnitude D val r = \<bar>line_value val l\<bar>"
    "(if gd_indicator r = ''D'' then row_magnitude D val r else - row_magnitude D val r) = line_value val l"
    using detail_row_value [OF assms(1-3), of W R e n] by blast
  have "gd_indicator r = ''D'' \<or> gd_indicator r = ''C''" "gd_journal_id r = er_journal_id e"
    by (rule detail_row_Some [OF r(1)], simp)+
  moreover obtain ref a where a: "resolve C ref = Some a" "account l = account_id N (ca_code a)"
    "bt_get (lr_labels R) (account l) = Some (account_label a)" using assms(4) by blast
  moreover have "gd_account_number r = number_of_label (account_label a)" "gd_currency r = currency_code c"
    using r(1) a(3) m by (auto simp: detail_row_def Let_def case_prod_unfold)
  moreover have "\<exists>y. dec_from_str_exact D (gd_amount r) = Some y \<and> val y = \<bar>line_value val l\<bar>"
    using r(2,3) by (auto simp: row_magnitude_def)
  ultimately show ?thesis using r assms(2) number_of_account_label [of a]
    by (intro exI [of _ r]) (auto simp: row_shows_def split: if_splits)
qed

lemma entry_rows_show:
  assumes "decimal_laws D val" "\<forall>l\<in>set ls. (\<exists>c. line_currency l = Some c) \<and> prints_exactly D val l \<and>
    (\<exists>ref a. resolve C ref = Some a \<and> account l = account_id N (ca_code a) \<and> bt_get (lr_labels R) (account l) = Some (account_label a))"
  shows "list_all2 (row_shows D val N C) (map (Pair e) ls) (List.map_filter (detail_row D W R e) (enumerate n ls))"
  using assms(2)
proof (induction ls arbitrary: n)
  case (Cons l ls)
  then obtain r where "detail_row D W R e (n, l) = Some r" "row_shows D val N C (e, l) r"
    using detail_row_shows [OF assms(1)] by (metis list.set_intros(1))
  with Cons show ?case by (simp add: List.map_filter_simps)
qed (simp add: List.map_filter_simps)

lemma list_all2_concat:
  "(\<And>x. x \<in> set xs \<Longrightarrow> list_all2 P (f x) (g x)) \<Longrightarrow> list_all2 P (concat (map f xs)) (concat (map g xs))"
  by (induction xs) (auto intro: list_all2_appendI)

section \<open>The extract foots\<close>

text \<open>The records of a run are the entries of its state, so their amounts add up alike.\<close>

lemma recorded_gross:
  assumes "recorded ents s"
  shows "(\<Sum>e\<leftarrow>ents. lines_gross val (er_lines e)) = state_gross val s"
proof -
  let ?kv = "map (\<lambda>e. (er_entry_id e, er_lines e)) ents"
  have w: "bt_wf (entries s)" "distinct (map fst ?kv)" "bt_get (entries s) = map_of ?kv"
    using assms by (auto simp: recorded_def comp_def)
  have "(k, v) \<in> set ?kv \<longleftrightarrow> (k, v) \<in> set (entries s)" for k v
    using btm.entries_iff [OF w(1)] map_of_eq_Some_iff [OF w(2)] w(3) by metis
  then have se: "set ?kv = set (entries s)" by (auto simp only: set_eq_iff split_paired_All)
  have d1: "distinct ?kv" by (rule conjunct1 [OF iffD1 [OF distinct_map w(2)]])
  have d2: "distinct (entries s)" by (rule conjunct1 [OF iffD1 [OF distinct_map btm.distinct_keys [OF w(1)]]])
  have "(\<Sum>(i, ls)\<leftarrow>?kv. lines_gross val ls) = (\<Sum>(i, ls)\<leftarrow>entries s. lines_gross val ls)"
    unfolding sum_list_distinct_conv_sum_set [OF d1] sum_list_distinct_conv_sum_set [OF d2] se ..
  then show ?thesis by (simp add: state_gross_def comp_def)
qed

lemma extract_controls:
  assumes "decimal_laws D val" "inj_on (env_fresh N) {..<length (sc_operations S)}"
    "run_scenario D N C S = Ok (Executed R)" "in_bounds k val (lr_state R)"
    "\<forall>e\<in>set (lr_entries R). \<forall>l\<in>set (er_lines e). prints_exactly D val l"
  shows "\<exists>T. control_total D (from_run D W R C) = Ok T \<and> val (ct_debits T) = val (ct_credits T) \<and>
      val (ct_debits T) + val (ct_credits T) = state_gross val (lr_state R) \<and>
      ct_line_count T = (\<Sum>e\<leftarrow>lr_entries R. length (er_lines e))"
proof -
  let ?rows = "\<lambda>e. entry_rows D W R e" and ?v = "row_magnitude D val"
  let ?s = "\<lambda>r. if gd_indicator r = ''D'' then ?v r else - ?v r"
  from assms(3) have x: "execute D N C S = Ok R" by (auto simp: run_scenario_def split: if_splits)
  note inv = execute_inv [OF assms(2) x]
  have l: "bt_get (entries (lr_state R)) (er_entry_id e) = Some (er_lines e)" if "e \<in> set (lr_entries R)" for e
    using inv that by (auto simp: recorded_def comp_def)
  have b: "\<exists>c. balanced_entry val c (er_lines e)" "lines_multiple k val (er_lines e)" if "e \<in> set (lr_entries R)" for e
    using decimal_laws.history_inv [OF assms(1) conjunct1 [OF inv] assms(4)] l [OF that] assms(4)
    by (auto simp: ledger_inv_def in_bounds_def)
  have e: "length (?rows e) = length (er_lines e) \<and> (\<forall>r\<in>set (?rows e). row_readable D val k r) \<and>
      (\<Sum>r\<leftarrow>?rows e. ?v r) = lines_gross val (er_lines e) \<and> (\<Sum>r\<leftarrow>?rows e. ?s r) = 0"
    if i: "e \<in> set (lr_entries R)" for e
  proof -
    obtain c where "balanced_entry val c (er_lines e)" using b(1) [OF i] by blast
    with b(2) [OF i] assms(5) i entry_rows_value [OF assms(1), of "er_lines e" c k W R e 0] show ?thesis
      by (simp add: balanced_entry_def lines_multiple_def entry_rows_def)
  qed
  have sums: "(\<Sum>r\<leftarrow>concat (map ?rows es). f r) = (\<Sum>e\<leftarrow>es. \<Sum>r\<leftarrow>?rows e. f r)" for es and f :: "_ \<Rightarrow> rat"
    by (induction es) auto
  let ?all = "concat (map ?rows (lr_entries R))"
  have g: "(\<Sum>r\<leftarrow>?all. ?v r) = state_gross val (lr_state R)" "(\<Sum>r\<leftarrow>?all. ?s r) = 0"
    "length ?all = (\<Sum>e\<leftarrow>lr_entries R. length (er_lines e))"
    using e by (simp_all add: sums recorded_gross [OF conjunct2 [OF inv], symmetric] length_concat comp_def cong: map_cong)
  have "fits_gross k (val (dec_zero D) + val (dec_zero D) + (\<Sum>r\<leftarrow>?all. ?v r))"
    using assms(4) by (simp add: g decimal_laws.val_zero [OF assms(1)] in_bounds_def)
  with e obtain d c js where f: "res_fold (control_row D) ?all (dec_zero D, dec_zero D, []) = Ok (d, c, js)"
    "val d = (\<Sum>r\<leftarrow>?all. if gd_indicator r = ''D'' then ?v r else 0)"
    "val c = (\<Sum>r\<leftarrow>?all. if gd_indicator r = ''D'' then 0 else ?v r)"
    using control_rows [OF assms(1), of ?all k "dec_zero D" "dec_zero D" "[]"] decimal_laws.val_zero [OF assms(1)] by auto
  have "val d + val c = (\<Sum>r\<leftarrow>?all. ?v r)" "val d - val c = (\<Sum>r\<leftarrow>?all. ?s r)"
    unfolding f(2,3) sum_list_addf [symmetric] sum_list_subtractf [symmetric]
    by (rule arg_cong [where f = sum_list], simp)+
  with f(1) g show ?thesis by (simp add: control_total_def from_run_def)
qed

lemma extract_rows:
  assumes "decimal_laws D val" "inj_on (env_fresh N) {..<length (sc_operations S)}"
    "run_scenario D N C S = Ok (Executed R)" "in_bounds k val (lr_state R)"
    "\<forall>e\<in>set (lr_entries R). \<forall>l\<in>set (er_lines e). prints_exactly D val l"
  shows "list_all2 (row_shows D val N C) (concat (map (\<lambda>e. map (Pair e) (er_lines e)) (lr_entries R))) (ax_gl_detail (from_run D W R C))"
proof -
  from assms(3) have x: "execute D N C S = Ok R" by (auto simp: run_scenario_def split: if_splits)
  note inv = execute_inv [OF assms(2) x]
  have g: "bt_get (entries (lr_state R)) (er_entry_id e) = Some (er_lines e)" if "e \<in> set (lr_entries R)" for e
    using inv that by (auto simp: recorded_def comp_def)
  have b: "\<exists>c. balanced_entry val c (er_lines e)" if "e \<in> set (lr_entries R)" for e
    using decimal_laws.history_inv [OF assms(1) conjunct1 [OF inv] assms(4)] g [OF that]
    by (auto simp: ledger_inv_def)
  have "list_all2 (row_shows D val N C) (map (Pair e) (er_lines e)) (entry_rows D W R e)" if "e \<in> set (lr_entries R)" for e
    unfolding entry_rows_def
  proof (rule entry_rows_show [OF assms(1)], intro ballI conjI)
    fix l assume l: "l \<in> set (er_lines e)"
    show "\<exists>c. line_currency l = Some c" using b [OF that] l by (auto simp: balanced_entry_def)
    show "prints_exactly D val l" using assms(5) that l by blast
    show "\<exists>ref a. resolve C ref = Some a \<and> account l = account_id N (ca_code a) \<and> bt_get (lr_labels R) (account l) = Some (account_label a)"
      by (rule execute_labels [OF x that l])
  qed
  then show ?thesis unfolding from_run_def by (simp add: list_all2_concat)
qed

text \<open>
  C37: the extract of an executed run holds the ledger and foots. As long as the identifiers
  drawn for its operations differ, its amounts stay within the mantissa and print exactly, the
  GL detail file has one row for each line of each entry of the run, in order, and that row
  states the line's journal, the code of its account (where the code has no dash), its exact
  magnitude, its side (\<open>D\<close> for a positive amount, \<open>C\<close> for a negative one) and its currency. So
  the control totals are found without an error, the debits equal the credits and together
  they are the gross amount of the ledger's entries.
\<close>

theorem extract_foots:
  assumes "decimal_laws D val" "inj_on (env_fresh N) {..<length (sc_operations S)}"
    "run_scenario D N C S = Ok (Executed R)" "in_bounds k val (lr_state R)"
    "\<forall>e\<in>set (lr_entries R). \<forall>l\<in>set (er_lines e). prints_exactly D val l"
  shows "list_all2 (row_shows D val N C) (concat (map (\<lambda>e. map (Pair e) (er_lines e)) (lr_entries R))) (ax_gl_detail (from_run D W R C)) \<and>
    (\<exists>T. control_total D (from_run D W R C) = Ok T \<and> val (ct_debits T) = val (ct_credits T) \<and>
      val (ct_debits T) + val (ct_credits T) = state_gross val (lr_state R) \<and>
      ct_line_count T = (\<Sum>e\<leftarrow>lr_entries R. length (er_lines e)))"
  using extract_rows [OF assms] extract_controls [OF assms] by (rule conjI)

definition demo_printers :: printers where
  "demo_printers = \<lparr>show_uuid_of = (\<lambda>u. ''''), show_date_of = (\<lambda>d. '''')\<rparr>"

text \<open>The lines of the scenario's two entries, side by side.\<close>

lemma demo_run_lines:
  "case run_scenario ref_ops demo_env demo_chart demo_scenario of
     Ok (Executed R) \<Rightarrow> map (\<lambda>e. map (\<lambda>l. (map_option amount (debit l), map_option amount (credit l))) (er_lines e)) (lr_entries R) =
       [[(Some (Dec 2500 2), None), (None, Some (Dec 2500 2))], [(None, Some (Dec 2500 2)), (Some (Dec 2500 2), None)]]
   | _ \<Rightarrow> False"
  by code_simp

lemma demo_prints: "ref_read (ref_show (Dec 2500 2)) = Some (Dec 2500 2)"
  by code_simp

text \<open>Amounts on a grid of cents: what \<open>in_bounds\<close> asks of a short ledger.\<close>

lemma demo_line_value:
  assumes "(map_option amount (debit l), map_option amount (credit l)) \<in> {(Some (Dec 2500 2), None), (None, Some (Dec 2500 2))}"
  shows "\<bar>line_value ref_val l\<bar> = 25 \<and> multiple 2 (line_value ref_val l) \<and> prints_exactly ref_ops ref_val l"
proof -
  have "multiple 2 (25 :: rat)" unfolding multiple_def by (rule exI [of _ 2500]) simp
  then have "multiple 2 (- 25 :: rat)" by (simp only: multiple_neg)
  with assms \<open>multiple 2 25\<close> show ?thesis
    by (auto simp: line_value_def prints_exactly_def signed_amount_def ref_val_def demo_prints ref_ops_def
        money_negate_def money_new_def ref_neg_def split: option.splits)
qed

theorem extract_foots_witness:
  "\<exists>R T. run_scenario ref_ops demo_env demo_chart demo_scenario = Ok (Executed R) \<and>
     list_all2 (row_shows ref_ops ref_val demo_env demo_chart) (concat (map (\<lambda>e. map (Pair e) (er_lines e)) (lr_entries R)))
       (ax_gl_detail (from_run ref_ops demo_printers R demo_chart)) \<and>
     control_total ref_ops (from_run ref_ops demo_printers R demo_chart) = Ok T \<and>
     ref_val (ct_debits T) = ref_val (ct_credits T) \<and> ref_val (ct_debits T) + ref_val (ct_credits T) = 100 \<and> ct_line_count T = 4"
proof -
  from demo_run_lines obtain R where R: "run_scenario ref_ops demo_env demo_chart demo_scenario = Ok (Executed R)"
    "map (\<lambda>e. map (\<lambda>l. (map_option amount (debit l), map_option amount (credit l))) (er_lines e)) (lr_entries R) =
       [[(Some (Dec 2500 2), None), (None, Some (Dec 2500 2))], [(None, Some (Dec 2500 2)), (Some (Dec 2500 2), None)]]"
    by (auto split: res.splits run_outcome.splits)
  from R(2) obtain e1 e2 a b c d where e: "lr_entries R = [e1, e2]" "er_lines e1 = [a, b]" "er_lines e2 = [c, d]"
    by (auto simp: map_eq_Cons_conv)
  have l: "\<bar>line_value ref_val x\<bar> = 25 \<and> multiple 2 (line_value ref_val x) \<and> prints_exactly ref_ops ref_val x"
    if "x \<in> {a, b, c, d}" for x
    by (rule demo_line_value) (use R(2) e that in auto)
  from R(1) have x: "execute ref_ops demo_env demo_chart demo_scenario = Ok R" by (auto simp: run_scenario_def split: if_splits)
  note inv = conjunct2 [OF execute_inv [OF demo_fresh x]]
  have g: "state_gross ref_val (lr_state R) = 100"
    using recorded_gross [OF inv, of ref_val] l by (simp add: e lines_gross_def)
  moreover have "lines_multiple 2 ref_val ls" if "bt_get (entries (lr_state R)) i = Some ls" for i ls
  proof -
    have "map_of [(er_entry_id e1, [a, b]), (er_entry_id e2, [c, d])] i = Some ls"
      using that inv by (simp add: recorded_def e)
    then have "set ls \<subseteq> {a, b, c, d}" by (auto split: if_splits)
    then show ?thesis unfolding lines_multiple_def using l by blast
  qed
  ultimately have ib: "in_bounds 2 ref_val (lr_state R)"
    by (simp add: in_bounds_def fits_gross_def max_mantissa_def)
  have p: "\<forall>e\<in>set (lr_entries R). \<forall>l\<in>set (er_lines e). prints_exactly ref_ops ref_val l" using l e by auto
  note foots = extract_foots [OF ref_laws demo_fresh R(1) ib p, of demo_printers]
  obtain T where T: "control_total ref_ops (from_run ref_ops demo_printers R demo_chart) = Ok T"
    "ref_val (ct_debits T) = ref_val (ct_credits T)" "ref_val (ct_debits T) + ref_val (ct_credits T) = 100"
    "ct_line_count T = (\<Sum>e\<leftarrow>lr_entries R. length (er_lines e))"
    using conjunct2 [OF foots] unfolding g by blast
  have "ct_line_count T = 4" by (simp only: T(4) e) (simp add: e)
  with R(1) T(1-3) conjunct1 [OF foots] show ?thesis by blast
qed

end
