(* ===== verification/Ads_Files.thy ===== *)
theory Ads_Files
  imports Ads_Export
begin

text \<open>
  \<open>crates/testkit/src/ads_export.rs\<close>: writing the extract. The file system and the writer of
  the \<open>csv\<close> crate are the interface \<open>csv_ops\<close>, a state \<open>'w\<close> that every call threads and
  the handle \<open>'h\<close> of an open writer; the locale states what a writer promises when it
  reports success. The columns are those of the \<open>serde\<close> attributes.
\<close>

section \<open>Columns\<close>

datatype csv_value = CsvStr string | CsvNat nat | CsvBool bool

type_synonym csv_record = "(string \<times> csv_value) list"

definition gl_detail_columns :: "gl_detail_row \<Rightarrow> csv_record" where
  "gl_detail_columns r =
     [(''Journal_ID'', CsvStr (gd_journal_id r)),
      (''Journal_ID_Line_Number'', CsvNat (gd_line_number r)),
      (''JE_Header_Description'', CsvStr (gd_header_description r)),
      (''JE_Line_Description'', CsvStr (gd_line_description r)),
      (''Source'', CsvStr (gd_source r)),
      (''Business_Unit_Code'', CsvStr (gd_business_unit r)),
      (''Effective_Date'', CsvStr (gd_effective_date r)),
      (''Fiscal_Year'', CsvStr (gd_fiscal_year r)),
      (''Period'', CsvStr (gd_period r)),
      (''GL_Account_Number'', CsvStr (gd_account_number r)),
      (''Amount'', CsvStr (gd_amount r)),
      (''Amount_Credit_Debit_Indicator'', CsvStr (gd_indicator r)),
      (''Amount_Currency'', CsvStr (gd_currency r)),
      (''Entered_By'', CsvStr (gd_entered_by r)),
      (''Entered_Date'', CsvStr (gd_entered_date r)),
      (''Approved_By'', CsvStr (gd_approved_by r)),
      (''Approved_Date'', CsvStr (gd_approved_date r)),
      (''Reversal_Indicator'', CsvStr (gd_reversal_indicator r)),
      (''Reversal_Journal_ID'', CsvStr (gd_reversal_journal_id r)),
      (''X_Source_Usage_Event_IDs'', CsvStr (gd_source_usage_event_ids r))]"

definition trial_balance_columns :: "trial_balance_row \<Rightarrow> csv_record" where
  "trial_balance_columns r =
     [(''Business_Unit_Code'', CsvStr (tr_business_unit r)),
      (''GL_Account_Number'', CsvStr (tr_account_number r)),
      (''Fiscal_Year'', CsvStr (tr_fiscal_year r)),
      (''Period'', CsvStr (tr_period r)),
      (''Beginning_Balance'', CsvStr (tr_beginning_balance r)),
      (''Ending_Balance'', CsvStr (tr_ending_balance r)),
      (''Amount_Currency'', CsvStr (tr_currency r))]"

definition chart_columns :: "chart_row \<Rightarrow> csv_record" where
  "chart_columns r =
     [(''GL_Account_Number'', CsvStr (cr_account_number r)),
      (''GL_Account_Name'', CsvStr (cr_account_name r)),
      (''Account_Type'', CsvStr (cr_account_type r)),
      (''FS_Caption'', CsvStr (cr_fs_caption r)),
      (''X_Normal_Balance'', CsvStr (cr_normal_balance r)),
      (''X_Is_Contra'', CsvBool (cr_is_contra r)),
      (''X_Subledger'', CsvStr (cr_subledger r))]"

definition source_columns :: "source_row \<Rightarrow> csv_record" where
  "source_columns r =
     [(''Source'', CsvStr (sr_source r)),
      (''Source_Description'', CsvStr (sr_description r)),
      (''X_Automated'', CsvBool (sr_automated r))]"

definition business_unit_columns :: "business_unit_row \<Rightarrow> csv_record" where
  "business_unit_columns r =
     [(''Business_Unit_Code'', CsvStr (bu_code r)),
      (''Business_Unit_Name'', CsvStr (bu_name r)),
      (''Parent_Business_Unit_Code'', CsvStr (bu_parent r)),
      (''X_Functional_Currency'', CsvStr (bu_functional_currency r))]"

section \<open>Writing\<close>

datatype export_error = ExportIo string string | ExportSerialize string string

fun show_export_error :: "export_error \<Rightarrow> string" where
  "show_export_error (ExportIo path d) = ''could not write '' @ path @ '': '' @ d"
| "show_export_error (ExportSerialize label d) = ''could not serialize '' @ label @ '': '' @ d"

text \<open>A writer that is dropped without a flush may still write what it buffered: \<open>drop_writer\<close>.\<close>

record ('w, 'h) csv_ops =
  create_dir_all :: "string \<Rightarrow> 'w \<Rightarrow> (string, unit) res \<times> 'w"
  path_join :: "string \<Rightarrow> string \<Rightarrow> string"
  writer_from_path :: "string \<Rightarrow> 'w \<Rightarrow> (string, 'h) res \<times> 'w"
  writer_serialize :: "csv_record \<Rightarrow> 'h \<Rightarrow> 'w \<Rightarrow> (string, 'h) res \<times> 'w"
  writer_flush :: "'h \<Rightarrow> 'w \<Rightarrow> (string, unit) res \<times> 'w"
  drop_writer :: "'h \<Rightarrow> 'w \<Rightarrow> 'w"

fun serialize_rows ::
  "('w, 'h) csv_ops \<Rightarrow> string \<Rightarrow> csv_record list \<Rightarrow> 'h \<Rightarrow> 'w \<Rightarrow> (export_error, 'h) res \<times> 'w" where
  "serialize_rows F label [] h w = (Ok h, w)"
| "serialize_rows F label (row # rows) h w =
     (case writer_serialize F row h w of
        (Ok h', w') \<Rightarrow> serialize_rows F label rows h' w'
      | (Err e, w') \<Rightarrow> (Err (ExportSerialize label e), drop_writer F h w')
      | (Panic, w') \<Rightarrow> (Panic, drop_writer F h w'))"

definition write_file ::
  "('w, 'h) csv_ops \<Rightarrow> string \<Rightarrow> string \<Rightarrow> csv_record list \<Rightarrow> string \<Rightarrow> 'w \<Rightarrow> (export_error, unit) res \<times> 'w" where
  "write_file F dir name rows label w =
     (let path = path_join F dir name in
      case writer_from_path F path w of
        (Err e, w1) \<Rightarrow> (Err (ExportIo path e), w1)
      | (Panic, w1) \<Rightarrow> (Panic, w1)
      | (Ok writer, w1) \<Rightarrow>
          (case serialize_rows F label rows writer w1 of
             (Err e, w2) \<Rightarrow> (Err e, w2)
           | (Panic, w2) \<Rightarrow> (Panic, w2)
           | (Ok writer', w2) \<Rightarrow>
               (case writer_flush F writer' w2 of
                  (answer, w3) \<Rightarrow> (res_map_err (ExportIo path) answer, drop_writer F writer' w3))))"

text \<open>The rows of the five files, with their file names, in the order they are written.\<close>

definition extract_files :: "ads_extract \<Rightarrow> (string \<times> csv_record list \<times> string) list" where
  "extract_files X =
     [(''GL_Detail.csv'', map gl_detail_columns (ax_gl_detail X), ''GL_Detail''),
      (''Trial_Balance.csv'', map trial_balance_columns (ax_trial_balance X), ''Trial_Balance''),
      (''Chart_Of_Accounts.csv'', map chart_columns (ax_chart_of_accounts X), ''Chart_Of_Accounts''),
      (''Source_Listing.csv'', map source_columns (ax_source_listing X), ''Source_Listing''),
      (''Business_Unit_Listing.csv'', map business_unit_columns (ax_business_unit_listing X), ''Business_Unit_Listing'')]"

fun write_files ::
  "('w, 'h) csv_ops \<Rightarrow> string \<Rightarrow> (string \<times> csv_record list \<times> string) list \<Rightarrow> 'w \<Rightarrow> (export_error, unit) res \<times> 'w" where
  "write_files F dir [] w = (Ok (), w)"
| "write_files F dir ((name, rows, label) # rest) w =
     (case write_file F dir name rows label w of
        (Ok _, w') \<Rightarrow> write_files F dir rest w'
      | (Err e, w') \<Rightarrow> (Err e, w')
      | (Panic, w') \<Rightarrow> (Panic, w'))"

definition write_csv :: "('w, 'h) csv_ops \<Rightarrow> ads_extract \<Rightarrow> string \<Rightarrow> 'w \<Rightarrow> (export_error, unit) res \<times> 'w" where
  "write_csv F X dir w =
     (case create_dir_all F dir w of
        (Err e, w') \<Rightarrow> (Err (ExportIo dir e), w')
      | (Panic, w') \<Rightarrow> (Panic, w')
      | (Ok _, w') \<Rightarrow> write_files F dir (extract_files X) w')"

section \<open>What a writer promises\<close>

text \<open>
  The promises are made for calls that succeed. \<open>held h w\<close> are the records given to a writer
  so far, \<open>path_of h\<close> its file, and \<open>files w\<close> what the file system holds.
\<close>

locale csv_writer =
  fixes F :: "('w, 'h) csv_ops"
    and files :: "'w \<Rightarrow> string \<Rightarrow> csv_record list option"
    and path_of :: "'h \<Rightarrow> string"
    and held :: "'h \<Rightarrow> 'w \<Rightarrow> csv_record list"
  assumes created: "create_dir_all F dir w = (Ok (), w') \<Longrightarrow> files w' = files w"
    and opened: "writer_from_path F p w = (Ok h, w') \<Longrightarrow>
      path_of h = p \<and> held h w' = [] \<and> (\<forall>q. q \<noteq> p \<longrightarrow> files w' q = files w q)"
    and written: "writer_serialize F r h w = (Ok h', w') \<Longrightarrow>
      path_of h' = path_of h \<and> held h' w' = held h w @ [r] \<and> (\<forall>q. q \<noteq> path_of h \<longrightarrow> files w' q = files w q)"
    and flushed: "writer_flush F h w = (Ok (), w') \<Longrightarrow>
      files (drop_writer F h w') = (files w)(path_of h \<mapsto> held h w)"
begin

lemma rows_written:
  "serialize_rows F label rows h w = (Ok h', w') \<Longrightarrow>
   path_of h' = path_of h \<and> held h' w' = held h w @ rows \<and> (\<forall>q. q \<noteq> path_of h \<longrightarrow> files w' q = files w q)"
proof (induction rows arbitrary: h w)
  case (Cons r rows)
  then obtain h1 w1 where s: "writer_serialize F r h w = (Ok h1, w1)" "serialize_rows F label rows h1 w1 = (Ok h', w')"
    by (auto split: prod.splits res.splits)
  from written [OF s(1)] Cons.IH [OF s(2)] show ?case by simp
qed simp

lemma file_written:
  assumes "write_file F dir name rows label w = (Ok (), w')"
  shows "files w' = (files w)(path_join F dir name \<mapsto> rows)"
proof -
  let ?p = "path_join F dir name"
  from assms obtain h w1 h2 w2 w3 where
    o: "writer_from_path F ?p w = (Ok h, w1)" and s: "serialize_rows F label rows h w1 = (Ok h2, w2)"
    and f: "writer_flush F h2 w2 = (Ok (), w3)" "w' = drop_writer F h2 w3"
    by (auto simp: write_file_def Let_def split: prod.splits res.splits)
  from rows_written [OF s] opened [OF o] flushed [OF f(1)] f(2) show ?thesis by (auto simp: fun_eq_iff)
qed

lemma files_written:
  "write_files F dir fs w = (Ok (), w') \<Longrightarrow>
   files w' = (files w) ++ map_of (rev (map (\<lambda>(name, rows, _). (path_join F dir name, rows)) fs))"
proof (induction fs arbitrary: w)
  case (Cons f fs)
  obtain name rows label where f: "f = (name, rows, label)" by (cases f)
  with Cons.prems obtain w1 where s: "write_file F dir name rows label w = (Ok (), w1)" "write_files F dir fs w1 = (Ok (), w')"
    by (auto split: prod.splits res.splits)
  show ?case using Cons.IH [OF s(2)] file_written [OF s(1)] by (auto simp: f fun_eq_iff map_add_def split: option.splits)
qed simp

lemma csv_written:
  assumes "write_csv F X dir w = (Ok (), w')" "inj (path_join F dir)" "(name, rows, label) \<in> set (extract_files X)"
  shows "files w' (path_join F dir name) = Some rows"
proof -
  let ?fs = "map (\<lambda>(name, rows, _). (path_join F dir name, rows)) (extract_files X)"
  from assms(1) obtain w1 where "create_dir_all F dir w = (Ok (), w1)" "write_files F dir (extract_files X) w1 = (Ok (), w')"
    by (auto simp: write_csv_def split: prod.splits res.splits)
  then have f: "files w' = files w ++ map_of (rev ?fs)" using files_written created by metis
  have "distinct (map fst ?fs)" using assms(2) by (simp add: extract_files_def inj_eq)
  then have "map_of (rev ?fs) k = map_of ?fs k" for k by (rule map_of_rev_distinct)
  moreover have "map_of ?fs (path_join F dir name) = Some rows"
    using \<open>distinct (map fst ?fs)\<close> assms(3) by (intro map_of_is_SomeI) force+
  ultimately show ?thesis by (simp add: f map_add_def)
qed

end

section \<open>A file system in memory\<close>

text \<open>Every call succeeds; a writer keeps its records until it is flushed.\<close>

definition memory_csv :: "(string \<Rightarrow> csv_record list option, string \<times> csv_record list) csv_ops" where
  "memory_csv = \<lparr>create_dir_all = (\<lambda>_ w. (Ok (), w)), path_join = (\<lambda>dir name. dir @ ''/'' @ name),
     writer_from_path = (\<lambda>p w. (Ok (p, []), w(p \<mapsto> []))),
     writer_serialize = (\<lambda>r h w. (Ok (fst h, snd h @ [r]), w)),
     writer_flush = (\<lambda>h w. (Ok (), w(fst h \<mapsto> snd h))),
     drop_writer = (\<lambda>_ w. w)\<rparr>"

interpretation memory: csv_writer memory_csv "\<lambda>w. w" fst "\<lambda>h _. snd h"
  by unfold_locales (auto simp: memory_csv_def)

text \<open>There the extract is always written, one record per row of each of its files.\<close>

lemma memory_rows: "serialize_rows memory_csv label rows h w = (Ok (fst h, snd h @ rows), w)"
  by (induction rows arbitrary: h) (simp_all add: memory_csv_def)

lemma memory_writes_all:
  assumes "(name, rows, label) \<in> set (extract_files X)"
  shows "fst (write_csv memory_csv X dir w) = Ok () \<and>
    snd (write_csv memory_csv X dir w) (dir @ ''/'' @ name) = Some rows"
proof -
  have "fst (write_file memory_csv dir name rows label w) = Ok ()" for name rows label w
    using memory_rows [of label rows "(path_join memory_csv dir name, [])"]
    by (simp add: write_file_def Let_def memory_csv_def)
  then have f: "\<exists>w'. write_file memory_csv dir name rows label w = (Ok (), w')" for name rows label w
    by (metis prod.collapse)
  have "\<exists>w'. write_files memory_csv dir fs w = (Ok (), w')" for fs w
  proof (induction fs arbitrary: w)
    case (Cons x fs)
    obtain n r l where x: "x = (n, r, l)" by (cases x)
    obtain w1 where "write_file memory_csv dir n r l w = (Ok (), w1)" using f by blast
    with Cons.IH [of w1] show ?case by (simp add: x)
  qed simp
  then obtain w' where w': "write_csv memory_csv X dir w = (Ok (), w')"
    by (auto simp: write_csv_def memory_csv_def)
  have "inj (path_join memory_csv dir)" by (rule injI) (simp add: memory_csv_def)
  with memory.csv_written [OF w' _ assms] w' show ?thesis by (simp add: memory_csv_def)
qed

end
