(* ===== verification/Api.thy ===== *)
theory Api
  imports Research_Store Ledger_Store
begin

unbundle bit_operations_syntax

text \<open>
  \<open>crates/api/src\<close>: the HTTP layer, which turns a request into calls of the stores. The
  request, its extractors and the route matching belong to \<open>axum\<close>: the argument \<open>http_ops\<close>
  says what they return. Every query runs in a session of its own, numbered by the handler.
  A response keeps its values; the JSON text of a body is left to \<open>serde\<close>.
\<close>

section \<open>Who is calling\<close>

datatype Scope = Read | Ingest | Post

fun scope_display :: "Scope \<Rightarrow> string" where
  "scope_display Read = ''read''"
| "scope_display Ingest = ''ingest''"
| "scope_display Post = ''post''"

record tenant_context =
  ctx_tenant_id :: TenantId
  ctx_scopes :: "Scope list"

datatype api_error =
    Unauthenticated
  | Forbidden Scope
  | NotFound string
  | BadRequest string
  | Unprocessable string
  | Internal string

definition has_scope :: "tenant_context \<Rightarrow> Scope \<Rightarrow> bool" where
  "has_scope c s \<longleftrightarrow> s \<in> set (ctx_scopes c)"

definition require_scope :: "tenant_context \<Rightarrow> Scope \<Rightarrow> (api_error, unit) res" where
  "require_scope c s = (if has_scope c s then Ok () else Err (Forbidden s))"

type_synonym static_token_resolver = "(string \<times> tenant_context) list"

definition static_resolver_new :: static_token_resolver where
  "static_resolver_new = []"

definition with_token :: "string \<Rightarrow> TenantId \<Rightarrow> Scope list \<Rightarrow> static_token_resolver \<Rightarrow> static_token_resolver" where
  "with_token token t scopes self = self @ [(token, \<lparr>ctx_tenant_id = t, ctx_scopes = scopes\<rparr>)]"

definition byte_of :: "char \<Rightarrow> 8 word" where
  "byte_of c = word_of_nat (of_char c)"

definition secret_eq :: "string \<Rightarrow> string \<Rightarrow> bool" where
  "secret_eq a b \<longleftrightarrow> length a = length b \<and>
     fold (\<lambda>(x, y) acc. acc OR (byte_of x XOR byte_of y)) (zip a b) 0 = 0"

definition resolve_token :: "static_token_resolver \<Rightarrow> string \<Rightarrow> tenant_context option" where
  "resolve_token self token = map_option snd (find (\<lambda>(candidate, _). secret_eq candidate token) self)"

section \<open>Requests and responses\<close>

text \<open>A rejection of an extractor of \<open>axum\<close> is its status and its text.\<close>

record 'q http_ops =
  header_get :: "'q \<Rightarrow> string \<Rightarrow> string option"
  header_to_str :: "string \<Rightarrow> string option"
  path_uuid :: "'q \<Rightarrow> (nat \<times> string, uuid) res"
  query_since :: "'q \<Rightarrow> (nat \<times> string, datetime option) res"
  match_get :: "string list \<Rightarrow> 'q \<Rightarrow> string option"
  fallback :: "'q \<Rightarrow> nat \<times> string"

definition bearer_token :: "'q http_ops \<Rightarrow> 'q \<Rightarrow> string option" where
  "bearer_token H q =
     Option.bind (header_get H q ''authorization'') (\<lambda>v.
     Option.bind (header_to_str H v) (\<lambda>s.
     Option.bind (strip_prefix ''Bearer '' s) (\<lambda>t. if trim t = [] then None else Some (trim t))))"

definition context_from_parts ::
  "'q http_ops \<Rightarrow> (string \<Rightarrow> tenant_context option) \<Rightarrow> 'q \<Rightarrow> (api_error, tenant_context) res" where
  "context_from_parts H tenants q =
     res_bind (ok_or (bearer_token H q) Unauthenticated) (\<lambda>token.
     ok_or (tenants token) Unauthenticated)"

record run_view =
  rv_id :: uuid
  rv_experiment_id :: uuid
  rv_external_source :: string
  rv_external_id :: string
  rv_status :: string
  rv_started_at :: datetime
  rv_ended_at :: "datetime option"
  rv_function_code :: string
  rv_capitalization_status :: string
  rv_attributed_cost :: string
  rv_currency :: string

record run_cost_view =
  rc_run_id :: uuid
  rc_attributed_cost :: string
  rc_currency :: string

record coverage_view =
  cv_total_events :: int
  cv_run_attributed :: int
  cv_fraction :: string
  cv_below_build_gate :: bool

record account_balance =
  ab_account :: uuid
  ab_balance :: string
  ab_currency :: string

record balance_view =
  bv_aggregate_id :: uuid
  bv_entry_count :: nat
  bv_event_count :: nat
  bv_accounts :: "account_balance list"
  bv_trial_balance :: string

datatype body =
    TextBody string
  | ErrorBody string string
  | RunBody run_view
  | RunCostBody run_cost_view
  | CoverageBody coverage_view
  | BalanceBody balance_view

record response =
  resp_status :: nat
  resp_body :: body

fun api_error_display :: "api_error \<Rightarrow> string" where
  "api_error_display Unauthenticated = ''authentication required''"
| "api_error_display (Forbidden s) = ''missing required scope: '' @ scope_display s"
| "api_error_display (NotFound what) = what @ '' not found''"
| "api_error_display (BadRequest m) = m"
| "api_error_display (Unprocessable m) = m"
| "api_error_display (Internal m) = ''internal error''"

fun status_code :: "api_error \<Rightarrow> nat \<times> string" where
  "status_code Unauthenticated = (401, ''unauthenticated'')"
| "status_code (Forbidden s) = (403, ''forbidden'')"
| "status_code (NotFound what) = (404, ''not_found'')"
| "status_code (BadRequest m) = (400, ''bad_request'')"
| "status_code (Unprocessable m) = (422, ''unprocessable'')"
| "status_code (Internal m) = (500, ''internal'')"

definition into_response :: "api_error \<Rightarrow> response" where
  "into_response e =
     \<lparr>resp_status = fst (status_code e), resp_body = ErrorBody (snd (status_code e))
        (case e of Internal m \<Rightarrow> ''an internal error occurred'' | other \<Rightarrow> api_error_display other)\<rparr>"

definition domain_error :: "('e \<Rightarrow> string) \<Rightarrow> 'e \<Rightarrow> api_error" where
  "domain_error show_error e = Unprocessable (show_error e)"

definition storage_error :: "('e \<Rightarrow> string) \<Rightarrow> 'e \<Rightarrow> api_error" where
  "storage_error show_error e = Internal (show_error e)"

section \<open>The messages of the stores\<close>

fun show_store_error :: "store_error \<Rightarrow> string" where
  "show_store_error (Backend m) = ''storage backend failed: '' @ m"
| "show_store_error MissingTenantContext =
     ''tenant context was not set on the connection; RLS would silently return nothing''"

fun show_research_error :: "research_store_error \<Rightarrow> string" where
  "show_research_error (ResearchBackend m) = ''storage backend failed: '' @ m"
| "show_research_error (UnknownExperiment m) = ''experiment '' @ m @ '' does not exist''"

definition show_int :: "int \<Rightarrow> string" where
  "show_int n = (if n < 0 then ''-'' @ show_nat (nat (- n)) else show_nat (nat n))"

fun show_ledger_store_error :: "(uuid \<Rightarrow> string) \<Rightarrow> ledger_store_error \<Rightarrow> string" where
  "show_ledger_store_error show_uuid (BackendError m) = ''database error: '' @ m"
| "show_ledger_store_error show_uuid (CorruptEvent i m) =
     ''stored ledger event '' @ show_uuid i @ '' could not be deserialized: '' @ m"
| "show_ledger_store_error show_uuid (Serialize m) = ''event could not be serialized: '' @ m"
| "show_ledger_store_error show_uuid (ConcurrencyConflict i s) =
     ''concurrent write to aggregate '' @ show_uuid i @ '' at sequence '' @ show_int s @
     ''; reload the aggregate and retry''"
| "show_ledger_store_error show_uuid AppendOnly =
     ''ledger_events is append-only; post a reversing entry instead of deleting''"

section \<open>Handlers\<close>

text \<open>
  What the stores of \<open>AppState\<close> are built on, the clock, and the two tables they share. The
  cost table is part of the research database, where a run's cost is recomputed from it.
\<close>

record ('g, 'd) app_state =
  app_tenants :: "string \<Rightarrow> tenant_context option"
  app_decimal :: "'d decimal_ops"
  app_codec :: "'d pg_codec"
  app_sum :: "'d list \<Rightarrow> (string, 'd option) res"
  app_serde :: "'d event_serde"
  app_esrs :: "('g, 'd) esrs_ops"
  app_session :: "nat \<Rightarrow> pg_session"
  app_now :: datetime

record 'd tables =
  tb_research :: "'d research_db"
  tb_ledger :: ledger_table

definition hours_24 :: int where
  "hours_24 = 24 * 60 * 60 * 10 ^ 9"

definition coverage_handler ::
  "('g, 'd) app_state \<Rightarrow> 'd tables \<Rightarrow> tenant_context \<Rightarrow> datetime option \<Rightarrow> (api_error, coverage_view) res" where
  "coverage_handler A w ctx q_since =
     res_bind (require_scope ctx Read) (\<lambda>_.
     let since = (case q_since of Some s \<Rightarrow> s | None \<Rightarrow> app_now A - hours_24) in
     res_bind (res_map_err (storage_error show_store_error)
       (attribution_coverage (app_codec A) (app_session A 0) (db_costs (tb_research w)) (ctx_tenant_id ctx) since)) (\<lambda>c.
     res_bind (coverage_fraction (app_decimal A) c) (\<lambda>f.
     res_bind (below_build_gate (app_decimal A) c) (\<lambda>g.
     Ok \<lparr>cv_total_events = total_events c, cv_run_attributed = run_attributed c,
       cv_fraction = dec_to_string (app_decimal A) f, cv_below_build_gate = g\<rparr>))))"

text \<open>The trial balance shown is that of the USD balances, whatever currencies the ledger holds.\<close>

definition balance_handler ::
  "('g, 'd) app_state \<Rightarrow> 'd tables \<Rightarrow> tenant_context \<Rightarrow> uuid \<Rightarrow> (api_error, balance_view) res" where
  "balance_handler A w ctx i =
     res_bind (require_scope ctx Read) (\<lambda>_.
     let D = app_decimal A; P = app_codec A; store = ledger_for_tenant (ctx_tenant_id ctx);
         failed = storage_error (show_ledger_store_error (pg_uuid_show P)) in
     res_bind (res_map_err failed
       (load D (app_esrs A) P (app_serde A) (app_session A 0) (tb_ledger w) store i)) (\<lambda>g.
     res_bind (res_map_err failed
       (event_count P (app_serde A) (app_session A 1) (tb_ledger w) store i)) (\<lambda>n.
     let s = agg_inner (app_esrs A) g;
         accs = map (\<lambda>(a, m). \<lparr>ab_account = account_as_uuid a, ab_balance = dec_to_string D (amount m),
             ab_currency = currency_code (currency m)\<rparr>) (accounts s) in
     res_bind (trial_balance D s Usd) (\<lambda>t.
     Ok \<lparr>bv_aggregate_id = i, bv_entry_count = entry_count s, bv_event_count = n, bv_accounts = accs,
       bv_trial_balance = dec_to_string D (amount t)\<rparr>))))"

definition run_handler ::
  "('g, 'd) app_state \<Rightarrow> 'd tables \<Rightarrow> tenant_context \<Rightarrow> uuid \<Rightarrow> (api_error, run_view) res" where
  "run_handler A w ctx i =
     res_bind (require_scope ctx Read) (\<lambda>_.
     res_bind (res_map_err (storage_error show_research_error)
       (find_run (app_codec A) (app_session A 0) (tb_research w) (ctx_tenant_id ctx) (RunId i))) (\<lambda>found.
     res_bind (ok_or found (NotFound ''run'')) (\<lambda>run.
     Ok \<lparr>rv_id = run_as_uuid (r_id run), rv_experiment_id = experiment_as_uuid (r_experiment_id run),
       rv_external_source = tracker_as_str (xr_source (r_external_ref run)),
       rv_external_id = xr_external_id (r_external_ref run), rv_status = run_status_as_str (r_status run),
       rv_started_at = r_started_at run, rv_ended_at = r_ended_at run,
       rv_function_code = function_code_as_str (r_function_code run),
       rv_capitalization_status = capitalization_as_str (r_capitalization_status run),
       rv_attributed_cost = dec_to_string (app_decimal A) (amount (r_attributed_cost run)),
       rv_currency = currency_code (currency (r_attributed_cost run))\<rparr>)))"

definition cost_checks ::
  "('g, 'd) app_state \<Rightarrow> 'd tables \<Rightarrow> tenant_context \<Rightarrow> uuid \<Rightarrow> (api_error, unit) res" where
  "cost_checks A w ctx i =
     res_bind (require_scope ctx Read) (\<lambda>_.
     res_bind (res_map_err (storage_error show_research_error)
       (find_run (app_codec A) (app_session A 0) (tb_research w) (ctx_tenant_id ctx) (RunId i))) (\<lambda>found.
     if found = None then Err (NotFound ''run'') else Ok ()))"

text \<open>The only handler that writes: it stores the cost it recomputed.\<close>

definition run_cost_handler ::
  "('g, 'd) app_state \<Rightarrow> 'd tables \<Rightarrow> tenant_context \<Rightarrow> uuid \<Rightarrow> (api_error, run_cost_view) res \<times> 'd tables" where
  "run_cost_handler A w ctx i =
     (case cost_checks A w ctx i of
        Err e \<Rightarrow> (Err e, w)
      | Panic \<Rightarrow> (Panic, w)
      | Ok _ \<Rightarrow>
          (case refresh_attributed_cost (app_decimal A) (app_codec A) (app_sum A) (app_session A 1)
              (tb_research w) (ctx_tenant_id ctx) (RunId i) of
             (answer, db') \<Rightarrow>
               (res_map (\<lambda>m. \<lparr>rc_run_id = i, rc_attributed_cost = dec_to_string (app_decimal A) (amount m),
                   rc_currency = currency_code (currency m)\<rparr>)
                 (res_map_err (storage_error show_research_error) answer),
                w\<lparr>tb_research := db'\<rparr>)))"

section \<open>Routing\<close>

datatype handler = HealthHandler | RunHandler | RunCostHandler | CoverageHandler | BalanceHandler

definition route_table :: "(string \<times> handler) list" where
  "route_table =
     [(''/health'', HealthHandler),
      (''/v1/runs/{run_id}'', RunHandler),
      (''/v1/runs/{run_id}/cost'', RunCostHandler),
      (''/v1/cost/coverage'', CoverageHandler),
      (''/v1/ledger/{aggregate_id}/balance'', BalanceHandler)]"

definition health :: string where
  "health = ''ok''"

text \<open>The answer of a handler that returned \<open>Result<Json<_>, ApiError>\<close>; a panic leaves none.\<close>

definition answer :: "('a \<Rightarrow> body) \<Rightarrow> (api_error, 'a) res \<Rightarrow> response option" where
  "answer f m = (case m of
     Ok v \<Rightarrow> Some \<lparr>resp_status = 200, resp_body = f v\<rparr>
   | Err e \<Rightarrow> Some (into_response e)
   | Panic \<Rightarrow> None)"

text \<open>Extraction in the order of the parameters: the credential first, then the path or query.\<close>

definition extracted ::
  "(api_error, tenant_context) res \<Rightarrow> (nat \<times> string, 'a) res \<Rightarrow> (response, tenant_context \<times> 'a) res" where
  "extracted ctx extractor =
     res_bind (res_map_err into_response ctx) (\<lambda>c.
     res_bind (res_map_err (\<lambda>(s, text). \<lparr>resp_status = s, resp_body = TextBody text\<rparr>) extractor) (\<lambda>x.
     Ok (c, x)))"

definition run_with ::
  "(response, 'a) res \<Rightarrow> ('a \<Rightarrow> response option \<times> 'd tables) \<Rightarrow> 'd tables \<Rightarrow> response option \<times> 'd tables" where
  "run_with m f w = (case m of Ok x \<Rightarrow> f x | Err r \<Rightarrow> (Some r, w) | Panic \<Rightarrow> (None, w))"

definition dispatch ::
  "'q http_ops \<Rightarrow> ('g, 'd) app_state \<Rightarrow> 'd tables \<Rightarrow> handler \<Rightarrow> 'q \<Rightarrow> response option \<times> 'd tables" where
  "dispatch H A w h q =
     (let ctx = context_from_parts H (app_tenants A) q in
      case h of
        HealthHandler \<Rightarrow> (Some \<lparr>resp_status = 200, resp_body = TextBody health\<rparr>, w)
      | RunHandler \<Rightarrow> run_with (extracted ctx (path_uuid H q)) (\<lambda>(c, i). (answer RunBody (run_handler A w c i), w)) w
      | RunCostHandler \<Rightarrow> run_with (extracted ctx (path_uuid H q))
          (\<lambda>(c, i). case run_cost_handler A w c i of (r, w') \<Rightarrow> (answer RunCostBody r, w')) w
      | CoverageHandler \<Rightarrow> run_with (extracted ctx (query_since H q))
          (\<lambda>(c, s). (answer CoverageBody (coverage_handler A w c s), w)) w
      | BalanceHandler \<Rightarrow> run_with (extracted ctx (path_uuid H q))
          (\<lambda>(c, i). (answer BalanceBody (balance_handler A w c i), w)) w)"

definition serve ::
  "'q http_ops \<Rightarrow> ('g, 'd) app_state \<Rightarrow> 'd tables \<Rightarrow> 'q \<Rightarrow> response option \<times> 'd tables" where
  "serve H A w q =
     (case Option.bind (match_get H (map fst route_table) q) (map_of route_table) of
        Some h \<Rightarrow> dispatch H A w h q
      | None \<Rightarrow> (case fallback H q of (s, text) \<Rightarrow> (Some \<lparr>resp_status = s, resp_body = TextBody text\<rparr>, w)))"

text \<open>\<open>main.rs\<close>: the development credentials, from two environment variables.\<close>

definition configured_tenants ::
  "(string \<Rightarrow> uuid option) \<Rightarrow> string option \<Rightarrow> string option \<Rightarrow> (string, static_token_resolver) res" where
  "configured_tenants parse_uuid dev_token dev_tenant =
     (case dev_token of
        Some token \<Rightarrow>
          res_bind (ok_or (Option.bind dev_tenant parse_uuid)
            ''FALKR_DEV_TENANT_ID must be a UUID when FALKR_DEV_TOKEN is set'') (\<lambda>u.
          Ok (with_token token (TenantId u) [Read, Ingest, Post] static_resolver_new))
      | None \<Rightarrow> Ok static_resolver_new)"

end
