(* ===== verification/Api_Proofs.thy ===== *)
theory Api_Proofs
  imports Api
begin

unbundle bit_operations_syntax

text \<open>
  Lemmas on the HTTP layer: what the credential comparison decides, which rows each handler
  reads, and what it leaves in the tables.
\<close>

section \<open>Credentials\<close>

lemma byte_of_eq [simp]: "byte_of x = byte_of y \<longleftrightarrow> x = y"
proof
  assume "byte_of x = byte_of y"
  then have "(of_char x :: nat) = of_char y"
    by (simp add: byte_of_def word_of_nat_eq_iff take_bit_eq_mod)
  then show "x = y" by simp
qed simp

lemma or_eq_0 [simp]: "(a OR b = (0 :: 8 word)) \<longleftrightarrow> a = 0 \<and> b = 0"
  by (auto simp: bit_eq_iff bit_simps)

lemma xor_eq_0 [simp]: "(a XOR b = (0 :: 8 word)) \<longleftrightarrow> a = b"
  by (auto simp: bit_eq_iff bit_simps)

lemma differences:
  "fold (\<lambda>(x, y) acc. acc OR (byte_of x XOR byte_of y)) ps acc = 0 \<longleftrightarrow> acc = 0 \<and> (\<forall>(x, y)\<in>set ps. x = y)"
  by (induction ps arbitrary: acc) auto

lemma secret_eq_iff [simp]: "secret_eq a b \<longleftrightarrow> a = b"
proof
  assume "secret_eq a b"
  then have "length a = length b" "\<forall>(x, y)\<in>set (zip a b). x = y" by (auto simp: secret_eq_def differences)
  then show "a = b" by (induction a b rule: list_induct2) auto
next
  assume "a = b"
  moreover have "\<forall>(x, y)\<in>set (zip b b). x = y" by (auto simp: zip_same)
  ultimately show "secret_eq a b" by (simp add: secret_eq_def differences)
qed

lemma resolve_token_map_of: "resolve_token self token = map_of self token"
  by (induction self) (auto simp: resolve_token_def)

lemma resolve_with_token:
  "resolve_token (with_token token t scopes self) x =
    (case resolve_token self x of Some c \<Rightarrow> Some c
     | None \<Rightarrow> if x = token then Some \<lparr>ctx_tenant_id = t, ctx_scopes = scopes\<rparr> else None)"
  by (simp add: resolve_token_map_of with_token_def map_add_def split: option.split)

text \<open>Without a development token, no credential resolves.\<close>

lemma unconfigured_fails_closed:
  "configured_tenants parse_uuid None dev_tenant = Ok self \<Longrightarrow> resolve_token self token = None"
  by (auto simp: configured_tenants_def static_resolver_new_def resolve_token_def)

definition caller :: "'q http_ops \<Rightarrow> ('g, 'd) app_state \<Rightarrow> 'q \<Rightarrow> tenant_context option" where
  "caller H A q = Option.bind (bearer_token H q) (app_tenants A)"

lemma context_caller: "context_from_parts H (app_tenants A) q = ok_or (caller H A q) Unauthenticated"
  by (cases "bearer_token H q") (simp_all add: context_from_parts_def caller_def)

section \<open>What a tenant sees\<close>

definition same_view :: "TenantId \<Rightarrow> 'd tables \<Rightarrow> 'd tables \<Rightarrow> bool" where
  "same_view t w w2 \<longleftrightarrow> visible t (db_costs (tb_research w)) = visible t (db_costs (tb_research w2)) \<and>
     visible_runs t (tb_research w) = visible_runs t (tb_research w2) \<and>
     ledger_visible t (tb_ledger w) = ledger_visible t (tb_ledger w2)"

lemma same_view_refl [simp]: "same_view t w w"
  by (simp add: same_view_def)

text \<open>A transaction sees its tenant's rows, so a query through it depends on them only.\<close>

lemma after_begin:
  assumes "\<And>t'. t' = t \<Longrightarrow> f t' = g t'"
  shows "res_bind (res_map_err h (begin_tenant_tx S sh t)) f = res_bind (res_map_err h (begin_tenant_tx S sh t)) g"
  using assms by (cases "begin_tenant_tx S sh t") (auto dest: begin_tenant_tx_Ok)

lemma coverage_view:
  "same_view t w w2 \<Longrightarrow> attribution_coverage P S (db_costs (tb_research w)) t since =
    attribution_coverage P S (db_costs (tb_research w2)) t since"
  by (simp add: attribution_coverage_def same_view_def)

lemma find_run_view:
  "same_view t w w2 \<Longrightarrow> find_run P S (tb_research w) t i = find_run P S (tb_research w2) t i"
  unfolding find_run_def select_run_def by (rule after_begin) (simp add: same_view_def)

lemma by_aggregate_id_view:
  "same_view t w w2 \<Longrightarrow> by_aggregate_id P Z S (tb_ledger w) (ledger_for_tenant t) i =
    by_aggregate_id P Z S (tb_ledger w2) (ledger_for_tenant t) i"
  unfolding by_aggregate_id_def ledger_for_tenant_def ledger_store_new_def
  by (simp only: ledger_store.simps, rule after_begin) (simp add: same_view_def)

lemma run_costs_view:
  "same_view t w w2 \<Longrightarrow> run_costs t (tb_research w) i c = run_costs t (tb_research w2) i c"
  by (simp add: run_costs_def same_view_def)

lemma res_map_bind: "res_map f (res_bind m g) = res_bind m (\<lambda>x. res_map f (g x))"
  by (cases m) auto

lemma refresh_view:
  assumes "same_view t w w2"
  shows "fst (refresh_attributed_cost D P pgsum S (tb_research w) t run) =
    fst (refresh_attributed_cost D P pgsum S (tb_research w2) t run)"
proof -
  have "res_map fst (refresh_tx D P pgsum S (tb_research w) t run) =
      res_map fst (refresh_tx D P pgsum S (tb_research w2) t run)"
  proof (cases "begin_tenant_tx S (pg_uuid_show P) t")
    case (Ok t')
    then have "t' = t" by (auto dest: begin_tenant_tx_Ok)
    with assms Ok show ?thesis
      by (cases "find (\<lambda>r. rrow_id r = run_as_uuid run) (visible_runs t (tb_research w2))")
        (simp_all add: refresh_tx_def Let_def run_costs_view [OF assms] same_view_def res_map_bind)
  qed (simp_all add: refresh_tx_def Let_def)
  then show ?thesis
    by (auto simp: refresh_attributed_cost_def split: res.splits)
qed

lemma res_fold_map: "res_fold f (map g xs) s = res_fold (\<lambda>x. f (g x)) xs s"
  by (induction xs arbitrary: s) (auto intro!: arg_cong [where f = "res_bind _"])

section \<open>Handlers\<close>

lemma refresh_others:
  assumes "t' \<noteq> t"
  shows "visible_runs t' (snd (refresh_attributed_cost D P pgsum S db t run)) = visible_runs t' db \<and>
    db_costs (snd (refresh_attributed_cost D P pgsum S db t run)) = db_costs db"
proof (cases "refresh_tx D P pgsum S db t run")
  case (Ok x)
  obtain m db' where x: "x = (m, db')" by (cases x)
  obtain n where "db' = db\<lparr>db_runs := map (\<lambda>r. if rrow_id r = run_as_uuid run \<and> rrow_tenant_id r = tenant_as_uuid t
      then r\<lparr>rrow_attributed_cost := n\<rparr> else r) (db_runs db)\<rparr>"
    using Ok x by (auto simp: refresh_tx_def Let_def dest!: begin_tenant_tx_Ok)
  moreover have "filter (\<lambda>r. rrow_tenant_id r = tenant_as_uuid t') (map (\<lambda>r. if rrow_id r = i \<and>
      rrow_tenant_id r = tenant_as_uuid t then r\<lparr>rrow_attributed_cost := n\<rparr> else r) rs) =
      filter (\<lambda>r. rrow_tenant_id r = tenant_as_uuid t') rs" for i n and rs :: "'a run_row list"
    using assms by (induction rs) (auto simp: TenantId.expand)
  ultimately show ?thesis using Ok x by (simp add: refresh_attributed_cost_def visible_runs_def)
qed (simp_all add: refresh_attributed_cost_def)

lemma handler_views:
  assumes "same_view (ctx_tenant_id c) w w2"
  shows coverage_handler_view: "coverage_handler A w c s = coverage_handler A w2 c s"
    and balance_handler_view: "balance_handler A w c i = balance_handler A w2 c i"
    and run_handler_view: "run_handler A w c i = run_handler A w2 c i"
    and cost_checks_view: "cost_checks A w c i = cost_checks A w2 c i"
    and run_cost_handler_view: "fst (run_cost_handler A w c i) = fst (run_cost_handler A w2 c i)"
proof -
  show "coverage_handler A w c s = coverage_handler A w2 c s"
    by (simp add: coverage_handler_def coverage_view [OF assms])
  show "balance_handler A w c i = balance_handler A w2 c i"
    by (simp add: balance_handler_def load_def event_count_def by_aggregate_id_view [OF assms])
  show "run_handler A w c i = run_handler A w2 c i"
    by (simp add: run_handler_def find_run_view [OF assms])
  show *: "cost_checks A w c i = cost_checks A w2 c i"
    by (simp add: cost_checks_def find_run_view [OF assms])
  show "fst (run_cost_handler A w c i) = fst (run_cost_handler A w2 c i)"
    using refresh_view [OF assms, of "app_decimal A" "app_codec A" "app_sum A" "app_session A 1" "RunId i"]
    by (auto simp: run_cost_handler_def * split: res.split prod.split)
qed

lemma run_cost_handler_others:
  "t' \<noteq> ctx_tenant_id c \<Longrightarrow> same_view t' (snd (run_cost_handler A w c i)) w"
  using refresh_others [of t' "ctx_tenant_id c" "app_decimal A" "app_codec A" "app_sum A" "app_session A 1"
      "tb_research w" "RunId i"]
  by (auto simp: run_cost_handler_def same_view_def split: res.split prod.split)

lemma without_scope:
  assumes "\<not> has_scope c Read"
  shows "coverage_handler A w c s = Err (Forbidden Read)" "balance_handler A w c i = Err (Forbidden Read)"
    "run_handler A w c i = Err (Forbidden Read)" "run_cost_handler A w c i = (Err (Forbidden Read), w)"
  using assms by (simp_all add: coverage_handler_def balance_handler_def run_handler_def run_cost_handler_def
      cost_checks_def require_scope_def)

lemma serve_dispatch:
  "match_get H (map fst route_table) q = Some path \<Longrightarrow> map_of route_table path = Some h \<Longrightarrow>
   serve H A w q = dispatch H A w h q"
  by (simp add: serve_def)

text \<open>An answer to a caller whose path or query was accepted, and one whose was refused.\<close>

lemma dispatch_caller:
  assumes "caller H A q = Some c"
  shows "dispatch H A w HealthHandler q = (Some \<lparr>resp_status = 200, resp_body = TextBody health\<rparr>, w)"
    "path_uuid H q = Ok i \<Longrightarrow> dispatch H A w RunHandler q = (answer RunBody (run_handler A w c i), w)"
    "path_uuid H q = Ok i \<Longrightarrow> dispatch H A w RunCostHandler q =
       (answer RunCostBody (fst (run_cost_handler A w c i)), snd (run_cost_handler A w c i))"
    "query_since H q = Ok s \<Longrightarrow> dispatch H A w CoverageHandler q = (answer CoverageBody (coverage_handler A w c s), w)"
    "path_uuid H q = Ok i \<Longrightarrow> dispatch H A w BalanceHandler q = (answer BalanceBody (balance_handler A w c i), w)"
  by (simp_all add: dispatch_def context_caller assms extracted_def run_with_def prod.case_eq_if)

lemma dispatch_refused:
  assumes "caller H A q = Some c"
  shows "path_uuid H q = Err e \<Longrightarrow> h \<in> {RunHandler, RunCostHandler, BalanceHandler} \<Longrightarrow>
      dispatch H A w h q = (Some \<lparr>resp_status = fst e, resp_body = TextBody (snd e)\<rparr>, w)"
    "path_uuid H q = Panic \<Longrightarrow> h \<in> {RunHandler, RunCostHandler, BalanceHandler} \<Longrightarrow> dispatch H A w h q = (None, w)"
    "query_since H q = Err e \<Longrightarrow> dispatch H A w CoverageHandler q = (Some \<lparr>resp_status = fst e, resp_body = TextBody (snd e)\<rparr>, w)"
    "query_since H q = Panic \<Longrightarrow> dispatch H A w CoverageHandler q = (None, w)"
  by (auto simp: dispatch_def context_caller assms extracted_def run_with_def prod.case_eq_if)

lemmas dispatched = dispatch_caller dispatch_refused

end
