(* ===== verification/Api_Properties.thy ===== *)
theory Api_Properties
  imports Api_Proofs Research_Properties Ledger_Store_Properties
begin

text \<open>
  The properties of \<open>crates/api\<close>: who a request is answered for, what it can read and change,
  and that the answers are those of the stores.
\<close>

section \<open>An example\<close>

text \<open>A request is the token it sends and the matched route; its path names the run 20.\<close>

definition demo_http :: "(string \<times> string) http_ops" where
  "demo_http = \<lparr>header_get = (\<lambda>q name. if name = ''authorization'' then Some (''Bearer '' @ fst q) else None),
     header_to_str = Some, path_uuid = (\<lambda>q. Ok 20), query_since = (\<lambda>q. Ok None),
     match_get = (\<lambda>templates q. find (\<lambda>r. r = snd q) templates), fallback = (\<lambda>q. (404, ''''))\<rparr>"

definition demo_tokens :: static_token_resolver where
  "demo_tokens = with_token ''reader'' (TenantId 1) [Read] (with_token ''poster'' (TenantId 2) [Post] static_resolver_new)"

definition demo_app :: "(refdec plain_aggregate, refdec) app_state" where
  "demo_app = \<lparr>app_tenants = resolve_token demo_tokens, app_decimal = ref_ops, app_codec = plain_codec,
     app_sum = ref_sum, app_serde = \<lparr>event_to_value = (\<lambda>e. Err ''''), event_from_value = (\<lambda>v. Err '''')\<rparr>,
     app_esrs = plain_esrs, app_session = (\<lambda>n. good_session), app_now = 0\<rparr>"

definition demo_tables :: "refdec tables" where
  "demo_tables = \<lparr>tb_research = demo_db [demo_run_row ''running'' None ''PENDING_REVIEW''], tb_ledger = []\<rparr>"

lemma demo_caller:
  "caller demo_http demo_app (''reader'', p) = Some \<lparr>ctx_tenant_id = TenantId 1, ctx_scopes = [Read]\<rparr>"
  "caller demo_http demo_app (''poster'', p) = Some \<lparr>ctx_tenant_id = TenantId 2, ctx_scopes = [Post]\<rparr>"
proof -
  have t: "trim ''reader'' = ''reader''" "trim ''poster'' = ''poster''" by code_simp+
  have "strip_prefix ''Bearer '' (''Bearer '' @ x) = Some x" for x by (rule strip_prefix_append)
  then show "caller demo_http demo_app (''reader'', p) = Some \<lparr>ctx_tenant_id = TenantId 1, ctx_scopes = [Read]\<rparr>"
    "caller demo_http demo_app (''poster'', p) = Some \<lparr>ctx_tenant_id = TenantId 2, ctx_scopes = [Post]\<rparr>"
    by (simp_all add: caller_def bearer_token_def demo_http_def t demo_app_def demo_tokens_def
        resolve_token_map_of with_token_def static_resolver_new_def del: append.simps)
qed

section \<open>Authority\<close>

text \<open>
  C31: without a credential that resolves to a caller with the read scope, every endpoint but
  the health check leaves the tables as they are and answers the same whatever they hold:
  401 without a caller, and otherwise 403 or the text with which \<open>axum\<close> refuses the path or
  the query.
\<close>

theorem unauthorized_learns_nothing:
  assumes "match_get H (map fst route_table) q = Some path" "map_of route_table path = Some h" "h \<noteq> HealthHandler"
    "\<nexists>c. caller H A q = Some c \<and> has_scope c Read" "path_uuid H q \<noteq> Panic" "query_since H q \<noteq> Panic"
  shows "snd (serve H A w q) = w \<and> fst (serve H A w q) = fst (serve H A w2 q) \<and>
    (\<exists>r. fst (serve H A w q) = Some r \<and>
      (if caller H A q = None then r = into_response Unauthenticated
       else r = into_response (Forbidden Read) \<or> (\<exists>s text. r = \<lparr>resp_status = s, resp_body = TextBody text\<rparr>)))"
proof (cases "caller H A q")
  case None
  with assms(3) show ?thesis
    by (cases h) (simp_all add: serve_dispatch [OF assms(1,2)] dispatch_def context_caller extracted_def run_with_def)
next
  case (Some c)
  then have n: "\<not> has_scope c Read" using assms(4) by simp
  show ?thesis
    by (cases h; cases "path_uuid H q"; cases "query_since H q")
      (use assms(3,5,6) Some in \<open>simp_all add: serve_dispatch [OF assms(1,2)] dispatch_def context_caller extracted_def
        run_with_def without_scope [OF n] answer_def split: prod.splits\<close>)
qed

theorem unauthorized_learns_nothing_witness:
  "snd (serve demo_http demo_app demo_tables (''poster'', ''/v1/runs/{run_id}'')) = demo_tables"
proof -
  have m: "match_get demo_http (map fst route_table) (''poster'', ''/v1/runs/{run_id}'') = Some ''/v1/runs/{run_id}''"
    "map_of route_table ''/v1/runs/{run_id}'' = Some RunHandler" "RunHandler \<noteq> HealthHandler"
    by (simp_all add: demo_http_def route_table_def)
  have c: "\<nexists>c. caller demo_http demo_app (''poster'', ''/v1/runs/{run_id}'') = Some c \<and> has_scope c Read"
    by (simp add: demo_caller has_scope_def)
  have p: "path_uuid demo_http x \<noteq> Panic" "query_since demo_http x \<noteq> Panic" for x by (simp_all add: demo_http_def)
  show ?thesis by (rule conjunct1 [OF unauthorized_learns_nothing [OF m c p]])
qed

text \<open>
  C29: a request is answered from the rows of the tenant its credential resolves to, and from
  no others: tables that agree on them give the same answer. What it changes, no other
  tenant can see.
\<close>

theorem answers_from_own_rows:
  assumes "caller H A q = Some c" "same_view (ctx_tenant_id c) w w2"
  shows "fst (serve H A w q) = fst (serve H A w2 q) \<and>
    (\<forall>t'. t' \<noteq> ctx_tenant_id c \<longrightarrow> same_view t' (snd (serve H A w q)) w)"
proof (cases "Option.bind (match_get H (map fst route_table) q) (map_of route_table)")
  case None
  then show ?thesis by (simp add: serve_def split: prod.split)
next
  case (Some h)
  then have s: "serve H A x q = dispatch H A x h q" for x by (simp add: serve_def)
  have "path_uuid H q = Panic \<or> (\<exists>i. path_uuid H q = Ok i) \<or> (\<exists>e. path_uuid H q = Err e)"
    "query_since H q = Panic \<or> (\<exists>x. query_since H q = Ok x) \<or> (\<exists>e. query_since H q = Err e)"
    by (metis res.exhaust)+
  then show ?thesis
    by (cases h) (auto simp: s dispatched [OF assms(1)] handler_views [OF assms(2)] run_cost_handler_others)
qed

theorem answers_from_own_rows_witness:
  "fst (serve demo_http demo_app demo_tables (''reader'', ''/v1/ledger/{aggregate_id}/balance'')) =
   fst (serve demo_http demo_app (demo_tables\<lparr>tb_ledger := [\<lparr>lrow_id = 1, lrow_aggregate_id = 3, lrow_tenant_id = 9,
     lrow_payload = JNull, lrow_occurred_on = 0, lrow_sequence_number = 1, lrow_version = None\<rparr>]\<rparr>) (''reader'', ''/v1/ledger/{aggregate_id}/balance''))"
proof -
  have "same_view (TenantId 1) demo_tables (demo_tables\<lparr>tb_ledger := [\<lparr>lrow_id = 1, lrow_aggregate_id = 3,
      lrow_tenant_id = 9, lrow_payload = JNull, lrow_occurred_on = 0, lrow_sequence_number = 1, lrow_version = None\<rparr>]\<rparr>)"
    by (simp add: same_view_def demo_tables_def ledger_visible_def)
  with answers_from_own_rows [OF demo_caller(1)] show ?thesis by simp
qed

section \<open>Answers\<close>

text \<open>
  C32: the cost endpoint answers a caller with the read scope, for a run of the caller's
  tenant, with status 200 and the printed exact sum of the effective costs of that tenant's
  cost events that carry the run, in the run's currency.
\<close>

theorem run_cost_answer_exact:
  assumes "decimal_laws (app_decimal A) val" "sum_exact val (app_sum A)" "\<forall>n. healthy (app_session A n)"
    "runs_ok (tb_research w)" "match_get H (map fst route_table) q = Some ''/v1/runs/{run_id}/cost''"
    "caller H A q = Some c" "has_scope c Read" "path_uuid H q = Ok (rrow_id old)"
    "old \<in> set (db_runs (tb_research w))" "rrow_tenant_id old = tenant_as_uuid (ctx_tenant_id c)" "decode_run old = Ok run"
    "app_sum A (run_costs (ctx_tenant_id c) (tb_research w) (rrow_id old) (rrow_currency old)) = Ok tot"
    "pg_numeric (app_codec A) (case tot of None \<Rightarrow> dec_zero (app_decimal A) | Some d \<Rightarrow> d) = Some n"
  shows "\<exists>a ccy. fst (serve H A w q) = Some \<lparr>resp_status = 200, resp_body = RunCostBody \<lparr>rc_run_id = rrow_id old,
      rc_attributed_cost = dec_to_string (app_decimal A) a, rc_currency = currency_code ccy\<rparr>\<rparr> \<and>
    currency_from_code (rrow_currency old) = Some ccy \<and>
    val a = (\<Sum>e\<leftarrow>filter (\<lambda>e. row_tenant_id e = tenant_as_uuid (ctx_tenant_id c) \<and>
      row_run_id e = Some (rrow_id old) \<and> row_currency e = rrow_currency old) (db_costs (tb_research w)).
      val (row_effective_cost e))"
proof -
  let ?t = "ctx_tenant_id c"
  have f: "find (\<lambda>r. rrow_id r = rrow_id old) (visible_runs ?t (tb_research w)) = Some old"
    by (rule find_id [OF assms(4,9,10)])
  obtain ccy where ccy: "currency_from_code (rrow_currency old) = Some ccy"
    using assms(11) by (auto simp: decode_run_def)
  have "find_run (app_codec A) (app_session A 0) (tb_research w) ?t (RunId (rrow_id old)) = Ok (Some run)"
    using assms(3,11) f by (simp add: find_run_def select_run_def Let_def) (simp add: healthy_def)
  then have cc: "cost_checks A w c (rrow_id old) = Ok ()"
    using assms(7) by (simp add: cost_checks_def require_scope_def)
  let ?a = "case tot of None \<Rightarrow> dec_zero (app_decimal A) | Some d \<Rightarrow> d"
  note refresh_healthy [where pgsum = "app_sum A" and P = "app_codec A" and D = "app_decimal A",
      OF assms(3) [rule_format, of 1] f ccy assms(12,13)]
  then have "fst (run_cost_handler A w c (rrow_id old)) = Ok \<lparr>rc_run_id = rrow_id old,
      rc_attributed_cost = dec_to_string (app_decimal A) ?a, rc_currency = currency_code ccy\<rparr>"
    by (simp add: run_cost_handler_def cc money_new_def del: One_nat_def)
  moreover have "map_of route_table ''/v1/runs/{run_id}/cost'' = Some RunCostHandler" by (simp add: route_table_def)
  ultimately have "fst (serve H A w q) = Some \<lparr>resp_status = 200, resp_body = RunCostBody \<lparr>rc_run_id = rrow_id old,
      rc_attributed_cost = dec_to_string (app_decimal A) ?a, rc_currency = currency_code ccy\<rparr>\<rparr>"
    by (simp add: serve_dispatch [OF assms(5)] dispatch_caller(3) [OF assms(6,8)] answer_def)
  then show ?thesis
    using ccy summed_value [OF assms(1,2,12)] by blast
qed

lemma demo_decoded:
  "\<exists>run. decode_run (demo_run_row ''running'' None ''PENDING_REVIEW'') = Ok run"
proof -
  have "tracker_from_stored ''wandb'' = Some Wandb" "run_status_from_stored ''running'' = Some Running"
    "function_code_from_stored ''RND'' = Some RnD" "capitalization_from_stored ''PENDING_REVIEW'' = Some PendingReview"
    "currency_from_code ''USD'' = Some Usd" by code_simp+
  then show ?thesis by (simp add: decode_run_def demo_run_row_def)
qed

theorem run_cost_answer_exact_witness:
  "\<exists>a. fst (serve demo_http demo_app demo_tables (''reader'', ''/v1/runs/{run_id}/cost'')) =
    Some \<lparr>resp_status = 200, resp_body = RunCostBody \<lparr>rc_run_id = 20,
      rc_attributed_cost = dec_to_string (app_decimal demo_app) a, rc_currency = ''USD''\<rparr>\<rparr> \<and> ref_val a = 3 / 2"
proof -
  let ?old = "demo_run_row ''running'' None ''PENDING_REVIEW''" and ?q = "(''reader'', ''/v1/runs/{run_id}/cost'')"
  let ?c = "\<lparr>ctx_tenant_id = TenantId 1, ctx_scopes = [Read]\<rparr>"
  have f: "row_tenant_id (demo_row_of j h x) = 1" "row_run_id (demo_row_of j h x) = None"
      "row_currency (demo_row_of j h x) = ''USD''" "row_effective_cost (demo_row_of j h x) = Dec x 2" for j h x
    by (simp_all add: demo_row_of_def bind_row_def Let_def plain_codec_def demo_event_def dimensions_new_def
        event_currency_def money_new_def)
  have e: "decimal_laws (app_decimal demo_app) ref_val" "sum_exact ref_val (app_sum demo_app)"
    "\<forall>n. healthy (app_session demo_app n)" "runs_ok (tb_research demo_tables)"
    by (simp_all add: demo_app_def ref_laws ref_sum_exact demo_tables_def demo_runs_ok)
  have q: "match_get demo_http (map fst route_table) ?q = Some ''/v1/runs/{run_id}/cost''" "has_scope ?c Read"
      "path_uuid demo_http ?q = Ok (rrow_id ?old)" "?old \<in> set (db_runs (tb_research demo_tables))"
      "rrow_tenant_id ?old = tenant_as_uuid (ctx_tenant_id ?c)"
    by (simp_all add: demo_http_def route_table_def has_scope_def demo_tables_def demo_db_def demo_run_row_def)
  obtain run where d: "decode_run ?old = Ok run" using demo_decoded ..
  have "\<exists>tot. app_sum demo_app (run_costs (ctx_tenant_id ?c) (tb_research demo_tables) (rrow_id ?old) (rrow_currency ?old)) = Ok tot"
    by (simp add: ref_sum_def demo_app_def)
  then obtain tot where t: "app_sum demo_app (run_costs (ctx_tenant_id ?c) (tb_research demo_tables) (rrow_id ?old)
      (rrow_currency ?old)) = Ok tot" ..
  have n: "pg_numeric (app_codec demo_app) x = Some x" for x by (simp add: demo_app_def plain_codec_def)
  have u: "currency_from_code (rrow_currency ?old) = Some Usd" "rrow_id ?old = 20" "rrow_currency ?old = ''USD''"
    using ccode.round_trip [of Usd] by (simp_all add: demo_run_row_def)
  have c: "(\<Sum>e\<leftarrow>filter (\<lambda>e. row_tenant_id e = tenant_as_uuid (ctx_tenant_id ?c) \<and> row_run_id e = Some 20 \<and>
      row_currency e = ''USD'') (db_costs (tb_research demo_tables)). ref_val (row_effective_cost e)) = 3 / 2"
    by (simp add: demo_tables_def demo_db_def f ref_val_def)
  have r: "currency_from_code ''USD'' = Some Usd" using ccode.round_trip [of Usd] by simp
  from run_cost_answer_exact [OF e q(1) demo_caller(1) q(2-5) d t n] show ?thesis
    unfolding u(2,3) c by (auto simp: r)
qed

text \<open>
  The balance endpoint answers with the projection of the caller's own stream: the fold of
  its events in order, their number, and the trial balance of the USD balances.
\<close>

lemma balance_answer_is_replay:
  assumes "esrs_laws (app_esrs A) seq" "\<forall>n. healthy (app_session A n)" "streams_ok (tb_ledger w)"
    "match_get H (map fst route_table) q = Some ''/v1/ledger/{aggregate_id}/balance''"
    "caller H A q = Some c" "has_scope c Read" "path_uuid H q = Ok i"
    "list_all2 (\<lambda>r e. decode_ledger_row (app_serde A) r = Ok e)
       (filter (\<lambda>r. lrow_aggregate_id r = i) (ledger_visible (ctx_tenant_id c) (tb_ledger w))) events"
    "replay (app_decimal A) (map se_payload events) = (Ok s :: (ledger_store_error, _) res)"
    "trial_balance (app_decimal A) s Usd = (Ok t :: (api_error, _) res)"
  shows "serve H A w q = (Some \<lparr>resp_status = 200, resp_body = BalanceBody \<lparr>bv_aggregate_id = i,
    bv_entry_count = entry_count s, bv_event_count = length events,
    bv_accounts = map (\<lambda>(a, m). \<lparr>ab_account = account_as_uuid a, ab_balance = dec_to_string (app_decimal A) (amount m),
      ab_currency = currency_code (currency m)\<rparr>) (accounts s),
    bv_trial_balance = dec_to_string (app_decimal A) (amount t)\<rparr>\<rparr>, w)"
proof -
  let ?self = "ledger_for_tenant (ctx_tenant_id c)"
  have st: "store_tenant_id ?self = ctx_tenant_id c" by (simp add: ledger_for_tenant_def ledger_store_new_def)
  have "list_all2 (\<lambda>r e. decode_ledger_row (app_serde A) r = Ok e)
      (if owned (store_tenant_id ?self) i (tb_ledger w) then stream i (tb_ledger w) else []) events"
    using assms(8) unfolding st visible_stream [OF assms(3)] .
  then have ev: "by_aggregate_id (app_codec A) (app_serde A) (app_session A n) (tb_ledger w) ?self i = Ok events" for n
    using assms(2) by (intro by_aggregate_id_healthy [OF assms(3)]) simp_all
  have "fold_events (apply_event (app_decimal A)) events ledger_default = (Ok s :: (ledger_store_error, _) res)"
    using assms(9) by (simp add: fold_events_def replay_def replay_from_def res_fold_map)
  then obtain g where g: "agg_apply (app_esrs A) (agg_with_id (app_esrs A) i) events (apply_event (app_decimal A)) = Ok g"
      "agg_inner (app_esrs A) g = s"
    using esrs_laws.apply_ok [OF assms(1), of "apply_event (app_decimal A)" events "agg_with_id (app_esrs A) i" s]
    by (auto simp: esrs_laws.with_id [OF assms(1)])
  have "balance_handler A w c i = Ok \<lparr>bv_aggregate_id = i, bv_entry_count = entry_count s,
      bv_event_count = length events, bv_accounts = map (\<lambda>(a, m). \<lparr>ab_account = account_as_uuid a,
        ab_balance = dec_to_string (app_decimal A) (amount m), ab_currency = currency_code (currency m)\<rparr>) (accounts s),
      bv_trial_balance = dec_to_string (app_decimal A) (amount t)\<rparr>"
    using assms(6,10) by (simp add: balance_handler_def require_scope_def load_def event_count_def ev g Let_def)
  moreover have "map_of route_table ''/v1/ledger/{aggregate_id}/balance'' = Some BalanceHandler" by (simp add: route_table_def)
  ultimately show ?thesis
    by (simp add: serve_dispatch [OF assms(4)] dispatch_caller(5) [OF assms(5,7)] answer_def)
qed

text \<open>A ledger without USD balances is always shown with a zero trial balance.\<close>

lemma trial_balance_of_other_currencies:
  "\<forall>(a, m)\<in>set (accounts s). currency m \<noteq> Usd \<Longrightarrow> trial_balance D s Usd = Ok (money_zero D Usd)"
proof -
  assume "\<forall>(a, m)\<in>set (accounts s). currency m \<noteq> Usd"
  then have "filter (\<lambda>m. currency m = Usd) (bt_values (balances s)) = []"
    by (auto simp: accounts_def bt_values_def filter_empty_conv)
  then show ?thesis by (simp add: trial_balance_def)
qed

end
