(* ===== verification/Bootstrap.thy ===== *)
theory Bootstrap
  imports Api_Proofs
begin

text \<open>
  \<open>crates/api/src/main.rs\<close>: the start of the server. The environment is a function from
  names to values; the pool, the stores built on it and the listener are arguments. Of an
  \<open>anyhow\<close> error the outermost context is kept, and logging is left out.
\<close>

definition eq_ignore_ascii_case :: "string \<Rightarrow> string \<Rightarrow> bool" where
  "eq_ignore_ascii_case a b \<longleftrightarrow> to_ascii_lowercase a = to_ascii_lowercase b"

definition pooler_configured :: "(string \<Rightarrow> string option) \<Rightarrow> bool" where
  "pooler_configured env =
     (case env ''DATABASE_TRANSACTION_POOLER'' of
        Some v \<Rightarrow> v = ''1'' \<or> eq_ignore_ascii_case v ''true''
      | None \<Rightarrow> False)"

definition server_main ::
  "('o, 'p) sqlx_ops \<Rightarrow> (string \<Rightarrow> uuid option) \<Rightarrow> ('p \<Rightarrow> ('g, 'd) app_state) \<Rightarrow> (string \<Rightarrow> (string, 'l) res) \<Rightarrow>
   ('l \<Rightarrow> ('g, 'd) app_state \<Rightarrow> (string, unit) res) \<Rightarrow> (string \<Rightarrow> string option) \<Rightarrow> (string, unit) res" where
  "server_main X parse_uuid stores bind_listener axum_serve env =
     res_bind (ok_or (env ''DATABASE_URL'') ''DATABASE_URL must be set'') (\<lambda>database_url.
     res_bind (res_map_err (\<lambda>_. ''connecting to Postgres'')
       (connect_with X database_url \<lparr>max_connections = 16, behind_transaction_pooler = pooler_configured env\<rparr>)) (\<lambda>pool.
     res_bind (res_map_err (\<lambda>_. ''running migrations'') (migrate X pool)) (\<lambda>_.
     res_bind (configured_tenants parse_uuid (env ''FALKR_DEV_TOKEN'') (env ''FALKR_DEV_TENANT_ID'')) (\<lambda>tenants.
     let state = (stores pool)\<lparr>app_tenants := resolve_token tenants\<rparr>;
         addr = (case env ''FALKR_BIND'' of Some a \<Rightarrow> a | None \<Rightarrow> ''0.0.0.0:8080'') in
     res_bind (res_map_err (\<lambda>_. ''binding '' @ addr) (bind_listener addr)) (\<lambda>listener.
     res_map_err (\<lambda>_. ''server error'') (axum_serve listener state))))))"

text \<open>
  Every state the server is started with answers callers only with the development tenant:
  without a development token nobody is a caller, and with one the caller has its tenant and
  the three scopes.
\<close>

lemma served_callers:
  assumes "configured_tenants parse_uuid (env ''FALKR_DEV_TOKEN'') (env ''FALKR_DEV_TENANT_ID'') = Ok tenants"
    "caller H (A\<lparr>app_tenants := resolve_token tenants\<rparr>) q = Some c"
  shows "\<exists>token v u. env ''FALKR_DEV_TOKEN'' = Some token \<and> bearer_token H q = Some token \<and>
    env ''FALKR_DEV_TENANT_ID'' = Some v \<and> parse_uuid v = Some u \<and>
    c = \<lparr>ctx_tenant_id = TenantId u, ctx_scopes = [Read, Ingest, Post]\<rparr>"
proof (cases "env ''FALKR_DEV_TOKEN''")
  case None
  with assms show ?thesis
    using unconfigured_fails_closed by (auto simp: caller_def split: bind_splits)
next
  case (Some token)
  with assms(1) obtain v u where v: "env ''FALKR_DEV_TENANT_ID'' = Some v" "parse_uuid v = Some u"
      "tenants = with_token token (TenantId u) [Read, Ingest, Post] static_resolver_new"
    by (auto simp: configured_tenants_def split: bind_splits)
  from assms(2) obtain t where t: "bearer_token H q = Some t" "resolve_token tenants t = Some c"
    by (auto simp: caller_def split: bind_splits)
  from t(2) have "t = token \<and> c = \<lparr>ctx_tenant_id = TenantId u, ctx_scopes = [Read, Ingest, Post]\<rparr>"
    by (simp add: v(3) resolve_with_token resolve_token_map_of [of static_resolver_new]) (simp add: static_resolver_new_def split: if_splits)
  with Some v(1,2) t(1) show ?thesis by blast
qed

text \<open>The server is only served after the schema has been migrated.\<close>

lemma served_after_migrating:
  assumes "server_main X parse_uuid stores bind_listener axum_serve env = Ok ()"
  shows "\<exists>url pool. env ''DATABASE_URL'' = Some url \<and>
    connect_with X url \<lparr>max_connections = 16, behind_transaction_pooler = pooler_configured env\<rparr> = Ok pool \<and>
    run_migrations X pool = Ok ()"
  using assms by (auto simp: server_main_def migrate_def)

end
