(* ===== verification/Schema.thy ===== *)
theory Schema
  imports Research_Store Ledger_Store
begin

text \<open>
  \<open>migrations/\<close>: what each migration declares of a table, as data (keys, unique indexes,
  \<open>CHECK\<close>s, foreign keys, row-level security policies under \<open>FORCE\<close>, mutation triggers), and
  what SQL's inserts, updates and deletes mean under such declarations. A session is any client
  of a role that does not bypass row security; it runs transactions of these statements under
  the setting \<open>falkr.tenant_id\<close>. \<open>TRUNCATE\<close> and DDL, which only a table's owner may run, are
  outside the model. How text is read as a UUID is an argument.
\<close>

section \<open>Tables\<close>

text \<open>
  A table is known by its columns' roles: the identifier, the tenant, the unique index, the
  constraints a row must satisfy by itself (its foreign keys included), and the identifiers
  other tables refer to; by the two expressions of its policy, on the session's tenant and a
  row; and by what its row triggers raise.
\<close>

record ('r, 'k) table_schema =
  tab_id :: "'r \<Rightarrow> uuid"
  tab_tenant :: "'r \<Rightarrow> uuid"
  tab_unique :: "'r \<Rightarrow> 'k"
  tab_check :: "'r \<Rightarrow> bool"
  tab_referenced :: "uuid \<Rightarrow> bool"
  tab_using :: "uuid option \<Rightarrow> 'r \<Rightarrow> bool"
  tab_with_check :: "uuid option \<Rightarrow> 'r \<Rightarrow> bool"
  tab_before_update :: "sql_error option"
  tab_before_delete :: "sql_error option"

text \<open>\<open>NULLIF(current_setting('falkr.tenant_id', TRUE), '')::UUID\<close>.\<close>

definition policy_tenant :: "(string \<Rightarrow> uuid option) \<Rightarrow> string option \<Rightarrow> (sql_error, uuid option) res" where
  "policy_tenant parse setting =
     (case setting of
        None \<Rightarrow> Ok None
      | Some v \<Rightarrow>
          if v = '''' then Ok None
          else res_map Some (ok_or (parse v) (OtherSql ''invalid input syntax for type uuid'')))"

text \<open>\<open>tenant_id = \<dots>\<close>: without a setting the comparison is NULL, which is not true.\<close>

definition tenant_isolation :: "('r \<Rightarrow> uuid) \<Rightarrow> uuid option \<Rightarrow> 'r \<Rightarrow> bool" where
  "tenant_isolation tenant s r \<longleftrightarrow> s = Some (tenant r)"

text \<open>\<open>ledger_events_reject_mutation\<close>, raised with the operation's name.\<close>

definition reject_mutation :: "string \<Rightarrow> sql_error" where
  "reject_mutation op = OtherSql (''ledger_events is append-only; '' @ op @
     '' is not permitted. Post a reversing entry instead.'')"

definition cost_events_schema :: "('d cost_row, uuid \<times> string \<times> string) table_schema" where
  "cost_events_schema = \<lparr>tab_id = row_id, tab_tenant = row_tenant_id, tab_unique = row_key, tab_check = row_checks,
     tab_referenced = (\<lambda>_. False), tab_using = tenant_isolation row_tenant_id,
     tab_with_check = tenant_isolation row_tenant_id, tab_before_update = None, tab_before_delete = None\<rparr>"

definition experiments_schema :: "'d research_db \<Rightarrow> (experiment_row, uuid) table_schema" where
  "experiments_schema db = \<lparr>tab_id = xrow_id, tab_tenant = xrow_tenant_id, tab_unique = xrow_id,
     tab_check = (\<lambda>_. True), tab_referenced = (\<lambda>i. list_ex (\<lambda>r. rrow_experiment_id r = i) (db_runs db)),
     tab_using = tenant_isolation xrow_tenant_id, tab_with_check = tenant_isolation xrow_tenant_id,
     tab_before_update = None, tab_before_delete = None\<rparr>"

record 'd checkpoint_row =
  crow_id :: uuid
  crow_tenant_id :: uuid
  crow_run_id :: uuid
  crow_storage_cost :: 'd
  crow_currency :: string
  crow_storage_uri :: string

definition runs_schema ::
  "experiment_row list \<Rightarrow> 'd checkpoint_row list \<Rightarrow> ('d run_row, uuid \<times> string \<times> string) table_schema" where
  "runs_schema xs cs = \<lparr>tab_id = rrow_id, tab_tenant = rrow_tenant_id, tab_unique = run_key,
     tab_check = (\<lambda>r. run_checks r \<and> list_ex (\<lambda>x. xrow_id x = rrow_experiment_id r) xs),
     tab_referenced = (\<lambda>i. list_ex (\<lambda>c. crow_run_id c = i) cs), tab_using = tenant_isolation rrow_tenant_id,
     tab_with_check = tenant_isolation rrow_tenant_id, tab_before_update = None, tab_before_delete = None\<rparr>"

definition checkpoints_schema :: "'d run_row list \<Rightarrow> ('d checkpoint_row, uuid) table_schema" where
  "checkpoints_schema rs = \<lparr>tab_id = crow_id, tab_tenant = crow_tenant_id, tab_unique = crow_id,
     tab_check = (\<lambda>c. iso4217_code (crow_currency c) \<and> list_ex (\<lambda>r. rrow_id r = crow_run_id c) rs),
     tab_referenced = (\<lambda>_. False), tab_using = tenant_isolation crow_tenant_id,
     tab_with_check = tenant_isolation crow_tenant_id, tab_before_update = None, tab_before_delete = None\<rparr>"

definition ledger_events_schema :: "(ledger_row, uuid \<times> int) table_schema" where
  "ledger_events_schema = \<lparr>tab_id = lrow_id, tab_tenant = lrow_tenant_id,
     tab_unique = (\<lambda>r. (lrow_aggregate_id r, lrow_sequence_number r)), tab_check = (\<lambda>r. 0 \<le> lrow_sequence_number r),
     tab_referenced = (\<lambda>_. False), tab_using = tenant_isolation lrow_tenant_id,
     tab_with_check = tenant_isolation lrow_tenant_id, tab_before_update = Some (reject_mutation ''UPDATE''),
     tab_before_delete = Some (reject_mutation ''DELETE'')\<rparr>"

section \<open>Statements\<close>

text \<open>
  What SQL's statements mean for a table so declared; these definitions are the semantics of
  the language and no part of the migrations.
\<close>

text \<open>Whether a row may join the others: the policy's \<open>WITH CHECK\<close>, then the constraints.\<close>

definition admit :: "('r, 'k) table_schema \<Rightarrow> uuid option \<Rightarrow> 'r list \<Rightarrow> 'r \<Rightarrow> (sql_error, unit) res" where
  "admit T s others r =
     (if \<not> tab_with_check T s r then Err (OtherSql ''new row violates row-level security policy'')
      else if \<not> tab_check T r then Err (OtherSql ''constraint violation'')
      else if list_ex (\<lambda>x. tab_id T x = tab_id T r \<or> tab_unique T x = tab_unique T r) others then Err UniqueViolation
      else Ok ())"

datatype 'r row_statement =
    InsertRow 'r
  | UpdateRows "'r \<Rightarrow> bool" "'r \<Rightarrow> 'r"
  | DeleteRows "'r \<Rightarrow> bool"

text \<open>Only rows the policy shows are updated or deleted; the row triggers fire for each of them.\<close>

fun update_rows ::
  "('r, 'k) table_schema \<Rightarrow> uuid option \<Rightarrow> ('r \<Rightarrow> bool) \<Rightarrow> ('r \<Rightarrow> 'r) \<Rightarrow> 'r list \<Rightarrow> 'r list \<Rightarrow> (sql_error, 'r list) res" where
  "update_rows T s p f before [] = Ok before"
| "update_rows T s p f before (x # rest) =
     (if tab_using T s x \<and> p x
      then (case tab_before_update T of
              Some e \<Rightarrow> Err e
            | None \<Rightarrow>
                if tab_referenced T (tab_id T x) \<and> tab_id T (f x) \<noteq> tab_id T x then Err (OtherSql ''foreign key violation'')
                else res_bind (admit T s (before @ rest) (f x)) (\<lambda>_. update_rows T s p f (before @ [f x]) rest))
      else update_rows T s p f (before @ [x]) rest)"

fun exec_statement ::
  "('r, 'k) table_schema \<Rightarrow> uuid option \<Rightarrow> 'r row_statement \<Rightarrow> 'r list \<Rightarrow> (sql_error, 'r list) res" where
  "exec_statement T s (InsertRow r) tbl = res_bind (admit T s tbl r) (\<lambda>_. Ok (tbl @ [r]))"
| "exec_statement T s (UpdateRows p f) tbl = update_rows T s p f [] tbl"
| "exec_statement T s (DeleteRows p) tbl =
     (if tab_before_delete T \<noteq> None \<and> list_ex (\<lambda>x. tab_using T s x \<and> p x) tbl then Err (the (tab_before_delete T))
      else if list_ex (\<lambda>x. tab_using T s x \<and> p x \<and> tab_referenced T (tab_id T x)) tbl
      then Err (OtherSql ''foreign key violation'')
      else Ok (filter (\<lambda>x. \<not> (tab_using T s x \<and> p x)) tbl))"

text \<open>A transaction whose statements fail leaves no trace.\<close>

definition run_transaction ::
  "('r, 'k) table_schema \<Rightarrow> (string \<Rightarrow> uuid option) \<Rightarrow> string option \<Rightarrow> 'r row_statement list \<Rightarrow> 'r list \<Rightarrow> 'r list" where
  "run_transaction T parse setting stmts tbl =
     (case res_bind (policy_tenant parse setting) (\<lambda>s. res_fold (exec_statement T s) stmts tbl) of
        Ok tbl' \<Rightarrow> tbl'
      | _ \<Rightarrow> tbl)"

text \<open>The tables a list of transactions leads to, one after the other, each with its setting.\<close>

inductive table_history ::
  "('r, 'k) table_schema \<Rightarrow> (string \<Rightarrow> uuid option) \<Rightarrow> 'r list \<Rightarrow> string option list \<Rightarrow> 'r list \<Rightarrow> bool"
  for T parse tbl where
  start: "table_history T parse tbl [] tbl"
| transaction: "table_history T parse tbl settings tbl' \<Longrightarrow>
    table_history T parse tbl (settings @ [setting]) (run_transaction T parse setting stmts tbl')"

section \<open>What the database keeps\<close>

definition schema_ok :: "('r, 'k) table_schema \<Rightarrow> 'r list \<Rightarrow> bool" where
  "schema_ok T tbl \<longleftrightarrow> distinct (map (tab_id T) tbl) \<and> distinct (map (tab_unique T) tbl) \<and> (\<forall>r\<in>set tbl. tab_check T r)"

definition rows_of :: "('r, 'k) table_schema \<Rightarrow> uuid \<Rightarrow> 'r list \<Rightarrow> 'r list" where
  "rows_of T t tbl = filter (\<lambda>r. tab_tenant T r = t) tbl"

definition isolated :: "('r, 'k) table_schema \<Rightarrow> bool" where
  "isolated T \<longleftrightarrow> tab_using T = tenant_isolation (tab_tenant T) \<and> tab_with_check T = tenant_isolation (tab_tenant T)"

definition append_only :: "('r, 'k) table_schema \<Rightarrow> bool" where
  "append_only T \<longleftrightarrow> tab_before_update T \<noteq> None \<and> tab_before_delete T \<noteq> None"

definition kept :: "('r, 'k) table_schema \<Rightarrow> uuid option \<Rightarrow> 'r list \<Rightarrow> 'r list \<Rightarrow> bool" where
  "kept T s tbl tbl' \<longleftrightarrow> schema_ok T tbl' \<and> (\<forall>t. s \<noteq> Some t \<longrightarrow> rows_of T t tbl' = rows_of T t tbl) \<and>
     (append_only T \<longrightarrow> (\<exists>rows. tbl' = tbl @ rows)) \<and>
     (\<forall>i. tab_referenced T i \<longrightarrow> i \<in> tab_id T ` set tbl \<longrightarrow> i \<in> tab_id T ` set tbl')"

lemma schema_ok_swap: "schema_ok T (xs @ y # ys) \<longleftrightarrow> schema_ok T (y # xs @ ys)"
  by (auto simp: schema_ok_def)

lemma admit_Ok:
  "isolated T \<Longrightarrow> admit T s others r = Ok u \<longleftrightarrow> s = Some (tab_tenant T r) \<and> tab_check T r \<and>
     (\<forall>x\<in>set others. tab_id T x \<noteq> tab_id T r \<and> tab_unique T x \<noteq> tab_unique T r)"
  by (auto simp: admit_def isolated_def tenant_isolation_def list_ex_iff)

lemma admitted: "isolated T \<Longrightarrow> admit T s others r = Ok u \<Longrightarrow> schema_ok T others \<Longrightarrow> schema_ok T (r # others)"
  by (auto simp: admit_Ok schema_ok_def)

lemma update_rows_kept:
  assumes "isolated T" "update_rows T s p f before tbl = Ok tbl'" "schema_ok T (before @ tbl)"
  shows "kept T s (before @ tbl) tbl'"
  using assms(2,3)
proof (induction tbl arbitrary: before)
  case (Cons x tbl)
  show ?case
  proof (cases "tab_using T s x \<and> p x")
    case True
    with Cons.prems(1) obtain u where a: "admit T s (before @ tbl) (f x) = Ok u"
        "update_rows T s p f (before @ [f x]) tbl = Ok tbl'" and n: "tab_before_update T = None"
      by (auto split: if_splits option.splits)
    have "schema_ok T (before @ tbl)" using Cons.prems(2) by (simp add: schema_ok_def)
    from admitted [OF assms(1) a(1) this] have "schema_ok T ((before @ [f x]) @ tbl)"
      by (simp add: schema_ok_swap [of T before])
    note IH = Cons.IH [OF a(2) this]
    have "tab_referenced T (tab_id T x) \<longrightarrow> tab_id T (f x) = tab_id T x" using Cons.prems(1) True n by (auto split: if_splits)
    with IH True a(1) n assms(1) show ?thesis
      by (auto simp: kept_def rows_of_def admit_Ok image_iff append_only_def isolated_def tenant_isolation_def)
  next
    case False
    then have "update_rows T s p f (before @ [x]) tbl = Ok tbl'" using Cons.prems(1) by auto
    from Cons.IH [OF this] Cons.prems(2) show ?thesis by simp
  qed
qed (simp add: kept_def)

lemma statement_kept:
  assumes "exec_statement T s stmt tbl = Ok tbl'" "schema_ok T tbl" "isolated T"
  shows "kept T s tbl tbl'"
proof (cases stmt)
  case (InsertRow r)
  with assms(1) obtain u where a: "admit T s tbl r = Ok u" "tbl' = tbl @ [r]" by auto
  have "schema_ok T (tbl @ [r])" using admitted [OF assms(3) a(1) assms(2)] by (simp add: schema_ok_swap [of T tbl])
  with a assms(3) show ?thesis by (auto simp: kept_def rows_of_def admit_Ok)
next
  case (UpdateRows p f)
  with update_rows_kept [OF assms(3), of s p f "[]" tbl tbl'] assms show ?thesis by simp
next
  case (DeleteRows p)
  with assms(1) have d: "tbl' = filter (\<lambda>x. \<not> (tab_using T s x \<and> p x)) tbl"
    "append_only T \<longrightarrow> (\<forall>x\<in>set tbl. \<not> (tab_using T s x \<and> p x))"
    "\<forall>x\<in>set tbl. tab_referenced T (tab_id T x) \<longrightarrow> \<not> (tab_using T s x \<and> p x)"
    by (auto simp: list_ex_iff append_only_def split: if_splits)
  have "schema_ok T tbl'" using assms(2) unfolding d(1) schema_ok_def by (auto intro: distinct_map_filter)
  moreover have "rows_of T t tbl' = rows_of T t tbl" if "s \<noteq> Some t" for t
    unfolding d(1) rows_of_def filter_filter by (rule filter_cong) (use that assms(3) in \<open>auto simp: isolated_def tenant_isolation_def\<close>)
  moreover have "append_only T \<longrightarrow> tbl' = tbl" unfolding d(1) using d(2) by (auto intro: filter_True)
  moreover have "i \<in> tab_id T ` set tbl'" if "tab_referenced T i" "i \<in> tab_id T ` set tbl" for i
    unfolding d(1) using that d(3) by auto
  ultimately show ?thesis by (auto simp: kept_def)
qed

lemma kept_refl: "schema_ok T tbl \<Longrightarrow> kept T s tbl tbl"
  by (simp add: kept_def)

lemma kept_trans: "kept T s a b \<Longrightarrow> kept T s b c \<Longrightarrow> kept T s a c"
  by (auto simp: kept_def)

lemma statements_kept:
  "res_fold (exec_statement T s) stmts tbl = Ok tbl' \<Longrightarrow> schema_ok T tbl \<Longrightarrow> isolated T \<Longrightarrow> kept T s tbl tbl'"
proof (induction stmts arbitrary: tbl)
  case (Cons stmt stmts)
  then obtain tbl1 where e: "exec_statement T s stmt tbl = Ok tbl1" "res_fold (exec_statement T s) stmts tbl1 = Ok tbl'"
    by auto
  from statement_kept [OF e(1) Cons.prems(2,3)] have k: "kept T s tbl tbl1" .
  then have "kept T s tbl1 tbl'" using Cons.IH [OF e(2) _ Cons.prems(3)] by (simp add: kept_def)
  with k show ?case by (rule kept_trans)
qed (simp add: kept_refl)

lemma transaction_kept:
  assumes "schema_ok T tbl" "isolated T"
  shows "\<exists>s. kept T s tbl (run_transaction T parse setting stmts tbl) \<and>
    (\<forall>t. s = Some t \<longrightarrow> policy_tenant parse setting = Ok (Some t))"
proof (cases "res_bind (policy_tenant parse setting) (\<lambda>s. res_fold (exec_statement T s) stmts tbl)")
  case (Ok tbl')
  then obtain s where "policy_tenant parse setting = Ok s" "res_fold (exec_statement T s) stmts tbl = Ok tbl'" by auto
  with statements_kept [OF this(2) assms] Ok show ?thesis
    by (intro exI [of _ s]) (simp add: run_transaction_def)
qed (use kept_refl [OF assms(1), of None] in \<open>auto simp: run_transaction_def intro!: exI [of _ None]\<close>)

end
