(* ===== verification/Schema_Properties.thy ===== *)
theory Schema_Properties
  imports Schema Cost_Store_Properties Ledger_Store_Properties Research_Properties
begin

text \<open>
  The database keeps its promises against any client, and the stores are such clients: each
  of their writes is a transaction of plain statements in the tenant's session.
\<close>

section \<open>Any client\<close>

lemma table_history_kept:
  assumes "isolated T" "schema_ok T tbl" "table_history T parse tbl settings tbl'"
  shows "schema_ok T tbl' \<and>
    (\<forall>t. (\<forall>s\<in>set settings. policy_tenant parse s \<noteq> Ok (Some t)) \<longrightarrow> rows_of T t tbl' = rows_of T t tbl) \<and>
    (append_only T \<longrightarrow> (\<exists>rows. tbl' = tbl @ rows)) \<and>
    (\<forall>i\<in>tab_id T ` set tbl. tab_referenced T i \<longrightarrow> i \<in> tab_id T ` set tbl')"
  using assms(3)
proof induction
  case start
  with assms(2) show ?case by simp
next
  case (transaction settings tbl1 setting stmts)
  then have ok: "schema_ok T tbl1" by blast
  obtain s where k: "kept T s tbl1 (run_transaction T parse setting stmts tbl1)"
    "\<forall>t. s = Some t \<longrightarrow> policy_tenant parse setting = Ok (Some t)"
    using transaction_kept [OF ok assms(1)] by blast
  have "rows_of T t (run_transaction T parse setting stmts tbl1) = rows_of T t tbl1"
    if "policy_tenant parse setting \<noteq> Ok (Some t)" for t using k that by (auto simp: kept_def)
  with transaction.IH k(1) show ?case by (auto simp: kept_def)
qed

lemma schemas_isolated [simp]:
  "isolated ledger_events_schema" "isolated cost_events_schema" "isolated (runs_schema xs cs)"
  "isolated (experiments_schema db)" "isolated (checkpoints_schema rs)"
  by (simp_all add: isolated_def ledger_events_schema_def cost_events_schema_def runs_schema_def experiments_schema_def
    checkpoints_schema_def)

text \<open>
  C21: under the declarations of \<open>ledger_events\<close> (its mutation triggers, its unique index, its
  \<open>CHECK\<close> and its policy), whatever transactions of inserts, updates and deletes sessions
  subject to row security run, in whatever order and under whatever settings, the log only
  grows: no row of it is changed or removed, every row added is of a tenant a session set,
  identifiers and (aggregate, sequence number) pairs stay unique and sequence numbers are
  never negative. (\<open>TRUNCATE\<close> and DDL, which fire no row trigger, are not such statements.)
\<close>

theorem ledger_log_append_only:
  assumes "table_history ledger_events_schema parse tbl settings tbl'"
    "distinct (map lrow_id tbl)" "distinct (map (\<lambda>r. (lrow_aggregate_id r, lrow_sequence_number r)) tbl)"
    "\<forall>r\<in>set tbl. 0 \<le> lrow_sequence_number r"
  shows "\<exists>rows. tbl' = tbl @ rows \<and>
    (\<forall>r\<in>set rows. \<exists>setting\<in>set settings. policy_tenant parse setting = Ok (Some (lrow_tenant_id r))) \<and>
    distinct (map lrow_id tbl') \<and> distinct (map (\<lambda>r. (lrow_aggregate_id r, lrow_sequence_number r)) tbl') \<and>
    (\<forall>r\<in>set tbl'. 0 \<le> lrow_sequence_number r)"
proof -
  have ok: "schema_ok ledger_events_schema tbl" using assms(2-4) by (simp add: schema_ok_def ledger_events_schema_def)
  note k = table_history_kept [OF schemas_isolated(1) ok assms(1)]
  obtain rows where rows: "tbl' = tbl @ rows" using k by (auto simp: append_only_def ledger_events_schema_def)
  have "\<exists>setting\<in>set settings. policy_tenant parse setting = Ok (Some (lrow_tenant_id r))" if "r \<in> set rows" for r
    using k that by (fastforce simp: rows rows_of_def filter_empty_conv ledger_events_schema_def)
  with k rows show ?thesis by (auto simp: schema_ok_def ledger_events_schema_def)
qed

definition demo_parse :: "string \<Rightarrow> uuid option" where
  "demo_parse v = (if v = ''u'' then Some 1 else if v = ''two'' then Some 2 else None)"

text \<open>A session without a setting that tries to empty the ledger, then one that appends to it.\<close>

lemma demo_history:
  "table_history ledger_events_schema demo_parse [bill_row] [None, Some ''two'']
     [bill_row, bill_row\<lparr>lrow_id := 200, lrow_aggregate_id := 8, lrow_tenant_id := 2\<rparr>]"
proof -
  have "table_history ledger_events_schema demo_parse [bill_row] ([] @ [None]) [bill_row]"
    using table_history.transaction [OF table_history.start, of ledger_events_schema demo_parse "[bill_row]" None "[DeleteRows (\<lambda>_. True)]"]
    by (simp add: run_transaction_def policy_tenant_def ledger_events_schema_def tenant_isolation_def)
  from table_history.transaction [OF this, of "Some ''two''"
      "[InsertRow (bill_row\<lparr>lrow_id := 200, lrow_aggregate_id := 8, lrow_tenant_id := 2\<rparr>)]"]
  show ?thesis
    by (simp add: run_transaction_def policy_tenant_def demo_parse_def admit_def tenant_isolation_def ledger_events_schema_def bill_row_def)
qed

theorem ledger_log_append_only_witness:
  "\<exists>rows. [bill_row, bill_row\<lparr>lrow_id := 200, lrow_aggregate_id := 8, lrow_tenant_id := 2\<rparr>] = [bill_row] @ rows \<and>
    (\<forall>r\<in>set rows. \<exists>setting\<in>set [None, Some ''two'']. policy_tenant demo_parse setting = Ok (Some (lrow_tenant_id r)))"
proof -
  have "distinct (map lrow_id [bill_row])"
    "distinct (map (\<lambda>r. (lrow_aggregate_id r, lrow_sequence_number r)) [bill_row])"
    "\<forall>r\<in>set [bill_row]. 0 \<le> lrow_sequence_number r" by (simp_all add: bill_row_def)
  from ledger_log_append_only [OF demo_history this] show ?thesis by blast
qed

text \<open>
  The spine's and the graph's tables under any client: keys and \<open>CHECK\<close>s hold, the rows of a
  tenant no session set are as they were, and a run a checkpoint refers to does not go.
\<close>

theorem cost_events_enforced:
  assumes "table_history cost_events_schema parse tbl settings tbl'"
    "distinct (map row_id tbl)" "distinct (map row_key tbl)" "\<forall>r\<in>set tbl. row_checks r"
  shows "distinct (map row_id tbl') \<and> distinct (map row_key tbl') \<and> (\<forall>r\<in>set tbl'. row_checks r) \<and>
    (\<forall>t. (\<forall>s\<in>set settings. policy_tenant parse s \<noteq> Ok (Some t)) \<longrightarrow>
       filter (\<lambda>r. row_tenant_id r = t) tbl' = filter (\<lambda>r. row_tenant_id r = t) tbl)"
  using table_history_kept [OF _ _ assms(1)] assms(2-4) by (simp add: schema_ok_def rows_of_def cost_events_schema_def isolated_def)

theorem runs_enforced:
  assumes "table_history (runs_schema xs cs) parse tbl settings tbl'"
    "distinct (map rrow_id tbl)" "distinct (map run_key tbl)"
    "\<forall>r\<in>set tbl. run_checks r \<and> (\<exists>x\<in>set xs. xrow_id x = rrow_experiment_id r)"
  shows "distinct (map rrow_id tbl') \<and> distinct (map run_key tbl') \<and>
    (\<forall>r\<in>set tbl'. run_checks r \<and> (\<exists>x\<in>set xs. xrow_id x = rrow_experiment_id r)) \<and>
    (\<forall>c\<in>set cs. (\<exists>r\<in>set tbl. rrow_id r = crow_run_id c) \<longrightarrow> (\<exists>r\<in>set tbl'. rrow_id r = crow_run_id c)) \<and>
    (\<forall>t. (\<forall>s\<in>set settings. policy_tenant parse s \<noteq> Ok (Some t)) \<longrightarrow>
       filter (\<lambda>r. rrow_tenant_id r = t) tbl' = filter (\<lambda>r. rrow_tenant_id r = t) tbl)"
proof -
  have ok: "schema_ok (runs_schema xs cs) tbl" using assms(2-4) by (auto simp: schema_ok_def runs_schema_def list_ex_iff)
  note k = table_history_kept [OF schemas_isolated(3) ok assms(1)]
  have "\<exists>r\<in>set tbl'. rrow_id r = crow_run_id c" if "c \<in> set cs" "\<exists>r\<in>set tbl. rrow_id r = crow_run_id c" for c
  proof -
    have "tab_referenced (runs_schema xs cs) (crow_run_id c)" using that(1) by (auto simp: runs_schema_def list_ex_iff)
    moreover have "crow_run_id c \<in> tab_id (runs_schema xs cs) ` set tbl" using that(2) by (force simp: runs_schema_def)
    ultimately have "crow_run_id c \<in> tab_id (runs_schema xs cs) ` set tbl'" using k by blast
    then show ?thesis by (auto simp: runs_schema_def)
  qed
  moreover have "schema_ok (runs_schema xs cs) tbl'" using k by blast
  moreover have "\<forall>t. (\<forall>s\<in>set settings. policy_tenant parse s \<noteq> Ok (Some t)) \<longrightarrow>
       filter (\<lambda>r. rrow_tenant_id r = t) tbl' = filter (\<lambda>r. rrow_tenant_id r = t) tbl"
    using k by (simp add: rows_of_def runs_schema_def)
  ultimately show ?thesis by (simp add: schema_ok_def runs_schema_def list_ex_iff)
qed

section \<open>The stores as clients\<close>

text \<open>An update of one row.\<close>

lemma update_none: "\<forall>x\<in>set tbl. \<not> p x \<Longrightarrow> update_rows T s p f before tbl = Ok (before @ tbl)"
  by (induction tbl arbitrary: before) auto

lemma schema_ok_fresh:
  assumes "schema_ok T (others @ y # rest)" "x \<in> set (others @ rest)"
  shows "tab_id T x \<noteq> tab_id T y \<and> tab_unique T x \<noteq> tab_unique T y"
  using assms by (auto simp: schema_ok_def image_iff)

lemma update_map:
  assumes "tab_before_update T = None \<and> isolated T" "\<forall>x\<in>set tbl. p x \<longrightarrow> s = Some (tab_tenant T x)"
    "\<forall>x\<in>set tbl. p x \<longrightarrow> tab_tenant T (f x) = tab_tenant T x \<and> tab_id T (f x) = tab_id T x \<and>
       tab_unique T (f x) = tab_unique T x \<and> tab_check T (f x)"
    "schema_ok T (before @ tbl)"
  shows "update_rows T s p f before tbl = Ok (before @ map (\<lambda>x. if p x then f x else x) tbl)"
  using assms(2-)
proof (induction tbl arbitrary: before)
  case (Cons x tbl)
  show ?case
  proof (cases "p x")
    case True
    with Cons.prems have f: "s = Some (tab_tenant T (f x))" "tab_id T (f x) = tab_id T x"
      "tab_unique T (f x) = tab_unique T x" "tab_check T (f x)" by auto
    with schema_ok_fresh [OF Cons.prems(3)] have "admit T s (before @ tbl) (f x) = Ok ()"
      using assms(1) by (simp add: admit_Ok)
    moreover have "schema_ok T ((before @ [f x]) @ tbl)"
      using Cons.prems(3) f by (auto simp: schema_ok_def)
    ultimately show ?thesis using True Cons.prems f assms(1) Cons.IH [of "before @ [f x]"]
      by (simp add: isolated_def tenant_isolation_def)
  next
    case False
    with Cons.prems Cons.IH [of "before @ [x]"] show ?thesis by simp
  qed
qed simp

lemma insert_ledger_statement:
  assumes "insert_ledger_event r tbl = Ok tbl'"
  shows "exec_statement ledger_events_schema (Some (lrow_tenant_id r)) (InsertRow r) tbl = Ok tbl'"
  using assms by (auto simp: insert_ledger_event_def ledger_events_schema_def admit_def tenant_isolation_def list_ex_iff split: if_splits)

lemma insert_cost_statement:
  assumes "insert_cost_event r tbl = Ok (b, tbl')" "table_ok tbl"
  shows "\<exists>stmt. exec_statement cost_events_schema (Some (row_tenant_id r)) stmt tbl = Ok tbl'"
  using assms(1)
proof (cases rule: insert_cases)
  case (same x)
  then have "exec_statement cost_events_schema (Some (row_tenant_id r)) (UpdateRows (\<lambda>_. False) id) tbl = Ok tbl'"
    by (simp add: update_none)
  then show ?thesis ..
next
  case (changed x)
  have "update_rows cost_events_schema (Some (row_tenant_id r)) (\<lambda>x. row_key x = row_key r) (\<lambda>x. r\<lparr>row_id := row_id x\<rparr>) [] tbl =
      Ok ([] @ map (\<lambda>x. if row_key x = row_key r then r\<lparr>row_id := row_id x\<rparr> else x) tbl)"
    by (rule update_map) (use changed(4) assms(2) in \<open>auto simp: cost_events_schema_def schema_ok_def table_ok_def row_key_def isolated_def\<close>)
  then show ?thesis using changed(5) by (intro exI [of _ "UpdateRows _ _"]) simp
next
  case new
  then have "exec_statement cost_events_schema (Some (row_tenant_id r)) (InsertRow r) tbl = Ok tbl'"
    by (auto simp: admit_Ok row_at_None image_iff) (auto simp: cost_events_schema_def row_at_None image_iff)
  then show ?thesis ..
qed


text \<open>
  The setting a store's transaction carries, and that the database reads it back as the
  tenant: the text of a UUID is not empty and parses to that UUID.
\<close>

definition session_setting :: "'d pg_codec \<Rightarrow> TenantId \<Rightarrow> string option" where
  "session_setting P t = Some (pg_uuid_show P (tenant_as_uuid t))"

definition reads_setting :: "(string \<Rightarrow> uuid option) \<Rightarrow> 'd pg_codec \<Rightarrow> TenantId \<Rightarrow> bool" where
  "reads_setting parse P t \<longleftrightarrow> policy_tenant parse (session_setting P t) = Ok (Some (tenant_as_uuid t))"

definition is_transaction ::
  "('r, 'k) table_schema \<Rightarrow> (string \<Rightarrow> uuid option) \<Rightarrow> string option \<Rightarrow> 'r list \<Rightarrow> 'r list \<Rightarrow> bool" where
  "is_transaction T parse setting tbl tbl' \<longleftrightarrow> (\<exists>stmts. tbl' = run_transaction T parse setting stmts tbl)"

lemma rolled_back: "is_transaction T parse setting tbl tbl"
  unfolding is_transaction_def
  by (rule exI [of _ "[]"]) (auto simp: run_transaction_def split: res.splits)

lemma committed:
  assumes "reads_setting parse P t" "res_fold (exec_statement T (Some (tenant_as_uuid t))) stmts tbl = Ok tbl'"
  shows "is_transaction T parse (session_setting P t) tbl tbl'"
  using assms unfolding is_transaction_def
  by (intro exI [of _ stmts]) (simp add: run_transaction_def reads_setting_def)

lemma upsert_statements:
  assumes "res_fold (upsert_one P S) events (n, out, tbl) = Ok (n', out', tbl')" "table_ok tbl"
    "\<forall>e\<in>set events. tenant_id (event_dims e) = t"
  shows "\<exists>stmts. res_fold (exec_statement cost_events_schema (Some (tenant_as_uuid t))) stmts tbl = Ok tbl'"
  using assms
proof (induction events arbitrary: n out tbl)
  case Nil
  then show ?case by (intro exI [of _ "[]"]) simp
next
  case (Cons e events)
  from Cons.prems(1) obtain st1 where one: "upsert_one P S e (n, out, tbl) = Ok st1"
    "res_fold (upsert_one P S) events st1 = Ok (n', out', tbl')" by auto
  from one(1) obtain r b tbl1 st where s0: "bind_row P e = Ok r" "insert_cost_event r tbl = Ok (b, tbl1)"
    "st1 = (Suc n, st, tbl1)" by (rule upsert_one_Ok)
  note s = s0(1,2) one(2) [unfolded s0(3)]
  have "row_tenant_id r = tenant_as_uuid t" using bind_row_Ok(3) [OF s(1)] Cons.prems(3) by simp
  with insert_cost_statement [OF s(2) Cons.prems(2)] obtain stmt where
    "exec_statement cost_events_schema (Some (tenant_as_uuid t)) stmt tbl = Ok tbl1" by auto
  moreover obtain stmts where
    "res_fold (exec_statement cost_events_schema (Some (tenant_as_uuid t))) stmts tbl1 = Ok tbl'"
    using Cons.IH [OF s(3)] insert_table [OF s(2) Cons.prems(2)] Cons.prems(3) by auto
  ultimately show ?case by (intro exI [of _ "stmt # stmts"]) simp
qed

lemma upsert_transaction:
  assumes "reads_setting parse P t" "table_ok tbl" "\<forall>e\<in>set events. tenant_id (event_dims e) = t"
  shows "is_transaction cost_events_schema parse (session_setting P t) tbl (snd (upsert P S events tbl))"
proof (cases "upsert_tx P S events tbl")
  case (Ok x)
  then obtain out tbl' where x: "upsert_tx P S events tbl = Ok (out, tbl')" by (cases x) auto
  show ?thesis
  proof (cases events)
    case Nil
    with x show ?thesis by (simp add: upsert_def upsert_tx_def rolled_back)
  next
    case (Cons e rest)
    with x obtain n where "res_fold (upsert_one P S) events (0, outcome_default, tbl) = Ok (n, out, tbl')"
      by (auto simp: upsert_tx_def Let_def simp del: res_fold.simps split: if_splits)
    from upsert_statements [OF this assms(2,3)] committed [OF assms(1)] x show ?thesis
      by (auto simp: upsert_def)
  qed
qed (simp_all add: upsert_def rolled_back)

lemma persist_statements:
  assumes "persist_rows E P Z S tenant now fresh n events g stored tbl = (Ok (out, tbl'), g')"
  shows "\<exists>stmts. res_fold (exec_statement ledger_events_schema (Some (tenant_as_uuid tenant))) stmts tbl = Ok tbl'"
  using assms
proof (induction events arbitrary: n g stored tbl)
  case Nil
  then show ?case by (intro exI [of _ "[]"]) simp
next
  case (Cons payload events)
  then obtain e tbl1 g1 where o: "persist_one E P Z S tenant now (fresh n) n payload g tbl = (Ok (e, tbl1), g1)"
    "persist_rows E P Z S tenant now fresh (Suc n) events g1 (stored @ [e]) tbl1 = (Ok (out, tbl'), g')"
    by (auto split: prod.splits res.splits)
  from o(1) obtain r where r: "insert_ledger_event r tbl = Ok tbl1" "lrow_tenant_id r = tenant_as_uuid tenant"
    by (fastforce simp: persist_one_def Let_def split: prod.splits)
  from Cons.IH [OF o(2)] obtain stmts where
    "res_fold (exec_statement ledger_events_schema (Some (tenant_as_uuid tenant))) stmts tbl1 = Ok tbl'" by blast
  with insert_ledger_statement [OF r(1)] r(2) show ?case by (intro exI [of _ "InsertRow r # stmts"]) simp
qed

lemma persist_transaction:
  assumes "reads_setting parse P (store_tenant_id self)"
  shows "is_transaction ledger_events_schema parse (session_setting P (store_tenant_id self)) tbl
    (snd (snd (persist E P Z S self now fresh g events tbl)))"
proof (cases "persist_tx E P Z S self now fresh g events tbl")
  case (Pair res g')
  show ?thesis
  proof (cases res)
    case (Ok x)
    with Pair obtain out tbl' where x: "persist_tx E P Z S self now fresh g events tbl = (Ok (out, tbl'), g')"
      by (cases x) auto
    then have "persist_rows E P Z S (store_tenant_id self) now fresh 0 events g [] tbl = (Ok (out, tbl'), g')"
      by (auto simp: persist_tx_def dest!: begin_tenant_tx_Ok split: res.splits prod.splits)
    from persist_statements [OF this] committed [OF assms] x show ?thesis by (auto simp: persist_def)
  qed (simp_all add: Pair persist_def rolled_back)
qed


lemma runs_schema_ok: "runs_ok db \<Longrightarrow> schema_ok (runs_schema (db_experiments db) cs) (db_runs db)"
  by (simp add: schema_ok_def runs_schema_def runs_ok_def list_ex_iff image_iff eq_commute [of "rrow_experiment_id _"])

lemma refreshed_run_checks: "run_checks r \<Longrightarrow> run_checks x \<Longrightarrow> run_checks (refresh_run x r)"
  by (simp add: run_checks_def split: option.splits)

lemma refreshed_cost_checks: "run_checks (r\<lparr>rrow_attributed_cost := n\<rparr>) \<longleftrightarrow> run_checks r"
  by (simp add: run_checks_def split: option.splits)

lemma refreshed_run_tenant: "rrow_tenant_id (refresh_run x r) = rrow_tenant_id x"
  by (simp add: refresh_run_def)

lemma runs_schema_sel [simp]:
  "tab_before_update (runs_schema xs cs) = None" "tab_id (runs_schema xs cs) = rrow_id" "tab_tenant (runs_schema xs cs) = rrow_tenant_id"
  "tab_unique (runs_schema xs cs) = run_key"
  "tab_check (runs_schema xs cs) r \<longleftrightarrow> run_checks r \<and> list_ex (\<lambda>x. xrow_id x = rrow_experiment_id r) xs"
  by (simp_all add: runs_schema_def)

lemma run_row_valid:
  "runs_ok db \<Longrightarrow> x \<in> set (db_runs db) \<Longrightarrow> run_checks x \<and> list_ex (\<lambda>y. xrow_id y = rrow_experiment_id x) (db_experiments db)"
  using runs_schema_ok [of db "[]"] by (auto simp: schema_ok_def)

lemma insert_run_transaction:
  assumes "insert_run r db = Ok (row, db')" "runs_ok db" "rrow_tenant_id r = tenant_as_uuid t"
  shows "\<exists>stmt. exec_statement (runs_schema (db_experiments db) cs) (Some (tenant_as_uuid t)) stmt (db_runs db) = Ok (db_runs db')"
  using assms(1)
proof (cases rule: insert_run_cases)
  case inserted
  then have "\<forall>x\<in>set (db_runs db). run_key x \<noteq> run_key r" by (auto simp: run_row_at_def find_None_iff)
  with inserted assms(3) have "exec_statement (runs_schema (db_experiments db) cs) (Some (tenant_as_uuid t)) (InsertRow r) (db_runs db) = Ok (db_runs db')"
    by (auto simp: admit_Ok list_ex_iff)
  then show ?thesis ..
next
  case (updated old)
  let ?T = "runs_schema (db_experiments db) cs"
  have "update_rows ?T (Some (tenant_as_uuid t)) (\<lambda>x. run_key x = run_key r) (\<lambda>x. refresh_run x r) [] (db_runs db) =
      Ok ([] @ map (\<lambda>x. if run_key x = run_key r then refresh_run x r else x) (db_runs db))"
    by (rule update_map) (use updated(2) assms(3) run_row_valid [OF assms(2)] runs_schema_ok [OF assms(2)]
      in \<open>auto simp: refreshed_run_checks refreshed_run_tenant, auto simp: run_key_def\<close>)
  then show ?thesis using updated(5) by (intro exI [of _ "UpdateRows _ _"]) simp
next
  case (unchanged old)
  then have "exec_statement (runs_schema (db_experiments db) cs) (Some (tenant_as_uuid t)) (UpdateRows (\<lambda>_. False) id) (db_runs db) =
    Ok (db_runs db')" by (simp add: update_none)
  then show ?thesis ..
qed

lemma upsert_run_transaction:
  assumes "reads_setting parse P (r_tenant_id run)" "runs_ok db"
  shows "is_transaction (runs_schema (db_experiments db) cs) parse (session_setting P (r_tenant_id run))
    (db_runs db) (db_runs (snd (upsert_run P S run db)))"
proof (cases "upsert_run_tx P S run db")
  case (Ok x)
  then obtain out db' where x: "upsert_run_tx P S run db = Ok (out, db')" by (cases x) auto
  then have "upsert_run P S run db = (Ok out, db')" by (simp add: upsert_run_def)
  with upsert_run_Ok [OF this assms(2)] obtain r row where r: "bind_run P run = Ok r" "insert_run r db = Ok (row, db')"
    by blast
  have "rrow_tenant_id r = tenant_as_uuid (r_tenant_id run)"
    using bind_run_key [OF r(1)] by (simp add: run_key_def identity_of_def)
  from insert_run_transaction [OF r(2) assms(2) this, of cs] obtain stmt where
    "exec_statement (runs_schema (db_experiments db) cs) (Some (tenant_as_uuid (r_tenant_id run))) stmt (db_runs db) = Ok (db_runs db')" ..
  then show ?thesis using x
    by (intro committed [OF assms(1), of _ "[stmt]"]) (simp add: upsert_run_def)
qed (simp_all add: upsert_run_def rolled_back)

lemma refresh_transaction:
  assumes "reads_setting parse P t" "runs_ok db"
  shows "is_transaction (runs_schema (db_experiments db) cs) parse (session_setting P t)
    (db_runs db) (db_runs (snd (refresh_attributed_cost D P pgsum S db t i)))"
proof (cases "refresh_tx D P pgsum S db t i")
  case (Ok x)
  then obtain m db' where d: "refresh_tx D P pgsum S db t i = Ok (m, db')" by (cases x) auto
  let ?db = "\<lambda>n. db\<lparr>db_runs := map (\<lambda>r. if rrow_id r = run_as_uuid i \<and> rrow_tenant_id r = tenant_as_uuid t
      then r\<lparr>rrow_attributed_cost := n\<rparr> else r) (db_runs db)\<rparr>"
  from d have "\<exists>n. db' = ?db n" by (fastforce simp: refresh_tx_def Let_def dest!: begin_tenant_tx_Ok)
  with d obtain n where x: "refresh_tx D P pgsum S db t i = Ok (m, ?db n)" by blast
  let ?T = "runs_schema (db_experiments db) cs"
  let ?p = "\<lambda>r. rrow_id r = run_as_uuid i \<and> rrow_tenant_id r = tenant_as_uuid t"
  have "update_rows ?T (Some (tenant_as_uuid t)) ?p (\<lambda>r. r\<lparr>rrow_attributed_cost := n\<rparr>) [] (db_runs db) =
      Ok ([] @ map (\<lambda>r. if ?p r then r\<lparr>rrow_attributed_cost := n\<rparr> else r) (db_runs db))"
    by (rule update_map) (use run_row_valid [OF assms(2)] runs_schema_ok [OF assms(2)]
      in \<open>auto simp: refreshed_cost_checks run_key_def\<close>)
  then show ?thesis
    by (intro committed [OF assms(1), of _ "[UpdateRows ?p (\<lambda>r. r\<lparr>rrow_attributed_cost := n\<rparr>)]"])
      (simp add: refresh_attributed_cost_def x)
qed (simp_all add: refresh_attributed_cost_def rolled_back)

lemma insert_experiment_transaction:
  assumes "insert_experiment x db = Ok db'" "distinct (map xrow_id (db_experiments db))"
  shows "\<exists>stmt. exec_statement (experiments_schema db) (Some (xrow_tenant_id x)) stmt (db_experiments db) = Ok (db_experiments db')"
proof (cases "find (\<lambda>y. xrow_id y = xrow_id x) (db_experiments db)")
  case None
  with assms(1) have "db_experiments db' = db_experiments db @ [x]" by (auto simp: insert_experiment_def)
  with None have "exec_statement (experiments_schema db) (Some (xrow_tenant_id x)) (InsertRow x) (db_experiments db) = Ok (db_experiments db')"
    by (auto simp: admit_Ok) (auto simp: experiments_schema_def find_None_iff)
  then show ?thesis ..
next
  case (Some old)
  let ?p = "\<lambda>y. xrow_id y = xrow_id x"
  let ?f = "\<lambda>y. y\<lparr>xrow_name := xrow_name x\<rparr>"
  have o: "old \<in> set (db_experiments db)" "xrow_id old = xrow_id x" using Some by (auto simp: find_Some_iff)
  have t: "xrow_tenant_id y = xrow_tenant_id x" if "y \<in> set (db_experiments db)" "?p y" for y
  proof -
    have "y = old" using o that inj_onD [of xrow_id "set (db_experiments db)" y old] assms(2) by (simp add: distinct_map)
    then show ?thesis using assms(1) Some by (auto simp: insert_experiment_def split: if_splits)
  qed
  have "update_rows (experiments_schema db) (Some (xrow_tenant_id x)) ?p ?f [] (db_experiments db) =
      Ok ([] @ map (\<lambda>y. if ?p y then ?f y else y) (db_experiments db))"
    by (rule update_map) (use t assms(2) in \<open>auto simp: experiments_schema_def schema_ok_def isolated_def\<close>)
  then show ?thesis using assms(1) Some
    by (intro exI [of _ "UpdateRows ?p ?f"]) (auto simp: insert_experiment_def split: if_splits)
qed

lemma upsert_experiment_transaction:
  assumes "reads_setting parse P (x_tenant_id x)" "distinct (map xrow_id (db_experiments db))"
  shows "is_transaction (experiments_schema db) parse (session_setting P (x_tenant_id x))
    (db_experiments db) (db_experiments (snd (upsert_experiment P S x db)))"
proof (cases "upsert_experiment P S x db")
  case (Pair res db')
  show ?thesis
  proof (cases res)
    case (Ok u)
    with Pair obtain row where "insert_experiment row db = Ok db'" "xrow_tenant_id row = tenant_as_uuid (x_tenant_id x)"
      by (fastforce simp: upsert_experiment_def split: res.splits)
    with insert_experiment_transaction [OF this(1) assms(2)] obtain stmt where
      "exec_statement (experiments_schema db) (Some (tenant_as_uuid (x_tenant_id x))) stmt (db_experiments db) = Ok (db_experiments db')"
      by auto
    then show ?thesis by (intro committed [OF assms(1), of _ "[stmt]"]) (simp add: Pair)
  next
    case (Err e)
    with Pair have "db' = db" by (auto simp: upsert_experiment_def split: res.splits)
    with Pair show ?thesis by (simp add: rolled_back)
  next
    case Panic
    with Pair have "db' = db" by (auto simp: upsert_experiment_def split: res.splits)
    with Pair show ?thesis by (simp add: rolled_back)
  qed
qed

text \<open>
  C22: every write of a store is a transaction of the schema in the session of its tenant, with
  the constraints and the policy checked statement by statement: an upsert of the tenant's
  cost events, an append to the ledger, an upsert of an experiment or a run and the refresh of
  a run's cost, each whatever it answers. So what the database keeps against any client holds of the stores.
\<close>

theorem stores_run_transactions:
  assumes "reads_setting parse P t" "table_ok costs" "runs_ok db" "distinct (map xrow_id (db_experiments db))"
    "\<forall>e\<in>set events. tenant_id (event_dims e) = t" "r_tenant_id run = t" "store_tenant_id self = t" "x_tenant_id x = t"
  shows "is_transaction cost_events_schema parse (session_setting P t) costs (snd (upsert P S events costs)) \<and>
    is_transaction ledger_events_schema parse (session_setting P t) ledger_rows
      (snd (snd (persist E P Z S self now fresh g posted ledger_rows))) \<and>
    is_transaction (experiments_schema db) parse (session_setting P t)
      (db_experiments db) (db_experiments (snd (upsert_experiment P S x db))) \<and>
    is_transaction (runs_schema (db_experiments db) cs) parse (session_setting P t)
      (db_runs db) (db_runs (snd (upsert_run P S run db))) \<and>
    is_transaction (runs_schema (db_experiments db) cs) parse (session_setting P t)
      (db_runs db) (db_runs (snd (refresh_attributed_cost D P pgsum S db t i)))"
proof (intro conjI)
  show "is_transaction cost_events_schema parse (session_setting P t) costs (snd (upsert P S events costs))"
    by (rule upsert_transaction [OF assms(1,2,5)])
  show "is_transaction ledger_events_schema parse (session_setting P t) ledger_rows
      (snd (snd (persist E P Z S self now fresh g posted ledger_rows)))"
    using persist_transaction [of parse P self] assms(1,7) by simp
  show "is_transaction (experiments_schema db) parse (session_setting P t)
      (db_experiments db) (db_experiments (snd (upsert_experiment P S x db)))"
    using upsert_experiment_transaction [of parse P x db] assms(1,4,8) by simp
  show "is_transaction (runs_schema (db_experiments db) cs) parse (session_setting P t)
      (db_runs db) (db_runs (snd (upsert_run P S run db)))"
    using upsert_run_transaction [of parse P run db] assms(1,3,6) by simp
  show "is_transaction (runs_schema (db_experiments db) cs) parse (session_setting P t)
      (db_runs db) (db_runs (snd (refresh_attributed_cost D P pgsum S db t i)))"
    by (rule refresh_transaction [OF assms(1,3)])
qed

definition demo_experiment :: experiment_entity where
  "demo_experiment = \<lparr>x_id = ExperimentId 6, x_tenant_id = TenantId 1, x_project_id = ProjectId 2, x_name = ''rlhf''\<rparr>"

theorem stores_run_transactions_witness:
  "is_transaction cost_events_schema demo_parse (Some ''u'') [] [demo_row_of 7 ''h1'' 150] \<and>
    is_transaction ledger_events_schema demo_parse (Some ''u'') [] [bill_row] \<and>
    is_transaction (runs_schema (db_experiments (demo_db [])) []) demo_parse (Some ''u'') []
      [demo_run_row ''running'' None ''PENDING_REVIEW'']"
proof -
  obtain stored g' where p: "persist plain_esrs plain_codec demo_serde good_session demo_self 5 (demo_fresh 1) agg0
      [bill_posted] [] = (Ok stored, g', [bill_row])" using demo_persist by blast
  have s: "session_setting plain_codec (TenantId 1) = Some ''u''" by (simp add: session_setting_def plain_codec_def)
  have r: "reads_setting demo_parse plain_codec (TenantId 1)"
    by (simp add: reads_setting_def s policy_tenant_def demo_parse_def)
  have "table_ok ([] :: refdec cost_table)" by (simp add: table_ok_def)
  moreover have "\<forall>e\<in>set [demo_event 7 ''h1'' 150]. tenant_id (event_dims e) = TenantId 1"
    "r_tenant_id (wandb_run 20 Running None) = TenantId 1" "db_runs (demo_db rs) = rs" for rs
    by (simp_all add: demo_event_def dimensions_new_def wandb_run_def demo_db_def)
  moreover have "distinct (map xrow_id (db_experiments (demo_db [])))" "x_tenant_id demo_experiment = TenantId 1"
    by (simp_all add: demo_db_def demo_experiment_def)
  ultimately show ?thesis
    using stores_run_transactions [OF r _ demo_runs_ok(1), of "[]" "[demo_event 7 ''h1'' 150]" "wandb_run 20 Running None"
        demo_self demo_experiment good_session "[]" plain_esrs demo_serde 5 "demo_fresh 1" agg0 "[bill_posted]" "[]"]
    unfolding s p demo_upsert(1) demo_insert_run by simp
qed

text \<open>
  Foreign keys are not part of the policy: a session may put a run under an experiment of
  another tenant, which it cannot see.
\<close>

lemma run_under_foreign_experiment:
  "exec_statement (runs_schema (db_experiments (demo_db [])) []) (Some 2)
     (InsertRow (demo_run_row ''running'' None ''PENDING_REVIEW''\<lparr>rrow_tenant_id := 2\<rparr>)) [] =
   Ok [demo_run_row ''running'' None ''PENDING_REVIEW''\<lparr>rrow_tenant_id := 2\<rparr>]"
  "\<forall>x\<in>set (db_experiments (demo_db [])). \<not> tab_using (experiments_schema (demo_db [])) (Some 2) x"
  by (simp_all add: runs_schema_def admit_def tenant_isolation_def run_checks_def demo_db_def demo_run_row_def experiments_schema_def)

end
