(* ===== verification/Ingestion_Properties.thy ===== *)
theory Ingestion_Properties
  imports Cost_Properties Cost_Store_Properties
begin

text \<open>
  A billing export's way into the database: the records fetched from the provider are
  normalized, each under an identifier drawn for it, and the batch is upserted. A scheduler
  that runs the same export twice draws other identifiers at another time.
\<close>

definition normalize_batch ::
  "'d decimal_ops \<Rightarrow> externs \<Rightarrow> aws_connector \<Rightarrow> datetime \<Rightarrow> CostEventId list \<Rightarrow> raw_cost_record list
     \<Rightarrow> (normalize_error, 'd cost_event list) res" where
  "normalize_batch D X self now ids raws = res_mapM (\<lambda>(i, raw). normalize D X self now i raw) (zip ids raws)"

definition drawn_again :: "datetime \<Rightarrow> CostEventId \<Rightarrow> 'd cost_event \<Rightarrow> 'd cost_event" where
  "drawn_again now i e = e\<lparr>event_id := i, event_source := (event_source e)\<lparr>ingested_at := now\<rparr>\<rparr>"

lemma drawn_again_sel [simp]:
  "event_key (drawn_again now i e) = event_key e" "event_dims (drawn_again now i e) = event_dims e"
  "content_hash (event_source (drawn_again now i e)) = content_hash (event_source e)"
  by (simp_all add: drawn_again_def event_key_def)

lemma normalize_again:
  "normalize D X self now i raw = Ok e \<Longrightarrow> normalize D X self now' i' raw = Ok (drawn_again now' i' e)"
  by (auto simp: normalize_def Let_def cost_event_new_def drawn_again_def split: if_splits)

lemma normalize_batch_again:
  assumes "normalize_batch D X self now ids raws = Ok es" "length ids = length raws" "length ids' = length raws"
  shows "normalize_batch D X self now' ids' raws = Ok (map2 (drawn_again now') ids' es) \<and> length es = length raws"
  using assms
proof (induction raws arbitrary: ids ids' es)
  case (Cons raw raws)
  from Cons.prems(2,3) obtain i more i' more' where i: "ids = i # more" "ids' = i' # more'"
    by (metis length_Suc_conv length_Cons)
  with Cons.prems obtain e es1 where e: "normalize D X self now i raw = Ok e"
    "normalize_batch D X self now more raws = Ok es1" "es = e # es1" by (auto simp: normalize_batch_def)
  from Cons.IH [OF e(2), of more'] Cons.prems(2,3) normalize_again [OF e(1), of now' i'] i e(3)
  show ?case by (simp add: normalize_batch_def)
qed (simp add: normalize_batch_def)

lemma bind_again:
  "bind_row P e = Ok r \<Longrightarrow> row_checks r \<Longrightarrow> \<exists>r'. bind_row P (drawn_again now i e) = Ok r' \<and> row_checks r'"
  by (auto simp: bind_row_def Let_def drawn_again_def row_checks_def event_currency_def)


text \<open>A batch of one tenant whose statements succeed on a healthy connection is committed.\<close>

lemma upsert_same_tenant:
  assumes "\<forall>x\<in>set es. tenant_id (event_dims x) = t" "es \<noteq> []" "healthy S"
    "res_fold (upsert_one P S) es (0, outcome_default, tbl) = Ok (n, outcome, tbl')"
  shows "upsert P S es tbl = (Ok outcome, tbl')"
proof -
  obtain e es1 where es: "es = e # es1" using assms(2) by (cases es) auto
  then have "\<not> list_ex (\<lambda>x. tenant_id (event_dims x) \<noteq> tenant_id (event_dims e)) es" using assms(1) by (simp add: list_ex_iff)
  with assms(3,4) show ?thesis
    by (simp add: upsert_def upsert_tx_def es Let_def healthy_def del: res_fold.simps)
qed

text \<open>
  C12: an export is ingested once. When a batch was normalized and upserted and one billed line
  has one content in it, running the same records again, later, under other identifiers and
  on any healthy connection, normalizes all of them, counts every event as a duplicate, and
  leaves the table exactly as it was: no cost is billed twice.
\<close>

theorem ingested_once:
  assumes "table_ok tbl" "normalize_batch D X self now ids raws = Ok es" "consistent es"
    "upsert P S es tbl = (Ok outcome, tbl')" "healthy S'"
    "length ids = length raws" "length ids' = length raws"
  shows "\<exists>es'. normalize_batch D X self now' ids' raws = Ok es' \<and>
    upsert P S' es' tbl' = (Ok \<lparr>inserted = 0, restated = 0, duplicate = length raws\<rparr>, tbl')"
proof -
  let ?es = "map2 (drawn_again now') ids' es"
  have b: "normalize_batch D X self now' ids' raws = Ok ?es" "length es = length raws"
    using normalize_batch_again [OF assms(2,6,7)] by simp_all
  have again: "\<exists>i. \<exists>e\<in>set es. x = drawn_again now' i e" if "x \<in> set ?es" for x
    using that by (auto dest: set_zip_rightD)
  show ?thesis
  proof (cases "es = []")
    case True
    with b show ?thesis by (auto simp: upsert_def upsert_tx_def outcome_default_def)
  next
    case False
    obtain n where n: "\<forall>x\<in>set es. tenant_id (event_dims x) = tenant_id (event_dims (hd es))"
      "res_fold (upsert_one P S) es (0, outcome_default, tbl) = Ok (n, outcome, tbl')"
      using upsert_Ok_cases [OF assms(4) False] .
    have "stored_as tbl' x \<and> (\<exists>r. bind_row P x = Ok r \<and> row_checks r)" if x: "x \<in> set ?es" for x
    proof -
      obtain i e where e: "e \<in> set es" "x = drawn_again now' i e" using again [OF x] by blast
      have "stored_as tbl' e" using fold_stores [OF n(2) assms(1), of "[]"] assms(3) e(1) by simp
      with fold_binds [OF n(2) e(1)] bind_again [of P e] show ?thesis by (auto simp: e(2) stored_as_def)
    qed
    then have "res_fold (upsert_one P S') ?es (0, outcome_default, tbl') =
        Ok (0 + length ?es, outcome_default\<lparr>duplicate := duplicate outcome_default + length ?es\<rparr>, tbl')"
      by (intro fold_duplicates [OF _ assms(5)]) blast
    moreover have "tenant_id (event_dims x) = tenant_id (event_dims (hd es))" if "x \<in> set ?es" for x
      using again [OF that] n(1) by auto
    moreover have l: "length ?es = length raws" "?es \<noteq> []" using b(2) assms(7) False by auto
    ultimately have "upsert P S' ?es tbl' = (Ok (outcome_default\<lparr>duplicate := length raws\<rparr>), tbl')"
      using upsert_same_tenant [of ?es "tenant_id (event_dims (hd es))" S' P tbl'] assms(5)
      by (simp add: outcome_default_def)
    with b(1) show ?thesis by (simp add: outcome_default_def)
  qed
qed

definition demo_batch :: "refdec cost_event list" where
  "demo_batch = (case normalize_batch ref_ops demo_externs demo_connector 0 [CostEventId 9] [demo_raw] of
     Ok es \<Rightarrow> es | _ \<Rightarrow> [])"

lemma demo_ingests:
  "is_ok (normalize_batch ref_ops demo_externs demo_connector 0 [CostEventId 9] [demo_raw])"
  "is_ok (fst (upsert plain_codec good_session demo_batch []))" "length demo_batch = 1"
  by code_simp+

theorem ingested_once_witness:
  "\<exists>tbl' es'. normalize_batch ref_ops demo_externs demo_connector 60 [CostEventId 10] [demo_raw] = Ok es' \<and>
    upsert plain_codec good_session es' tbl' = (Ok \<lparr>inserted = 0, restated = 0, duplicate = 1\<rparr>, tbl')"
proof -
  have n: "normalize_batch ref_ops demo_externs demo_connector 0 [CostEventId 9] [demo_raw] = Ok demo_batch"
    using demo_ingests(1) by (cases "normalize_batch ref_ops demo_externs demo_connector 0 [CostEventId 9] [demo_raw]")
      (auto simp: demo_batch_def)
  obtain outcome tbl' where u: "upsert plain_codec good_session demo_batch [] = (Ok outcome, tbl')"
    using demo_ingests(2) by (cases "upsert plain_codec good_session demo_batch []"; cases "fst (upsert plain_codec good_session demo_batch [])") auto
  have "table_ok ([] :: refdec cost_table)" by (simp add: table_ok_def)
  moreover obtain e where "demo_batch = [e]" using demo_ingests(3) by (auto simp: length_Suc_conv)
  then have "consistent demo_batch" unfolding consistent_def by (elim ssubst) simp
  ultimately show ?thesis
    using ingested_once [OF _ n _ u good_session_healthy, of "[CostEventId 10]" 60] by auto
qed

end
