(* ===== verification/Service_Properties.thy ===== *)
theory Service_Properties
  imports Api_Properties Assertion_Proofs Ledger_Properties
begin

text \<open>
  The ledger from one end of the program to the other: commands accepted by the aggregate, their
  events appended by the store, and the answer of the balance endpoint.
\<close>

text \<open>
  C30: what was posted is what the API answers. After the events of accepted commands were
  appended to a stream, a caller of that tenant with the read scope is answered 200 with the
  accounts of the state those commands lead to, the number of entries and of events in the
  log, and, as each account is used in one currency and the amounts stay within the mantissa,
  a USD trial balance of exactly zero; the request changes nothing.
\<close>

theorem posted_shows_in_balance:
  assumes "esrs_laws (app_esrs (A :: ('g, 'd) app_state)) seq" "decimal_laws (app_decimal A) val" "\<forall>n. healthy (app_session A n)"
    "streams_ok tbl" "load (app_decimal A) (app_esrs A) (app_codec A) (app_serde A) S tbl self i = Ok g"
    "persist (app_esrs A) (app_codec A) (app_serde A) S' self now fresh g events tbl = (Ok stored, g', tb_ledger w)"
    "\<forall>e\<in>set events. serde_exact (app_codec A) (app_serde A) e" "seq g + int (length events) < 2 ^ 31"
    "ledger_history (app_decimal A) h (agg_inner (app_esrs A) g)" "ledger_history (app_decimal A) (h @ events) s"
    "in_bounds k val s" "held_in f s"
    "match_get H (map fst route_table) q = Some ''/v1/ledger/{aggregate_id}/balance''"
    "caller H A q = Some c" "has_scope c Read" "path_uuid H q = Ok i" "ctx_tenant_id c = store_tenant_id self"
  shows "\<exists>t :: 'd money. serve H A w q = (Some \<lparr>resp_status = 200, resp_body = BalanceBody \<lparr>bv_aggregate_id = i,
      bv_entry_count = entry_count s, bv_event_count = nat (seq g) + length events,
      bv_accounts = map (\<lambda>(a, m). \<lparr>ab_account = account_as_uuid a, ab_balance = dec_to_string (app_decimal A) (amount m),
        ab_currency = currency_code (currency m)\<rparr>) (accounts s),
      bv_trial_balance = dec_to_string (app_decimal A) (amount t)\<rparr>\<rparr>, w) \<and>
    currency t = Usd \<and> val (amount t) = 0"
proof -
  obtain evs news where a: "streams_ok (tb_ledger w)" "map se_payload news = events" "map se_payload stored = events"
    "list_all2 (\<lambda>r e. decode_ledger_row (app_serde A) r = Ok e)
       (if owned (store_tenant_id self) i (tb_ledger w) then stream i (tb_ledger w) else []) (evs @ news)"
    "fold_events (apply_event (app_decimal A)) evs ledger_default =
       (Ok (agg_inner (app_esrs A) g) :: (ledger_store_error, _) res)" "seq g = int (length evs)"
    using appended_stream [OF assms(1,4-8)] .
  have rows: "list_all2 (\<lambda>r e. decode_ledger_row (app_serde A) r = Ok e)
      (filter (\<lambda>r. lrow_aggregate_id r = i) (ledger_visible (ctx_tenant_id c) (tb_ledger w))) (evs @ news)"
    using a(4) unfolding assms(17) visible_stream [OF a(1)] .
  have "replay_from (app_decimal A) (agg_inner (app_esrs A) g) events = (Ok s :: (ledger_store_error, _) res)"
    using history_replays [OF assms(9), where 'e = ledger_store_error] history_replays [OF assms(10), where 'e = ledger_store_error]
    by (simp add: replay_def replay_append)
  then have r: "replay (app_decimal A) (map se_payload (evs @ news)) = (Ok s :: (ledger_store_error, _) res)"
    using a(5) by (simp add: fold_events_payloads replay_def replay_append a(2)) (simp add: replay_from_def)
  from decimal_laws.history_inv [OF assms(2,10,11), of f] assms(12)
  have "ledger_inv k val s" "ledger_inv_ccy f val s" by auto
  from zero_trial_balance [OF assms(2) this assms(11), of Usd, where 'e = api_error]
  obtain t where t: "trial_balance (app_decimal A) s Usd = (Ok t :: (api_error, _) res)" "currency t = Usd"
    "val (amount t) = 0" by blast
  have len: "length (evs @ news) = nat (seq g) + length events" using a(6) arg_cong [OF a(2), of length] by simp
  show ?thesis
    using balance_answer_is_replay [OF assms(1,3) a(1) assms(13-16) rows r t(1)] t(2,3) unfolding len
    by (intro exI [of _ t] conjI)
qed

text \<open>The example application with a provider of \<open>serde\<close>, and a request for the stream 20.\<close>

definition ledger_app :: "(refdec plain_aggregate, refdec) app_state" where
  "ledger_app = demo_app\<lparr>app_serde := demo_serde\<rparr>"

definition agg20 :: "refdec plain_aggregate" where
  "agg20 = \<lparr>pa_id = 20, pa_sequence = 0, pa_inner = ledger_default\<rparr>"

definition balance_route :: string where "balance_route = ''/v1/ledger/{aggregate_id}/balance''"

lemma demo_load_20: "load ref_ops plain_esrs plain_codec demo_serde good_session [] self 20 = Ok agg20"
  by (simp add: load_def by_aggregate_id_def ledger_visible_def sort_by_def fold_events_def reached_sequence_def
      plain_esrs_def agg20_def)

lemma demo_persist_20:
  "\<exists>stored g'. persist plain_esrs plain_codec demo_serde good_session demo_self 5 (demo_fresh 1) agg20 [bill_posted] [] =
     (Ok stored, g', [bill_row\<lparr>lrow_aggregate_id := 20\<rparr>])"
  by (simp add: persist_def persist_tx_def persist_one_def insert_ledger_event_def plain_esrs_def agg20_def
      bill_row_def plain_codec_def demo_fresh_def)

theorem posted_shows_in_balance_witness:
  "\<exists>r w. \<exists>t :: refdec money. serve demo_http ledger_app (demo_tables\<lparr>tb_ledger := [bill_row\<lparr>lrow_aggregate_id := 20\<rparr>]\<rparr>) (''reader'', balance_route) =
     (Some \<lparr>resp_status = 200, resp_body = BalanceBody r\<rparr>, w) \<and> bv_event_count r = 1 \<and> bv_entry_count r = 1 \<and>
     bv_trial_balance r = dec_to_string ref_ops (amount t) \<and> ref_val (amount t) = 0"
proof -
  let ?w = "demo_tables\<lparr>tb_ledger := [bill_row\<lparr>lrow_aggregate_id := 20\<rparr>]\<rparr>"
  have e: "app_esrs ledger_app = plain_esrs" "app_decimal ledger_app = ref_ops" "app_codec ledger_app = plain_codec"
    "app_serde ledger_app = demo_serde" "\<forall>n. healthy (app_session ledger_app n)" "tb_ledger ?w = [bill_row\<lparr>lrow_aggregate_id := 20\<rparr>]"
    by (simp_all add: ledger_app_def demo_app_def)
  obtain stored g' where p: "persist plain_esrs plain_codec demo_serde good_session demo_self 5 (demo_fresh 1) agg20
      [bill_posted] [] = (Ok stored, g', tb_ledger ?w)" using demo_persist_20 e(6) by auto
  have "caller demo_http ledger_app (''reader'', balance_route) = Some \<lparr>ctx_tenant_id = TenantId 1, ctx_scopes = [Read]\<rparr>"
    using demo_caller(1) by (simp add: caller_def ledger_app_def)
  moreover have "match_get demo_http (map fst route_table) (''reader'', balance_route) = Some ''/v1/ledger/{aggregate_id}/balance''"
    "path_uuid demo_http (''reader'', balance_route) = Ok 20"
    by (simp_all add: demo_http_def route_table_def balance_route_def)
  moreover have "ledger_history ref_ops [] (agg_inner plain_esrs agg20)" "ledger_history ref_ops ([] @ [bill_posted]) after_post"
    using history_post ledger_history.start by (simp_all add: plain_esrs_def agg20_def bill_posted_def)
  moreover have "held_in (\<lambda>_. Usd) after_post" 
    by (auto simp: held_in_def after_post_def bill_defs line_currency_def)
  moreover have "pa_sequence agg20 = 0" "entry_count after_post = 1" by (simp_all add: agg20_def entry_count_def after_post_def)
  ultimately show ?thesis
    using posted_shows_in_balance [of ledger_app pa_sequence ref_val "[]" good_session demo_self 20 agg20 good_session 5
        "demo_fresh 1" "[bill_posted]" stored g' ?w "[]" after_post 2 "\<lambda>_. Usd" demo_http "(''reader'', balance_route)"
        "\<lparr>ctx_tenant_id = TenantId 1, ctx_scopes = [Read]\<rparr>"] p
    unfolding e
    by (auto simp: plain_laws ref_laws e(5) streams_ok_Nil demo_load_20 demo_serde_exact after_post_bounds has_scope_def)
qed

end
