(* ===== verification/Spec2Isabelle.thy ===== *)
theory Spec2Isabelle
  imports Ledger_Properties Pricing_Properties Cost_Properties Cost_Store_Properties
    Ledger_Store_Properties Research_Properties Allocation_Properties
    Generator_Properties Runner_Properties Catalog_Properties Corpus Ads_Properties Ads_Files
    Api_Properties Bootstrap Schema_Properties Ingestion_Properties Service_Properties
begin

text \<open>
  A model of Falkr-lite, the cost and accounting spine of an AI company: an event-sourced
  double-entry ledger, cost events ingested from provider invoices and placed on a
  dimensional spine, research runs mirrored from experiment trackers, PostgreSQL stores under
  row-level security, an HTTP layer over them, and a test kit that generates ledgers and
  executes scenarios. This theory imports the whole development; the properties stand in the
  theories \<open>*_Properties\<close>.

  \<^bold>\<open>How the parts interact.\<close> A connector (\<open>Aws_Focus\<close>) reads exports into raw records and
  normalizes each to a cost event (\<open>Cost_Event\<close>) whose dimensions come from its tags
  (\<open>Attribution\<close>); the store (\<open>Cost_Store\<close>) upserts events by source identity. A tracker
  connector (\<open>Research\<close>) does the same for runs (\<open>Research_Store\<close>), whose attributed cost is
  recomputed from the cost events. Ledger commands (\<open>Ledger\<close>) produce events that
  \<open>Ledger_Store\<close> appends and replays. \<open>Api\<close> answers requests from the three stores, each in a
  tenant transaction of \<open>Db\<close>. The test kit drives the ledger directly: \<open>Runner\<close> executes the
  operations of a \<open>Scenario\<close> over a chart (\<open>Chart\<close>) and the operation table (\<open>Catalog\<close>),
  \<open>Ads_Export\<close> turns the run into an audit extract, \<open>Ads_Files\<close> writes it, \<open>Corpus\<close> finds the
  scenarios, \<open>Generator\<close> draws random ledgers and \<open>Assertions\<close> states the invariants.

  \<^bold>\<open>Shared vocabulary.\<close>
  \<^item> \<open>Prelude\<close>: the outcome \<open>res\<close> of a Rust computation (\<open>Ok\<close>, \<open>Err\<close>, panic), chained calls,
    \<open>try_fold\<close>, stable sorting by insertion.
  \<^item> \<open>Rust_String\<close>, \<open>BTree\<close>, \<open>Json\<close>: the parts of the standard library and of \<open>serde_json\<close>'s
    value type that the sources use. A \<open>str\<close> is its list of bytes; a \<open>BTreeMap\<close> is its
    association list in key order.
  \<^item> \<open>Decimal\<close>: the interface of \<open>rust_decimal\<close> as the record \<open>decimal_ops\<close> and the locale
    \<open>decimal_laws\<close>: a value in the rationals, operations that are exact when the exact result
    is representable (28 fractional digits, a 96-bit mantissa), documented rounding.
    \<open>Decimal_Ref\<close> is a provider that satisfies it and on which the witnesses compute.

  \<^bold>\<open>The components and their sources under \<open>src/\<close>.\<close>
  \<^item> \<open>Dimensions\<close>, \<open>Money\<close>: \<open>crates/core/src/ids.rs\<close>, \<open>dimensions.rs\<close>, \<open>money.rs\<close>. Identifiers are a
    type each over the 128-bit value; money adds within a currency only.
  \<^item> \<open>Ledger\<close>: \<open>crates/events/src/ledger.rs\<close>, \<open>handle_command\<close> (fresh identifier and clock as
    arguments) and \<open>apply_event\<close>. \<open>Ledger_Proofs\<close> reads balances as numbers,
    \<open>Ledger_Invariants\<close> and \<open>Ledger_Reach\<close> prove by rule induction on histories that every
    accepted entry balances and that balances are the projection of the log; \<open>Ledger_Example\<close>
    is the ledger of the witnesses.
  \<^item> \<open>Pricing\<close>, \<open>Attribution\<close>, \<open>Cost_Event\<close>, \<open>Aws_Focus\<close>: \<open>crates/cost-spine/src\<close>. \<open>Pricing_Proofs\<close>
    and \<open>Apportion_Proofs\<close> give the closed formula of the cost measures and show that
    apportionment conserves the total and stays within one minor unit of the exact share.
  \<^item> \<open>Db\<close>, \<open>Cost_Store\<close>, \<open>Ledger_Store\<close>, \<open>Research_Store\<close>: \<open>crates/infra/src\<close> over the tables of
    \<open>migrations/\<close>. A table is a list of rows, a statement a function of it, and a transaction
    that does not commit leaves it as it was. The theories \<open>Cost_Store_Proofs\<close>,
    \<open>Ledger_Store_Proofs\<close> and \<open>Research_Proofs\<close> hold the constraints as invariants and read an
    upsert as one update of a map, and an append as the extension of one stream.
  \<^item> \<open>Schema\<close>: what \<open>migrations/\<close> declare of each table, as data (keys, unique indexes, constraints,
    foreign keys, the two expressions of the row-level security policy, the row triggers), and
    the meaning SQL gives to inserts, updates and deletes under such declarations, which is the
    language's and models no line of the sources. \<open>Schema_Properties\<close> shows what no session can
    do to the tables so declared, the append-only log above all, and that every write of the
    stores is such a transaction (a refinement).
  \<^item> \<open>Research\<close>: \<open>crates/research-graph/src\<close>, its entities and the two trackers.
  \<^item> \<open>Api\<close>, \<open>Api_Proofs\<close>: \<open>crates/api/src\<close>: credentials, scopes, handlers, routing. \<open>Bootstrap\<close> is
    \<open>main.rs\<close>.
  \<^item> \<open>Allocation\<close>, \<open>Chart\<close>, \<open>Catalog\<close>, \<open>Assertions\<close>, \<open>Generator\<close>, \<open>Scenario\<close>, \<open>Runner\<close>, \<open>Corpus\<close>,
    \<open>Ads_Export\<close>, \<open>Ads_Files\<close>: \<open>crates/testkit/src\<close>, with \<open>Assertion_Proofs\<close> (each verdict is the
    invariant it names), \<open>Generator_Proofs\<close> (drawn entries balance) and \<open>Runner_Proofs\<close> (a run
    is a history of the ledger).
  \<^item> \<open>Ingestion_Properties\<close> and \<open>Service_Properties\<close> put components together: an export normalized
    and upserted twice, and a ledger from its commands through the log to the HTTP answer.

  \<^bold>\<open>What the properties show.\<close> Ledger: exactly the balanced entries are accepted, they replay, the
  trial balance is zero and balances are the projection of the log as long as each account is
  used in one currency (\<open>held_in\<close>; otherwise \<open>post\<close> drops the line and both can fail, as
  \<open>trial_balance_drift\<close> shows) and the amounts fit the mantissa, a reversal subtracts what was posted and happens once, and what was
  posted is what the balance endpoint answers, under the same two conditions. Costs: the
  measures are the FOCUS formula, apportionment and allocation lose nothing, ingestion is
  idempotent from the billing record on where an identity has one content in its batch, tenants cannot touch each other's rows, what is written
  is read back. Database: no transaction of inserts, updates and deletes breaks a constraint,
  touches a tenant it is not set to, or changes a row of the log; the stores are such clients. Stores: loading after
  appending is applying, the second of two writers conflicts, reloading and retrying succeeds.
  Research: identities are injective, redelivery of an unchanged run changes nothing, the
  attributed cost is the exact sum. API: no answer without the scope (the health check
  apart), answers from the caller's own rows only. Test kit: valid scenarios that are not
  blocked run when their phase is delivered, runs are histories whose extract states every line
  and foots, the runner handles exactly what the catalog delivers, and the generator's ground truth is the aggregate's.

  \<^bold>\<open>Arguments that stand for other code.\<close> The decimal type; SHA-256, RFC 3339 dates, UUID text and
  the \<open>csv\<close> reader (\<open>externs\<close>); the column codec and the answers of the database server
  (\<open>pg_codec\<close>, \<open>pg_session\<close>, \<open>sqlx_ops\<close>) and SQL's \<open>SUM\<close>; \<open>esrs\<close>'s aggregate state (\<open>esrs_ops\<close>, laws
  in the locale \<open>esrs_laws\<close>) and \<open>serde\<close>; \<open>axum\<close>'s extractors and routing (\<open>http_ops\<close>); TOML
  decoding; the file system and the \<open>csv\<close> writer (\<open>csv_ops\<close>, laws in \<open>csv_writer\<close>); fresh
  identifiers and the clock. Each interface with laws is interpreted on a concrete provider.

  \<^bold>\<open>Bounds.\<close> No definition uses fuel: \<open>apportion\<close>'s loop recurses on its list of remainders, the
  leftover loop of \<open>allocate\<close> counts to twice the number of parts as the source's own guard
  does, and the other loops run over lists. The generator keeps its state in 64-bit words.
  Where a property speaks of exact sums it asks that the sums of the magnitudes involved fit
  the decimal's mantissa at the scale used (\<open>fits_gross\<close>); a decimal operator that overflows is
  a panic of the model, and so is an index out of range (\<open>index_at\<close>) or a remainder by zero.

  \<^bold>\<open>Not modelled.\<close> Crate roots and re-exports, which hold no operation;
  \<open>crates/infra/build.rs\<close> and \<open>test_support.rs\<close>, which set up a test database; logging; the JSON
  text of responses and of stored payloads, which \<open>serde\<close> derives; the wording of messages that
  only print a value with \<open>Debug\<close>; concurrency inside one statement (a table is updated by one
  statement at a time, as the unique indexes make it appear); \<open>TRUNCATE\<close>, DDL and roles that
  bypass row security; indexes that only change speed
  and the bookkeeping columns \<open>created_at\<close> and \<open>updated_at\<close> of the migrations; the tests.
\<close>

end
